(* ===== verification/Prelude.thy ===== *)
theory Prelude
  imports Main "HOL-Library.AList"
begin

text \<open>
  What every component of the development shares: the collections its proofs use, the
  loops over Go slices that the code repeats (find the first index, cut one element out,
  keep the newest entries of a log), association lists as directories and Go maps, and the
  locale of a bounded log.
\<close>

named_theorems go_string_simps \<open>facts on the modelled strings package\<close>
named_theorems store_simps \<open>facts on the gateway's worker and pairing store\<close>
named_theorems gateway_simps \<open>facts on the gateway's in-memory state\<close>
named_theorems run_simps \<open>facts on the worker's run machine\<close>

subsection \<open>Loops over slices\<close>

text \<open>
  \<^verbatim>\<open>for i := range xs { if p(xs[i]) { idx = i; break } }\<close>: the index of the first element
  that satisfies the test.
\<close>

fun find_index :: "('a \<Rightarrow> bool) \<Rightarrow> 'a list \<Rightarrow> nat option" where
  "find_index p [] = None"
| "find_index p (x # xs) = (if p x then Some 0 else map_option Suc (find_index p xs))"

lemma find_index_None [simp]: "find_index p xs = None \<longleftrightarrow> (\<forall>x \<in> set xs. \<not> p x)"
  by (induction xs) auto

lemma find_index_SomeD:
  "find_index p xs = Some i \<Longrightarrow> i < length xs \<and> p (xs ! i) \<and> (\<forall>j < i. \<not> p (xs ! j))"
proof (induction xs arbitrary: i)
  case Nil
  then show ?case by simp
next
  case (Cons x xs)
  show ?case
  proof (cases "p x")
    case True
    with Cons.prems show ?thesis by simp
  next
    case False
    with Cons.prems obtain k where k: "find_index p xs = Some k" "i = Suc k" by auto
    from Cons.IH [OF k(1)] have IH: "k < length xs" "p (xs ! k)" "\<forall>j < k. \<not> p (xs ! j)" by auto
    have "\<not> p ((x # xs) ! j)" if "j < i" for j
      using that False IH(3) k(2) by (cases j) auto
    with IH(1,2) k(2) show ?thesis by simp
  qed
qed

lemma find_index_lt: "find_index p xs = Some i \<Longrightarrow> i < length xs"
  using find_index_SomeD by blast

lemma find_index_holds: "find_index p xs = Some i \<Longrightarrow> p (xs ! i)"
  using find_index_SomeD by blast

lemma find_index_mem: "find_index p xs = Some i \<Longrightarrow> xs ! i \<in> set xs"
  by (simp add: find_index_lt)

lemma find_index_last:
  "\<forall>x \<in> set xs. \<not> p x \<Longrightarrow> p y \<Longrightarrow> find_index p (xs @ [y]) = Some (length xs)"
  by (induction xs) auto

text \<open>\<^verbatim>\<open>append(xs[:i], xs[i+1:]...)\<close>\<close>

definition remove_at :: "nat \<Rightarrow> 'a list \<Rightarrow> 'a list" where
  "remove_at i xs = take i xs @ drop (Suc i) xs"

lemma set_remove_at_subset: "set (remove_at i xs) \<subseteq> set xs"
  by (auto simp: remove_at_def dest: in_set_takeD in_set_dropD)

lemma remove_at_0 [simp]: "remove_at 0 (x # xs) = xs"
  by (simp add: remove_at_def)

lemma remove_at_Suc [simp]: "remove_at (Suc i) (x # xs) = x # remove_at i xs"
  by (simp add: remove_at_def)

lemma distinct_map_remove_at:
  "distinct (map f xs) \<Longrightarrow> distinct (map f (remove_at i xs))"
proof (induction xs arbitrary: i)
  case Nil
  then show ?case by (simp add: remove_at_def)
next
  case (Cons x xs)
  then show ?case
    using set_remove_at_subset [of _ xs] by (cases i) auto
qed

lemma key_notin_remove_at:
  "distinct (map f xs) \<Longrightarrow> i < length xs \<Longrightarrow> f (xs ! i) \<notin> f ` set (remove_at i xs)"
proof (induction xs arbitrary: i)
  case Nil
  then show ?case by simp
next
  case (Cons x xs)
  then show ?case
    by (cases i) (auto simp: image_iff, metis nth_mem)
qed

subsection \<open>Association lists\<close>

text \<open>
  Directories and Go maps whose keys are enumerated by the code are association lists with
  distinct keys, written with \<^const>\<open>AList.update\<close> and \<^const>\<open>AList.delete\<close>.
\<close>

lemma map_of_update [simp]:
  "map_of (AList.update k v al) k' = (if k' = k then Some v else map_of al k')"
  by (simp add: AList.update_conv')

lemma map_of_delete [simp]:
  "map_of (AList.delete k al) k' = (if k' = k then None else map_of al k')"
  by (simp add: AList.delete_conv')

subsection \<open>Settings\<close>

text \<open>
  What a store of settings promises: a setting that was made reads back, one that is apart from it is
  not touched, and a later setting replaces an earlier one.
\<close>

locale settings =
  fixes read :: "'p \<Rightarrow> 'd \<Rightarrow> 'v option"
    and set_to :: "'p \<Rightarrow> 'x \<Rightarrow> 'd \<Rightarrow> 'd"
    and valued :: "'x \<Rightarrow> 'v"
    and apart :: "'p \<Rightarrow> 'p \<Rightarrow> bool"
    and valid :: "'p \<Rightarrow> bool"
  assumes read_set: "valid p \<Longrightarrow> read p (set_to p x d) = Some (valued x)"
    and read_apart: "valid p \<Longrightarrow> apart p q \<Longrightarrow> read q (set_to p x d) = read q d"
    and set_set: "valid p \<Longrightarrow> set_to p y (set_to p x d) = set_to p y d"
begin

fun set_all :: "('p \<times> 'x) list \<Rightarrow> 'd \<Rightarrow> 'd" where
  "set_all [] d = d"
| "set_all ((p, x) # pxs) d = set_all pxs (set_to p x d)"

lemma read_set_all_apart:
  "\<forall>(p, x) \<in> set pxs. valid p \<and> apart p q \<Longrightarrow> read q (set_all pxs d) = read q d"
  by (induction pxs arbitrary: d) (auto simp: read_apart)

text \<open>After a sequence of settings the last one of a path counts, whatever was set apart from it since.\<close>

lemma read_last:
  assumes "valid p" "\<forall>(q, y) \<in> set after. valid q \<and> apart q p"
  shows "read p (set_all (before @ (p, x) # after) d) = Some (valued x)"
proof -
  have a: "set_all (pxs @ qys) d = set_all qys (set_all pxs d)" for pxs qys d
    by (induction pxs arbitrary: d) auto
  show ?thesis using assms by (simp add: a read_set_all_apart read_set)
qed

end

interpretation entries: settings "\<lambda>k e. map_of e k" AList.update "\<lambda>v. v" "(\<noteq>)" "\<lambda>k. True"
  by unfold_locales (auto simp: update_last)

subsection \<open>Bounded logs\<close>

text \<open>
  \<^verbatim>\<open>q = append(q, x); if len(q) > n { q = q[len(q)-n:] }\<close>: append and keep the newest
  \<open>n\<close> entries.
\<close>

definition keep_last :: "nat \<Rightarrow> 'a list \<Rightarrow> 'a list" where
  "keep_last n xs = (if length xs > n then drop (length xs - n) xs else xs)"

lemma length_keep_last [simp]: "length (keep_last n xs) = min n (length xs)"
  by (auto simp: keep_last_def)

lemma keep_last_id: "length xs \<le> n \<Longrightarrow> keep_last n xs = xs"
  by (simp add: keep_last_def)

lemma set_keep_last: "set (keep_last n xs) \<subseteq> set xs"
  by (auto simp: keep_last_def dest: in_set_dropD)

lemma keep_last_suffix: "\<exists>ys. xs = ys @ keep_last n xs"
  by (metis append_Nil append_take_drop_id keep_last_def)

lemma keep_last_drop: "keep_last n xs = drop (length xs - n) xs"
  by (simp add: keep_last_def)

lemma keep_last_append_keep_last: "keep_last n (keep_last n xs @ ys) = keep_last n (xs @ ys)"
proof (cases "length xs \<le> n")
  case True
  then show ?thesis by (simp add: keep_last_id)
next
  case False
  then have "length (keep_last n xs @ ys) - n = length ys" by simp
  moreover have "length (xs @ ys) - n = (length xs - n) + length ys" using False by simp
  ultimately show ?thesis using False
    by (simp add: keep_last_drop add.commute)
qed

text \<open>
  The contract a bounded log gives its clients: appending keeps the bound, and after any
  sequence of appends to an empty log the log holds the newest \<open>cap\<close> entries in order.
  The gateway's control queues and its stream buffers are interpretations.
\<close>

locale bounded_log =
  fixes push :: "'e \<Rightarrow> 'e list \<Rightarrow> 'e list"
    and cap :: nat
  assumes push_newest: "push x q = keep_last cap (q @ [x])"
begin

lemma push_bound: "length (push x q) \<le> cap"
  by (simp add: push_newest)

lemma push_room: "length q < cap \<Longrightarrow> push x q = q @ [x]"
  by (simp add: push_newest keep_last_id)

lemma push_full: "0 < cap \<Longrightarrow> length q = cap \<Longrightarrow> push x q = tl (q @ [x])"
  by (cases q) (auto simp: push_newest keep_last_def)

lemma push_mem: "0 < cap \<Longrightarrow> x \<in> set (push x q)"
  by (simp add: push_newest keep_last_def)

lemma push_origin: "y \<in> set (push x q) \<Longrightarrow> y = x \<or> y \<in> set q"
  using set_keep_last [of cap "q @ [x]"] by (auto simp: push_newest)

lemma fold_push: "length q \<le> cap \<Longrightarrow> fold push xs q = keep_last cap (q @ xs)"
proof (induction xs arbitrary: q)
  case Nil
  then show ?case by (simp add: keep_last_id)
next
  case (Cons x xs)
  have "fold push (x # xs) q = keep_last cap (push x q @ xs)"
    using Cons.IH [OF push_bound] by simp
  also have "\<dots> = keep_last cap (q @ x # xs)"
    using keep_last_append_keep_last [of cap "q @ [x]" xs] by (simp add: push_newest)
  finally show ?case .
qed

lemma fold_push_empty: "fold push xs [] = keep_last cap xs"
  by (simp add: fold_push)

end

subsection \<open>Options\<close>

lemma option_eqI: "(\<And>w. x = Some w \<longleftrightarrow> y = Some w) \<Longrightarrow> x = y"
  by (metis option.exhaust)

text \<open>A lookup that loses one value and keeps the others.\<close>

lemma option_except:
  assumes "\<And>w. x = Some w \<longleftrightarrow> w \<noteq> k \<and> y = Some w"
  shows "x = (if y = Some k then None else y)"
  by (rule option_eqI) (use assms in auto)

end
