(* ===== verification/GoStrings.thy ===== *)
theory GoStrings
  imports Prelude "HOL-Library.Char_ord" "HOL-Library.List_Lexorder" "HOL-Library.Sublist"
begin

text \<open>
  The parts of Go's \<^verbatim>\<open>strings\<close>, \<^verbatim>\<open>strconv\<close> and \<^verbatim>\<open>fmt\<close> packages the
  program calls. A Go string is a byte sequence, so it is a \<^typ>\<open>string\<close> whose
  characters are bytes. \<open>trim_space\<close> cuts every white-space rune of
  \<^verbatim>\<open>unicode.IsSpace\<close> in its UTF-8 encoding. \<open>to_lower\<close> is
  \<^verbatim>\<open>strings.ToLower\<close> as far as ASCII can observe it: ASCII letters, and the two
  non-ASCII runes whose lower case is an ASCII letter (U+0130 and U+212A); other bytes of
  128 and above stay as they are, where Go may replace a non-ASCII rune by another one.
\<close>

subsection \<open>strings.TrimSpace\<close>

definition ascii_space :: "char \<Rightarrow> bool" where
  "ascii_space c \<longleftrightarrow> c = CHR '' '' \<or> c = CHR 0x09 \<or> c = CHR 0x0A \<or> c = CHR 0x0B \<or> c = CHR 0x0C \<or> c = CHR 0x0D"

text \<open>U+0085 and U+00A0 take two bytes; U+1680, U+2000..U+200A, U+2028, U+2029, U+202F,
  U+205F and U+3000 take three.\<close>

definition space2 :: "char \<Rightarrow> char \<Rightarrow> bool" where
  "space2 c d \<longleftrightarrow> c = CHR 0xC2 \<and> (d = CHR 0x85 \<or> d = CHR 0xA0)"

definition space3 :: "char \<Rightarrow> char \<Rightarrow> char \<Rightarrow> bool" where
  "space3 c d e \<longleftrightarrow>
     (c = CHR 0xE1 \<and> d = CHR 0x9A \<and> e = CHR 0x80)
   \<or> (c = CHR 0xE2 \<and> d = CHR 0x80 \<and>
        (CHR 0x80 \<le> e \<and> e \<le> CHR 0x8A \<or> e = CHR 0xA8 \<or> e = CHR 0xA9 \<or> e = CHR 0xAF))
   \<or> (c = CHR 0xE2 \<and> d = CHR 0x81 \<and> e = CHR 0x9F)
   \<or> (c = CHR 0xE3 \<and> d = CHR 0x80 \<and> e = CHR 0x80)"

text \<open>The number of bytes of the white-space rune a string starts with, 0 for none; and of
  the one it ends with, reading the reversed string.\<close>

fun space_len :: "string \<Rightarrow> nat" where
  "space_len [] = 0"
| "space_len (c # cs) =
     (if ascii_space c then 1
      else case cs of [] \<Rightarrow> 0
      | d # ds \<Rightarrow> if space2 c d then 2
                 else (case ds of [] \<Rightarrow> 0 | e # es \<Rightarrow> if space3 c d e then 3 else 0))"

fun space_len_rev :: "string \<Rightarrow> nat" where
  "space_len_rev [] = 0"
| "space_len_rev (e # cs) =
     (if ascii_space e then 1
      else case cs of [] \<Rightarrow> 0
      | d # ds \<Rightarrow> if space2 d e then 2
                 else (case ds of [] \<Rightarrow> 0 | c # bs \<Rightarrow> if space3 c d e then 3 else 0))"

lemma space_len_nonempty: "0 < space_len s \<Longrightarrow> s \<noteq> []"
  by auto

lemma space_len_rev_nonempty: "0 < space_len_rev s \<Longrightarrow> s \<noteq> []"
  by auto

function trim_left :: "string \<Rightarrow> string" where
  "trim_left s = (if space_len s = 0 then s else trim_left (drop (space_len s) s))"
  by pat_completeness auto
termination
  by (relation "measure length") (auto intro!: diff_less dest: space_len_nonempty)

function trim_left_rev :: "string \<Rightarrow> string" where
  "trim_left_rev s = (if space_len_rev s = 0 then s else trim_left_rev (drop (space_len_rev s) s))"
  by pat_completeness auto
termination
  by (relation "measure length") (auto intro!: diff_less dest: space_len_rev_nonempty)

declare trim_left.simps [simp del] trim_left_rev.simps [simp del]

definition trim_right :: "string \<Rightarrow> string" where
  "trim_right s = rev (trim_left_rev (rev s))"

definition trim_space :: "string \<Rightarrow> string" where
  "trim_space s = trim_right (trim_left s)"

lemma space_len_trim_left [simp]: "space_len (trim_left s) = 0"
  by (induction s rule: trim_left.induct) (subst trim_left.simps, auto)

lemma space_len_rev_trim [simp]: "space_len_rev (trim_left_rev s) = 0"
  by (induction s rule: trim_left_rev.induct) (subst trim_left_rev.simps, auto)

lemma trim_left_id: "space_len s = 0 \<Longrightarrow> trim_left s = s"
  by (subst trim_left.simps) simp

lemma trim_left_rev_id: "space_len_rev s = 0 \<Longrightarrow> trim_left_rev s = s"
  by (subst trim_left_rev.simps) simp

lemma trim_left_rev_suffix: "suffix (trim_left_rev s) s"
proof (induction s rule: trim_left_rev.induct)
  case (1 s)
  show ?case
  proof (cases "space_len_rev s = 0")
    case True
    then show ?thesis by (simp add: trim_left_rev_id)
  next
    case False
    have "trim_left_rev s = trim_left_rev (drop (space_len_rev s) s)"
      using False by (subst trim_left_rev.simps) simp
    with "1.IH" [OF False] show ?thesis
      by (metis suffix_drop suffix_order.trans)
  qed
qed

lemma trim_right_prefix: "prefix (trim_right s) s"
  using trim_left_rev_suffix [of "rev s"] by (simp add: trim_right_def suffix_to_prefix)

lemma space_len_prefix: "prefix p s \<Longrightarrow> space_len s = 0 \<Longrightarrow> space_len p = 0"
proof (induction p rule: space_len.induct)
  case 1
  then show ?case by simp
next
  case (2 c cs)
  then show ?case
    by (cases s; cases cs; cases "tl cs")
       (auto simp: prefix_def split: list.splits if_splits)
qed

lemma space_len_trim_space [simp]: "space_len (trim_space s) = 0"
  unfolding trim_space_def
  by (rule space_len_prefix [OF trim_right_prefix]) simp

lemma trim_right_idem [simp]: "trim_right (trim_right s) = trim_right s"
  by (simp add: trim_right_def trim_left_rev_id)

lemma trim_space_idem [simp, go_string_simps]: "trim_space (trim_space s) = trim_space s"
proof -
  have "trim_left (trim_space s) = trim_space s" by (simp add: trim_left_id)
  then show ?thesis by (simp add: trim_space_def)
qed

lemma trim_space_Nil [simp]: "trim_space [] = []"
  by (simp add: trim_space_def trim_right_def trim_left_id trim_left_rev_id)

lemma trim_space_prefix_of_left: "prefix (trim_space s) (trim_left s)"
  by (simp add: trim_space_def trim_right_prefix)

subsection \<open>strings.ToLower\<close>

definition ascii_lower :: "char \<Rightarrow> char" where
  "ascii_lower c = (if CHR ''A'' \<le> c \<and> c \<le> CHR ''Z'' then char_of (of_char c + (32 :: nat)) else c)"

fun to_lower :: "string \<Rightarrow> string" where
  "to_lower [] = []"
| "to_lower (c # cs) =
     (if c = CHR 0xC4 \<and> take 1 cs = [CHR 0xB0] then CHR ''i'' # to_lower (drop 1 cs)
      else if c = CHR 0xE2 \<and> take 2 cs = [CHR 0x84, CHR 0xAA] then CHR ''k'' # to_lower (drop 2 cs)
      else ascii_lower c # to_lower cs)"

lemma ascii_lower_cases:
  "ascii_lower c = c \<or> (CHR ''a'' \<le> ascii_lower c \<and> ascii_lower c \<le> CHR ''z'')"
proof (cases "CHR ''A'' \<le> c \<and> c \<le> CHR ''Z''")
  case True
  then have "of_char CHR ''A'' \<le> (of_char c :: nat)" "of_char c \<le> (of_char CHR ''Z'' :: nat)"
    by (simp_all add: less_eq_char_def)
  then have "(65 :: nat) \<le> of_char c" "of_char c \<le> (90 :: nat)" by simp_all
  then have "of_char (ascii_lower c) = of_char c + (32 :: nat)"
    using True by (simp add: ascii_lower_def)
  then show ?thesis
    using \<open>(65 :: nat) \<le> of_char c\<close> \<open>of_char c \<le> (90 :: nat)\<close> by (simp add: less_eq_char_def)
next
  case False
  then show ?thesis by (auto simp: ascii_lower_def)
qed

lemma to_lower_eq_Nil [simp]: "to_lower s = [] \<longleftrightarrow> s = []"
  by (cases s) auto

text \<open>Where no byte is an upper-case letter or starts one of the two runes, nothing changes.\<close>

definition lower_stable :: "char \<Rightarrow> bool" where
  "lower_stable c \<longleftrightarrow> \<not> (CHR ''A'' \<le> c \<and> c \<le> CHR ''Z'') \<and> c \<noteq> CHR 0xC4 \<and> c \<noteq> CHR 0xE2"

lemma to_lower_id [go_string_simps]: "list_all lower_stable s \<Longrightarrow> to_lower s = s"
  by (induction s) (auto simp: lower_stable_def ascii_lower_def)

subsection \<open>strings.Index, Contains, Split, Join, TrimPrefix, TrimRight\<close>

fun index_of :: "string \<Rightarrow> string \<Rightarrow> nat option" where
  "index_of sub [] = (if sub = [] then Some 0 else None)"
| "index_of sub (c # cs) =
     (if prefix sub (c # cs) then Some 0 else map_option Suc (index_of sub cs))"

definition contains :: "string \<Rightarrow> string \<Rightarrow> bool" where
  "contains s sub \<longleftrightarrow> index_of sub s \<noteq> None"

lemma index_of_SomeD:
  "index_of sub s = Some i \<Longrightarrow> i \<le> length s \<and> prefix sub (drop i s) \<and> (\<forall>j < i. \<not> prefix sub (drop j s))"
proof (induction s arbitrary: i)
  case Nil
  then show ?case by (auto split: if_splits)
next
  case (Cons c cs)
  show ?case
  proof (cases "prefix sub (c # cs)")
    case True
    with Cons.prems show ?thesis by simp
  next
    case False
    with Cons.prems obtain k where k: "index_of sub cs = Some k" "i = Suc k" by auto
    from Cons.IH [OF k(1)]
    have IH: "k \<le> length cs" "prefix sub (drop k cs)" "\<forall>j < k. \<not> prefix sub (drop j cs)" by auto
    have "\<not> prefix sub (drop j (c # cs))" if "j < i" for j
      using that False IH(3) k(2) by (cases j) auto
    with IH k(2) show ?thesis by simp
  qed
qed

lemma index_of_None_iff: "index_of sub s = None \<longleftrightarrow> (\<forall>j \<le> length s. \<not> prefix sub (drop j s))"
proof (induction s)
  case Nil
  then show ?case by auto
next
  case (Cons c cs)
  have "(\<forall>j \<le> length (c # cs). \<not> prefix sub (drop j (c # cs)))
      \<longleftrightarrow> \<not> prefix sub (c # cs) \<and> (\<forall>j \<le> length cs. \<not> prefix sub (drop j cs))"
    by (metis Suc_le_mono drop0 drop_Suc_Cons le0 length_Cons not0_implies_Suc)
  with Cons show ?case by auto
qed

lemma contains_iff: "contains s sub \<longleftrightarrow> (\<exists>j \<le> length s. prefix sub (drop j s))"
  by (auto simp: contains_def index_of_None_iff)

fun split_char :: "char \<Rightarrow> string \<Rightarrow> string list" where
  "split_char sep [] = [[]]"
| "split_char sep (c # cs) =
     (if c = sep then [] # split_char sep cs
      else case split_char sep cs of [] \<Rightarrow> [[c]] | w # ws \<Rightarrow> (c # w) # ws)"

fun join :: "string \<Rightarrow> string list \<Rightarrow> string" where
  "join sep [] = []"
| "join sep [w] = w"
| "join sep (w # ws) = w @ sep @ join sep ws"

lemma split_char_nonempty [simp]: "split_char sep s \<noteq> []"
  by (cases s) (auto split: list.splits)

lemma join_Cons: "ws \<noteq> [] \<Longrightarrow> join sep (w # ws) = w @ sep @ join sep ws"
  by (cases ws) auto

lemma join_split_char: "join [sep] (split_char sep s) = s"
proof (induction s)
  case Nil
  then show ?case by simp
next
  case (Cons c cs)
  obtain w ws where "split_char sep cs = w # ws" by (cases "split_char sep cs") auto
  with Cons show ?case by (cases ws) auto
qed

lemma split_char_no_sep: "w \<in> set (split_char sep s) \<Longrightarrow> sep \<notin> set w"
  by (induction s arbitrary: w) (auto split: list.splits if_splits)

definition trim_prefix :: "string \<Rightarrow> string \<Rightarrow> string" where
  "trim_prefix p s = (if prefix p s then drop (length p) s else s)"

definition trim_right_chars :: "char set \<Rightarrow> string \<Rightarrow> string" where
  "trim_right_chars cs s = rev (dropWhile (\<lambda>c. c \<in> cs) (rev s))"

definition replace_char :: "char \<Rightarrow> char \<Rightarrow> string \<Rightarrow> string" where
  "replace_char a b s = map (\<lambda>c. if c = a then b else c) s"

subsection \<open>Decimal numbers: fmt's %d, strconv.Atoi\<close>

definition is_digit :: "char \<Rightarrow> bool" where
  "is_digit c \<longleftrightarrow> CHR ''0'' \<le> c \<and> c \<le> CHR ''9''"

definition ascii_letter :: "char \<Rightarrow> bool" where
  "ascii_letter c \<longleftrightarrow> (let n = of_char c :: nat in 65 \<le> n \<and> n \<le> 90 \<or> 97 \<le> n \<and> n \<le> 122)"

definition digit_char :: "nat \<Rightarrow> char" where
  "digit_char d = char_of (48 + d)"

definition digit_val :: "char \<Rightarrow> nat" where
  "digit_val c = of_char c - 48"

fun dec_of_nat :: "nat \<Rightarrow> string" where
  "dec_of_nat n = (if n < 10 then [digit_char n] else dec_of_nat (n div 10) @ [digit_char (n mod 10)])"

declare dec_of_nat.simps [simp del]

definition dec_val :: "string \<Rightarrow> nat" where
  "dec_val s = foldl (\<lambda>acc c. acc * 10 + digit_val c) 0 s"

lemma of_char_digit_char: "d < 10 \<Longrightarrow> of_char (digit_char d) = 48 + d"
  by (simp add: digit_char_def)

lemma digit_val_char [simp]: "d < 10 \<Longrightarrow> digit_val (digit_char d) = d"
  by (simp add: digit_val_def of_char_digit_char)

lemma is_digit_iff: "is_digit c \<longleftrightarrow> 48 \<le> (of_char c :: nat) \<and> of_char c \<le> (57 :: nat)"
  by (simp add: is_digit_def less_eq_char_def)

lemma is_digit_char [simp]: "d < 10 \<Longrightarrow> is_digit (digit_char d)"
  by (simp add: is_digit_iff of_char_digit_char)

lemma dec_of_nat_digits: "list_all is_digit (dec_of_nat n)"
proof (induction n rule: dec_of_nat.induct)
  case (1 n)
  then show ?case by (subst dec_of_nat.simps) auto
qed

lemma dec_of_nat_nonempty [simp]: "dec_of_nat n \<noteq> []"
  by (subst dec_of_nat.simps) simp

lemma dec_val_snoc: "dec_val (s @ [c]) = dec_val s * 10 + digit_val c"
  by (simp add: dec_val_def)

lemma dec_of_nat_small: "n < 10 \<Longrightarrow> dec_of_nat n = [digit_char n]"
  by (simp add: dec_of_nat.simps)

lemma dec_of_nat_large: "10 \<le> n \<Longrightarrow> dec_of_nat n = dec_of_nat (n div 10) @ [digit_char (n mod 10)]"
  by (subst dec_of_nat.simps) simp

lemma decimal_induct [case_names digit more]:
  assumes "\<And>d. d < 10 \<Longrightarrow> P d" and "\<And>n. 10 \<le> n \<Longrightarrow> P (n div 10) \<Longrightarrow> P n"
  shows "P (n :: nat)"
  by (induction n rule: less_induct) (metis assms div_less_dividend less_le_trans linorder_not_less one_less_numeral_iff semiring_norm(76) zero_less_numeral)

lemma dec_val_dec_of_nat [simp]: "dec_val (dec_of_nat n) = n"
  by (induction n rule: decimal_induct)
    (simp_all add: dec_of_nat_small dec_of_nat_large dec_val_snoc, simp add: dec_val_def)

lemma dec_bound: "n < 10 ^ length (dec_of_nat n)"
  by (induction n rule: decimal_induct)
    (simp_all add: dec_of_nat_small dec_of_nat_large div_less_iff_less_mult mult.commute)

lemma dec_of_nat_inj: "dec_of_nat m = dec_of_nat n \<Longrightarrow> m = n"
  by (metis dec_val_dec_of_nat)

definition dec_of_int :: "int \<Rightarrow> string" where
  "dec_of_int i = (if i < 0 then CHR ''-'' # dec_of_nat (nat (- i)) else dec_of_nat (nat i))"

text \<open>\<^verbatim>\<open>strconv.Atoi\<close> on a 64-bit platform: an optional sign, at least one digit, in range.\<close>

definition int64_ok :: "int \<Rightarrow> bool" where
  "int64_ok i \<longleftrightarrow> - (2 ^ 63) \<le> i \<and> i < 2 ^ 63"

definition scan_sign :: "string \<Rightarrow> bool \<times> string" where
  "scan_sign s =
     (case s of [] \<Rightarrow> (False, [])
      | c # cs \<Rightarrow> if c = CHR ''-'' then (True, cs)
                 else if c = CHR ''+'' then (False, cs) else (False, s))"

definition atoi :: "string \<Rightarrow> int option" where
  "atoi s =
     (let (neg, ds) = scan_sign s;
          v = (if neg then - int (dec_val ds) else int (dec_val ds))
      in if ds = [] \<or> \<not> list_all is_digit ds \<or> \<not> int64_ok v then None else Some v)"

lemma atoi_dec_of_nat: "n < 2 ^ 63 \<Longrightarrow> atoi (dec_of_nat n) = Some (int n)"
proof -
  assume n: "n < 2 ^ 63"
  obtain c cs where s: "dec_of_nat n = c # cs" by (cases "dec_of_nat n") auto
  then have "is_digit c" using dec_of_nat_digits [of n] by simp
  then have "c \<noteq> CHR ''-''" "c \<noteq> CHR ''+''" by (auto simp: is_digit_def less_eq_char_def)
  moreover have "dec_val (c # cs) = n" using s dec_val_dec_of_nat [of n] by simp
  moreover have "list_all is_digit (c # cs)" using s dec_of_nat_digits [of n] by simp
  moreover have "int64_ok (int n)" using n by (simp add: int64_ok_def)
  ultimately show ?thesis by (simp add: atoi_def scan_sign_def s)
qed

text \<open>
  \<^verbatim>\<open>fmt.Sscanf(s, "%d", &n)\<close>: leading white space but no newline, an optional sign,
  the longest run of digits; what follows the digits is not looked at.
\<close>

function skip_space :: "string \<Rightarrow> string option" where
  "skip_space s =
     (if space_len s = 0 then Some s
      else if take 1 s = [CHR 0x0A] then None
      else skip_space (drop (space_len s) s))"
  by pat_completeness auto
termination
  by (relation "measure length") (auto intro!: diff_less dest: space_len_nonempty)

declare skip_space.simps [simp del]

definition sscanf_d :: "string \<Rightarrow> int option" where
  "sscanf_d s =
     (case skip_space s of None \<Rightarrow> None
      | Some t \<Rightarrow>
          (let (neg, u) = scan_sign t; ds = takeWhile is_digit u;
               v = (if neg then - int (dec_val ds) else int (dec_val ds))
           in if ds = [] \<or> \<not> int64_ok v then None else Some v))"

lemma ascii_space_code: "ascii_space c \<Longrightarrow> of_char c < (48 :: nat)"
  by (auto simp: ascii_space_def)

lemma space2_code: "space2 c d \<Longrightarrow> (57 :: nat) < of_char c"
  by (auto simp: space2_def)

lemma space3_code: "space3 c d e \<Longrightarrow> (57 :: nat) < of_char c"
  by (auto simp: space3_def)

lemma is_digit_neq:
  "is_digit c \<Longrightarrow> of_char x < (48 :: nat) \<or> (57 :: nat) < of_char x \<Longrightarrow> c \<noteq> x"
  by (auto simp: is_digit_iff)

lemma digit_not_space: "is_digit c \<Longrightarrow> space_len (c # cs) = 0"
  using ascii_space_code [of c] space2_code [of c] space3_code [of c]
  by (fastforce simp: is_digit_iff split: list.splits)

lemma digit_head:
  assumes "is_digit c"
  shows "c \<noteq> CHR ''-''" "c \<noteq> CHR ''+''" "c \<noteq> CHR ''.''" "c \<noteq> CHR '':''"
    "c \<noteq> CHR ''%''" "c \<noteq> CHR ''/''"
  by (rule is_digit_neq [OF assms], simp)+

lemma sscanf_d_dec_of_nat:
  assumes "n < 2 ^ 63" and "rest = [] \<or> \<not> is_digit (hd rest)"
  shows "sscanf_d (dec_of_nat n @ rest) = Some (int n)"
proof -
  obtain c cs where s: "dec_of_nat n = c # cs" by (cases "dec_of_nat n") auto
  have all: "list_all is_digit (c # cs)" using dec_of_nat_digits [of n] s by simp
  then have c: "is_digit c" by simp
  have "takeWhile is_digit ((c # cs) @ rest) = c # cs"
    using all assms(2) by (cases rest) (auto simp: takeWhile_append list_all_iff)
  moreover have "skip_space ((c # cs) @ rest) = Some ((c # cs) @ rest)"
    using digit_not_space [OF c, of "cs @ rest"] by (subst skip_space.simps) (simp del: space_len.simps)
  moreover have "scan_sign ((c # cs) @ rest) = (False, (c # cs) @ rest)"
    using digit_head(1,2) [OF c] by (simp add: scan_sign_def)
  moreover have "dec_val (c # cs) = n" using s dec_val_dec_of_nat [of n] by simp
  moreover have "int64_ok (int n)" using assms(1) by (simp add: int64_ok_def)
  ultimately show ?thesis by (simp add: sscanf_d_def s)
qed

subsection \<open>Plain characters\<close>

text \<open>Printable ASCII other than the space: nothing to trim at an end that has one.\<close>

definition plain :: "char \<Rightarrow> bool" where
  "plain c \<longleftrightarrow> 33 \<le> (of_char c :: nat) \<and> of_char c \<le> (126 :: nat)"

lemma plain_not_space:
  assumes "plain c"
  shows "space_len (c # cs) = 0" "space_len_rev (c # cs) = 0"
proof -
  have "\<not> ascii_space c" using assms by (auto simp: plain_def ascii_space_def)
  moreover have "\<not> space2 c d" "\<not> space2 d c" "\<not> space3 c d e" "\<not> space3 e d c" for d e
    using assms by (auto simp: plain_def space2_def space3_def less_eq_char_def)
  ultimately show "space_len (c # cs) = 0" "space_len_rev (c # cs) = 0"
    by (auto split: list.splits)
qed

lemma trim_space_plain [go_string_simps]:
  assumes "s \<noteq> [] \<Longrightarrow> plain (hd s)" "s \<noteq> [] \<Longrightarrow> plain (last s)"
  shows "trim_space s = s"
proof (cases "s = []")
  case False
  then obtain c cs where s: "s = c # cs" by (cases s) auto
  obtain d ds where r: "rev s = d # ds" using False by (cases "rev s") auto
  have "d = last s" using r by (metis last_rev hd_rev list.sel(1))
  with assms False s r have "space_len s = 0" "space_len_rev (rev s) = 0"
    using plain_not_space by auto
  then show ?thesis by (simp add: trim_space_def trim_right_def trim_left_id trim_left_rev_id)
qed simp

lemma digit_plain: "is_digit c \<Longrightarrow> plain c"
  by (auto simp: is_digit_iff plain_def)

lemma trim_space_all_plain: "list_all plain s \<Longrightarrow> trim_space s = s"
  by (rule trim_space_plain) (auto simp: list_all_iff)

end
