(* ===== verification/ConfigStore.thy ===== *)
theory ConfigStore
  imports GoStrings "HOL-Library.Product_Lexorder"
begin

text \<open>
  The gateway's worker store, \<^verbatim>\<open>pkg/server/worker_config_store.go\<close>: the worker
  records, the index from token hashes to workers, and the operations that issue, check, rotate
  and delete worker tokens. The store is a directory of JSON files: a file is missing, present with
  its content, or there but unreadable; every write goes to a temporary file that is renamed
  over the old one, so it takes place entirely or not at all. Which writes fail is an argument,
  a stream of faults kept in the state. The hash (SHA-256 in hexadecimal), the random tokens and
  the clock are arguments too. The mutex serialises the operations, so each is one step.

  A worker's file is found by the worker's identifier: identifiers come from uuid.NewString and from
  one path segment of a request, so they hold no separator and the file's name determines
  them. A file whose JSON is well formed but has a field of the wrong type counts as unreadable.
\<close>

subsection \<open>State\<close>

record WorkerRecord =
  wr_WorkerID :: string
  wr_TokenHash :: string
  wr_Labels :: "string list"
  wr_CreatedAt :: int
  wr_UpdatedAt :: int

record PairingRequest =
  pr_ID :: string
  pr_UserCode :: string
  pr_SecretHash :: string
  pr_WorkerName :: string
  pr_HostInfo :: string
  pr_Labels :: "string list"
  pr_Status :: string
  pr_CreatedAt :: int
  pr_ExpiresAt :: int
  pr_WorkerToken :: string

datatype 'a json_file = Missing | Corrupt | Present 'a

text \<open>The index file holds a Go map, \<^verbatim>\<open>nil\<close> where the JSON has none.\<close>

type_synonym worker_index = "(string \<times> string) list option"

record config_store =
  cs_workers :: "(string \<times> WorkerRecord json_file) list"
  cs_index :: "worker_index json_file"
  cs_pairing :: "PairingRequest list json_file"
  cs_enroll :: bool
  cs_faults :: "bool list"

datatype store_err =
    errUnauthorized
  | errNotFound
  | errInvalid
  | errExpired
  | errNotPending
  | errIO

type_synonym 'a store_result = "(store_err + 'a) \<times> config_store"

subsection \<open>Files\<close>

definition worker_file :: "config_store \<Rightarrow> string \<Rightarrow> WorkerRecord json_file" where
  "worker_file s wid = (case map_of (cs_workers s) wid of None \<Rightarrow> Missing | Some f \<Rightarrow> f)"

text \<open>Does the next change of the directory fail?\<close>

definition next_fault :: "config_store \<Rightarrow> bool \<times> config_store" where
  "next_fault s = (case cs_faults s of [] \<Rightarrow> (False, s) | f # fs \<Rightarrow> (f, s\<lparr>cs_faults := fs\<rparr>))"

definition write_worker :: "string \<Rightarrow> WorkerRecord \<Rightarrow> config_store \<Rightarrow> bool \<times> config_store" where
  "write_worker wid r s =
     (let (fault, s) = next_fault s in
      if fault then (False, s) else (True, s\<lparr>cs_workers := AList.update wid (Present r) (cs_workers s)\<rparr>))"

definition write_index :: "worker_index \<Rightarrow> config_store \<Rightarrow> bool \<times> config_store" where
  "write_index ix s =
     (let (fault, s) = next_fault s in
      if fault then (False, s) else (True, s\<lparr>cs_index := Present ix\<rparr>))"

definition write_pairing :: "PairingRequest list \<Rightarrow> config_store \<Rightarrow> bool \<times> config_store" where
  "write_pairing ps s =
     (let (fault, s) = next_fault s in
      if fault then (False, s) else (True, s\<lparr>cs_pairing := Present ps\<rparr>))"

definition remove_worker :: "string \<Rightarrow> config_store \<Rightarrow> bool \<times> config_store" where
  "remove_worker wid s =
     (let (fault, s) = next_fault s in
      if fault then (False, s) else (True, s\<lparr>cs_workers := AList.delete wid (cs_workers s)\<rparr>))"

text \<open>\<^verbatim>\<open>NewWorkerConfigStore\<close>: create what is missing, keep what is there.\<close>

definition ensureLayout :: "bool \<Rightarrow> config_store \<Rightarrow> unit store_result" where
  "ensureLayout mkdirOk s =
     (if \<not> mkdirOk then (Inl errIO, s)
      else
        (let (ok, s) = (if cs_pairing s = Missing then write_pairing [] s else (True, s)) in
         if \<not> ok then (Inl errIO, s)
         else
           (let (ok, s) = (if cs_index s = Missing then write_index (Some []) s else (True, s)) in
            if \<not> ok then (Inl errIO, s)
            else
              (let (fault, s) = next_fault s in
               (Inr (), if fault then s else s\<lparr>cs_enroll := False\<rparr>)))))"

subsection \<open>Operations\<close>

text \<open>A Go map read: a missing key gives the empty string.\<close>

definition index_lookup :: "worker_index \<Rightarrow> string \<Rightarrow> string" where
  "index_lookup ix k = (case ix of None \<Rightarrow> '''' | Some m \<Rightarrow> (case map_of m k of None \<Rightarrow> '''' | Some v \<Rightarrow> v))"

definition or_empty :: "worker_index \<Rightarrow> (string \<times> string) list" where
  "or_empty ix = (case ix of None \<Rightarrow> [] | Some m \<Rightarrow> m)"

text \<open>\<^verbatim>\<open>_ = readJSON(path, &index)\<close>: an error leaves the zero value.\<close>

definition read_index_or_nil :: "config_store \<Rightarrow> worker_index" where
  "read_index_or_nil s = (case cs_index s of Present ix \<Rightarrow> ix | _ \<Rightarrow> None)"

definition ListWorkers :: "bool \<Rightarrow> config_store \<Rightarrow> store_err + WorkerRecord list" where
  "ListWorkers dirOk s =
     (if \<not> dirOk then Inl errIO
      else Inr (sort_key (\<lambda>r. (- wr_UpdatedAt r, wr_WorkerID r))
             (List.map_filter (\<lambda>(id, f). case f of Present r \<Rightarrow> Some r | _ \<Rightarrow> None) (cs_workers s))))"

definition RotateWorkerToken ::
    "(string \<Rightarrow> string) \<Rightarrow> string option \<Rightarrow> int \<Rightarrow> string \<Rightarrow> config_store \<Rightarrow> (string \<times> WorkerRecord) store_result" where
  "RotateWorkerToken h rand now workerID s =
     (if workerID = '''' then (Inl errInvalid, s)
      else (case worker_file s workerID of
        Missing \<Rightarrow> (Inl errNotFound, s)
      | Corrupt \<Rightarrow> (Inl errIO, s)
      | Present rec \<Rightarrow>
          (case rand of None \<Rightarrow> (Inl errIO, s)
           | Some newToken \<Rightarrow>
               (let newHash = h newToken in
                case cs_index s of
                  Missing \<Rightarrow> (Inl errIO, s)
                | Corrupt \<Rightarrow> (Inl errIO, s)
                | Present ix \<Rightarrow>
                    (let m = or_empty ix;
                         m = (if wr_TokenHash rec \<noteq> '''' then AList.delete (wr_TokenHash rec) m else m);
                         m = AList.update newHash workerID m;
                         (ok, s) = write_index (Some m) s
                     in if \<not> ok then (Inl errIO, s)
                        else
                          (let rec = rec\<lparr>wr_TokenHash := newHash, wr_UpdatedAt := now\<rparr>;
                               (ok, s) = write_worker workerID rec s
                           in if \<not> ok then (Inl errIO, s) else (Inr (newToken, rec), s)))))))"

definition ValidateWorkerToken :: "(string \<Rightarrow> string) \<Rightarrow> string \<Rightarrow> config_store \<Rightarrow> store_err + string" where
  "ValidateWorkerToken h workerToken s =
     (if workerToken = '''' then Inl errUnauthorized
      else
        (let tokenHash = h workerToken in
         case cs_index s of
           Missing \<Rightarrow> Inl errIO
         | Corrupt \<Rightarrow> Inl errIO
         | Present ix \<Rightarrow>
             (let workerID = index_lookup ix tokenHash in
              if workerID = '''' then Inl errUnauthorized
              else (case worker_file s workerID of
                Missing \<Rightarrow> Inl errUnauthorized
              | Corrupt \<Rightarrow> Inl errIO
              | Present rec \<Rightarrow>
                  if wr_TokenHash rec \<noteq> tokenHash then Inl errUnauthorized
                  else Inr (wr_WorkerID rec)))))"

definition DeleteWorker :: "string \<Rightarrow> config_store \<Rightarrow> unit store_result" where
  "DeleteWorker workerID s =
     (if workerID = '''' then (Inl errInvalid, s)
      else (case worker_file s workerID of
        Missing \<Rightarrow> (Inl errNotFound, s)
      | Corrupt \<Rightarrow> (Inl errIO, s)
      | Present rec \<Rightarrow>
          (let s = (case cs_index s of
                 Present (Some m) \<Rightarrow>
                   (if wr_TokenHash rec \<noteq> ''''
                    then snd (write_index (Some (AList.delete (wr_TokenHash rec) m)) s) else s)
               | _ \<Rightarrow> s);
               (ok, s) = remove_worker workerID s
           in if ok then (Inr (), s) else (Inl errIO, s))))"

subsection \<open>Facts on files\<close>

text \<open>Every change either fails, and only the fault stream moves, or happens as a whole.\<close>

lemma write_index_cases:
  assumes "write_index ix s = (ok, s')"
  obtains "ok" "s' = s\<lparr>cs_index := Present ix, cs_faults := tl (cs_faults s)\<rparr>"
    | "\<not> ok" "s' = s\<lparr>cs_faults := tl (cs_faults s)\<rparr>"
  using assms by (cases "cs_faults s") (auto simp: write_index_def next_fault_def split: if_splits)

lemma write_worker_cases:
  assumes "write_worker wid r s = (ok, s')"
  obtains "ok" "s' = s\<lparr>cs_workers := AList.update wid (Present r) (cs_workers s), cs_faults := tl (cs_faults s)\<rparr>"
    | "\<not> ok" "s' = s\<lparr>cs_faults := tl (cs_faults s)\<rparr>"
  using assms by (cases "cs_faults s") (auto simp: write_worker_def next_fault_def split: if_splits)

lemma write_pairing_cases:
  assumes "write_pairing ps s = (ok, s')"
  obtains "ok" "s' = s\<lparr>cs_pairing := Present ps, cs_faults := tl (cs_faults s)\<rparr>"
    | "\<not> ok" "s' = s\<lparr>cs_faults := tl (cs_faults s)\<rparr>"
  using assms by (cases "cs_faults s") (auto simp: write_pairing_def next_fault_def split: if_splits)

lemma remove_worker_cases:
  assumes "remove_worker wid s = (ok, s')"
  obtains "ok" "s' = s\<lparr>cs_workers := AList.delete wid (cs_workers s), cs_faults := tl (cs_faults s)\<rparr>"
    | "\<not> ok" "s' = s\<lparr>cs_faults := tl (cs_faults s)\<rparr>"
  using assms by (cases "cs_faults s") (auto simp: remove_worker_def next_fault_def split: if_splits)

lemma worker_file_simps [simp, store_simps]:
  "worker_file (s\<lparr>cs_workers := AList.update wid f (cs_workers t)\<rparr>) wid' =
     (if wid' = wid then f else worker_file t wid')"
  "worker_file (s\<lparr>cs_workers := AList.delete wid (cs_workers t)\<rparr>) wid' =
     (if wid' = wid then Missing else worker_file t wid')"
  "worker_file (s\<lparr>cs_index := ix\<rparr>) wid' = worker_file s wid'"
  "worker_file (s\<lparr>cs_pairing := ps\<rparr>) wid' = worker_file s wid'"
  "worker_file (s\<lparr>cs_faults := fs\<rparr>) wid' = worker_file s wid'"
  by (auto simp: worker_file_def)

lemma index_lookup_simps [simp, store_simps]:
  "index_lookup None k = ''''"
  "index_lookup (Some (AList.update k v m)) k' = (if k' = k then v else index_lookup (Some m) k')"
  "index_lookup (Some (AList.delete k m)) k' = (if k' = k then '''' else index_lookup (Some m) k')"
  "index_lookup (Some (or_empty ix)) k' = index_lookup ix k'"
  by (auto simp: index_lookup_def or_empty_def split: option.splits)

subsection \<open>Which tokens are live\<close>

text \<open>
  The abstraction: the worker a token authenticates, if any. A token is live where the index
  and the worker's own record agree on its hash.
\<close>

definition live :: "(string \<Rightarrow> string) \<Rightarrow> config_store \<Rightarrow> string \<Rightarrow> string option" where
  "live h s t = (case ValidateWorkerToken h t s of Inl _ \<Rightarrow> None | Inr w \<Rightarrow> Some w)"

definition points_to :: "config_store \<Rightarrow> string \<Rightarrow> string \<Rightarrow> bool" where
  "points_to s hash wid \<longleftrightarrow> wid \<noteq> '''' \<and> (\<exists>ix. cs_index s = Present ix \<and> index_lookup ix hash = wid)"

lemma points_to_frame [simp]:
  "points_to (s\<lparr>cs_workers := x\<rparr>) hash wid = points_to s hash wid"
  "points_to (s\<lparr>cs_pairing := y\<rparr>) hash wid = points_to s hash wid"
  "points_to (s\<lparr>cs_faults := z\<rparr>) hash wid = points_to s hash wid"
  "points_to (s\<lparr>cs_index := Present ix\<rparr>) hash wid \<longleftrightarrow> wid \<noteq> '''' \<and> index_lookup ix hash = wid"
  by (auto simp: points_to_def)

lemma validate_iff:
  "ValidateWorkerToken h t s = Inr w \<longleftrightarrow>
     t \<noteq> '''' \<and> (\<exists>k rec. points_to s (h t) k \<and> worker_file s k = Present rec
       \<and> wr_TokenHash rec = h t \<and> wr_WorkerID rec = w)"
  by (auto simp: ValidateWorkerToken_def points_to_def Let_def split: json_file.splits if_splits)

lemma live_iff:
  "live h s t = Some w \<longleftrightarrow>
     t \<noteq> '''' \<and> (\<exists>k rec. points_to s (h t) k \<and> worker_file s k = Present rec
       \<and> wr_TokenHash rec = h t \<and> wr_WorkerID rec = w)"
  unfolding validate_iff [symmetric] by (simp add: live_def split: sum.splits)

lemma points_to_unique: "points_to s hash k \<Longrightarrow> points_to s hash k' \<Longrightarrow> k = k'"
  by (auto simp: points_to_def)

text \<open>Changes outside the index and the worker directory change no token.\<close>

lemma live_frame [simp, store_simps]:
  "live h (s\<lparr>cs_faults := fs\<rparr>) t = live h s t"
  "live h (s\<lparr>cs_pairing := ps\<rparr>) t = live h s t"
  by (simp_all add: live_def ValidateWorkerToken_def Let_def split: json_file.split)

text \<open>Well-formedness: a record names its own file, and no two records share a token hash.\<close>

definition store_wf :: "config_store \<Rightarrow> bool" where
  "store_wf s \<longleftrightarrow>
     distinct (map fst (cs_workers s))
   \<and> (\<forall>k r. worker_file s k = Present r \<longrightarrow> wr_WorkerID r = k \<and> k \<noteq> '''' \<and> wr_TokenHash r \<noteq> '''')
   \<and> (\<forall>k k' r r'. worker_file s k = Present r \<and> worker_file s k' = Present r'
        \<and> wr_TokenHash r = wr_TokenHash r' \<longrightarrow> k = k')"

definition hash_used :: "config_store \<Rightarrow> string \<Rightarrow> bool" where
  "hash_used s hash \<longleftrightarrow> (\<exists>k r. worker_file s k = Present r \<and> wr_TokenHash r = hash)"

lemma live_wf:
  "store_wf s \<Longrightarrow> live h s t = Some w \<longleftrightarrow>
     t \<noteq> '''' \<and> points_to s (h t) w \<and> (\<exists>rec. worker_file s w = Present rec \<and> wr_TokenHash rec = h t)"
  by (auto simp: live_iff store_wf_def)

lemma live_used: "live h s t = Some w \<Longrightarrow> hash_used s (h t)"
  by (auto simp: live_iff hash_used_def)

lemma store_wf_frame [simp, store_simps]:
  "store_wf (s\<lparr>cs_faults := fs\<rparr>) = store_wf s"
  "store_wf (s\<lparr>cs_pairing := ps\<rparr>) = store_wf s"
  "store_wf (s\<lparr>cs_index := ix\<rparr>) = store_wf s"
  by (simp_all add: store_wf_def)

lemma store_wf_cong: "cs_workers s = cs_workers s' \<Longrightarrow> store_wf s = store_wf s'"
  by (simp add: store_wf_def worker_file_def)

lemma store_wf_update:
  assumes "store_wf s" "wr_WorkerID r = wid" "wid \<noteq> ''''" "wr_TokenHash r \<noteq> ''''"
    and "\<And>k r'. worker_file s k = Present r' \<Longrightarrow> k \<noteq> wid \<Longrightarrow> wr_TokenHash r' \<noteq> wr_TokenHash r"
  shows "store_wf (s\<lparr>cs_workers := AList.update wid (Present r) (cs_workers s)\<rparr>)"
  using assms unfolding store_wf_def
  by (auto simp: distinct_update split: if_splits) metis+

lemma store_wf_delete:
  assumes "store_wf s"
  shows "store_wf (s\<lparr>cs_workers := AList.delete wid (cs_workers s)\<rparr>)"
  using assms unfolding store_wf_def
  by (auto simp: distinct_delete split: if_splits)

text \<open>The index after a token of \<open>rec\<close> is replaced.\<close>

definition rotated_index :: "WorkerRecord \<Rightarrow> string \<Rightarrow> string \<Rightarrow> worker_index \<Rightarrow> worker_index" where
  "rotated_index rec newHash wid ix =
     Some (AList.update newHash wid
       (if wr_TokenHash rec \<noteq> '''' then AList.delete (wr_TokenHash rec) (or_empty ix) else or_empty ix))"

lemma rotated_index_lookup [simp]:
  "index_lookup (rotated_index rec newHash wid ix) k =
     (if k = newHash then wid
      else if wr_TokenHash rec \<noteq> '''' \<and> k = wr_TokenHash rec then '''' else index_lookup ix k)"
  by (simp add: rotated_index_def)

text \<open>The three ways a rotation ends.\<close>

lemma RotateWorkerToken_cases:
  assumes "RotateWorkerToken h rand now wid s = (res, s')"
  obtains (refused) e fs where "res = Inl e" "s' = s\<lparr>cs_faults := fs\<rparr>"
    | (half) rec newToken ix fs where "res = Inl errIO" "rand = Some newToken"
        "wid \<noteq> ''''" "worker_file s wid = Present rec" "cs_index s = Present ix"
        "s' = s\<lparr>cs_index := Present (rotated_index rec (h newToken) wid ix), cs_faults := fs\<rparr>"
    | (rotated) rec newToken ix fs where "rand = Some newToken"
        "res = Inr (newToken, rec\<lparr>wr_TokenHash := h newToken, wr_UpdatedAt := now\<rparr>)"
        "wid \<noteq> ''''" "worker_file s wid = Present rec" "cs_index s = Present ix"
        "s' = s\<lparr>cs_index := Present (rotated_index rec (h newToken) wid ix),
               cs_workers := AList.update wid (Present (rec\<lparr>wr_TokenHash := h newToken, wr_UpdatedAt := now\<rparr>)) (cs_workers s),
               cs_faults := fs\<rparr>"
proof (cases "wid = '''' \<or> (\<forall>rec. worker_file s wid \<noteq> Present rec) \<or> rand = None \<or> (\<forall>ix. cs_index s \<noteq> Present ix)")
  case True
  then have "(\<exists>e. res = Inl e) \<and> s' = s\<lparr>cs_faults := cs_faults s\<rparr>"
    using assms by (auto simp: RotateWorkerToken_def Let_def split: json_file.splits option.splits if_splits)
  then show thesis using refused by blast
next
  case False
  then obtain rec newToken ix where c: "wid \<noteq> ''''" "worker_file s wid = Present rec" "rand = Some newToken"
    "cs_index s = Present ix" by auto
  obtain ok1 s1 where w1: "write_index (rotated_index rec (h newToken) wid ix) s = (ok1, s1)" by fastforce
  define rec' where "rec' = rec\<lparr>wr_TokenHash := h newToken, wr_UpdatedAt := now\<rparr>"
  obtain ok2 s2 where w2: "write_worker wid rec' s1 = (ok2, s2)" by fastforce
  have R: "(res, s') = (if \<not> ok1 then (Inl errIO, s1) else if \<not> ok2 then (Inl errIO, s2) else (Inr (newToken, rec'), s2))"
    using assms c w1 w2 by (auto simp: RotateWorkerToken_def Let_def rotated_index_def rec'_def split: if_splits)
  from w1 show thesis
  proof (cases rule: write_index_cases)
    case 2
    then show thesis using R refused by simp
  next
    case 1
    from w2 show thesis
    proof (cases rule: write_worker_cases)
      case 2
      have "s' = s\<lparr>cs_index := Present (rotated_index rec (h newToken) wid ix), cs_faults := cs_faults s'\<rparr>"
        using 1 2 R by simp
      then show thesis using half [OF _ c(3,1,2,4)] 1 2 R by (metis Pair_inject)
    next
      case 1: 1
      have "s' = s\<lparr>cs_index := Present (rotated_index rec (h newToken) wid ix),
               cs_workers := AList.update wid (Present rec') (cs_workers s), cs_faults := cs_faults s'\<rparr>"
        using 1 \<open>ok1\<close> \<open>s1 = _\<close> R by simp
      then show thesis using rotated [OF c(3) _ c(1,2,4)] 1 \<open>ok1\<close> R unfolding rec'_def by auto
    qed
  qed
qed

text \<open>Where a record's hash is not the new one, the rotated index loses the worker's own hash and
  keeps the others.\<close>

lemma rotated_points_to:
  assumes "store_wf s" "worker_file s wid = Present rec" "cs_index s = Present ix"
    and "worker_file s w = Present r" "wr_TokenHash r = hash" "hash \<noteq> newHash"
    and "cs_index s' = Present (rotated_index rec newHash wid ix)"
  shows "points_to s' hash w \<longleftrightarrow> w \<noteq> wid \<and> points_to s hash w"
proof (cases "w = wid")
  case True
  then have "hash = wr_TokenHash rec" "hash \<noteq> ''''" using assms by (auto simp: store_wf_def)
  then show ?thesis using True assms(6,7) by (auto simp: points_to_def)
next
  case False
  then have "hash \<noteq> wr_TokenHash rec" using assms(1,2,4,5) unfolding store_wf_def by blast
  then show ?thesis using False assms(3,6,7) by (simp add: points_to_def)
qed

text \<open>What both outcomes of a rotation that changed anything leave of the other tokens.\<close>

lemma rotated_live:
  assumes "store_wf s" "worker_file s wid = Present rec" "cs_index s = Present ix" "wid \<noteq> ''''"
    and "s' = s\<lparr>cs_index := Present (rotated_index rec newHash wid ix),
               cs_workers := AList.update wid (Present r') (cs_workers s), cs_faults := fs\<rparr>"
    and "wr_WorkerID r' = wid" "wr_TokenHash r' = newHash"
  shows "live h s' t = (if t \<noteq> '''' \<and> h t = newHash then Some wid
           else if live h s t = Some wid then None else live h s t)"
proof (cases "t \<noteq> '''' \<and> h t = newHash")
  case True
  then show ?thesis using assms by (simp add: live_iff)
next
  case False
  have key: "points_to s' (h t) w \<longleftrightarrow> points_to s (h t) w"
    if "w \<noteq> wid" "worker_file s w = Present r" "wr_TokenHash r = h t" "t \<noteq> ''''" for w r
    using rotated_points_to [OF assms(1-3) that(2,3), of newHash s'] assms(5) that False by auto
  have wfile: "worker_file s' k = (if k = wid then Present r' else worker_file s k)" for k
    using assms(5) by simp
  have ids: "worker_file s k = Present r \<Longrightarrow> wr_WorkerID r = k" for k r
    using assms(1) by (simp add: store_wf_def)
  have "live h s' t = Some w \<longleftrightarrow> w \<noteq> wid \<and> live h s t = Some w" for w
  proof (cases "t = ''''")
    case True
    then show ?thesis by (simp add: live_iff)
  next
    case t: False
    with False have "h t \<noteq> newHash" by simp
    then have F: "worker_file s' k = Present r \<and> wr_TokenHash r = h t
        \<longleftrightarrow> k \<noteq> wid \<and> worker_file s k = Present r \<and> wr_TokenHash r = h t" for k r
      using assms(7) by (auto simp: wfile)
    show ?thesis
    proof
      assume "live h s' t = Some w"
      then obtain k r where "points_to s' (h t) k" "worker_file s' k = Present r"
        "wr_TokenHash r = h t" "wr_WorkerID r = w" by (auto simp: live_iff)
      moreover from this have "k \<noteq> wid" "worker_file s k = Present r" using F by blast+
      ultimately show "w \<noteq> wid \<and> live h s t = Some w"
        using key t ids live_wf [OF assms(1), of h t w] by blast
    next
      assume "w \<noteq> wid \<and> live h s t = Some w"
      then obtain r where r: "w \<noteq> wid" "points_to s (h t) w" "worker_file s w = Present r" "wr_TokenHash r = h t"
        using live_wf [OF assms(1), of h t w] by blast
      with F [of w r] key [OF r(1,3,4) t] t ids show "live h s' t = Some w"
        unfolding live_iff by blast
    qed
  qed
  then have "live h s' t = (if live h s t = Some wid then None else live h s t)" by (rule option_except)
  then show ?thesis using False by presburger
qed

lemma half_rotated_live:
  assumes "store_wf s" "worker_file s wid = Present rec" "cs_index s = Present ix" "wid \<noteq> ''''"
    and "s' = s\<lparr>cs_index := Present (rotated_index rec newHash wid ix), cs_faults := fs\<rparr>"
    and "\<not> hash_used s newHash"
  shows "live h s' t = (if live h s t = Some wid then None else live h s t)"
proof -
  have wf': "store_wf s'" using assms(1,5) by simp
  have key: "points_to s' (h t) w \<longleftrightarrow> w \<noteq> wid \<and> points_to s (h t) w"
    if "worker_file s w = Present r" "wr_TokenHash r = h t" for w r
    using rotated_points_to [OF assms(1-3) that, of newHash s'] assms(5,6) that by (auto simp: hash_used_def)
  have "worker_file s' w = worker_file s w" for w using assms(5) by simp
  then have "live h s' t = Some w \<longleftrightarrow> w \<noteq> wid \<and> live h s t = Some w" for w
    using live_wf [OF assms(1), of h t w] live_wf [OF wf', of h t w] key by auto
  then show ?thesis by (rule option_except)
qed

text \<open>C11: A token rotation that returns replaces the worker's token: the new token authenticates
  the worker, every other token of the worker is dead, and the tokens of other workers are as
  before. One that fails (an unknown worker, an unreadable file, no randomness, a failed write at
  either of the two places) never makes a token live: it leaves all tokens as they were or, when
  only the second write failed, kills the worker's token.\<close>

theorem rotate_replaces_token:
  assumes "store_wf s" "\<not> hash_used s (h tok)" "tok \<noteq> ''''"
    and "RotateWorkerToken h (Some tok) now wid s = (res, s')"
  shows "case res of
      Inr (tok', rec) \<Rightarrow> tok' = tok \<and> wr_WorkerID rec = wid \<and> live h s' tok = Some wid
        \<and> (\<forall>t. t \<noteq> '''' \<and> h t \<noteq> h tok \<longrightarrow>
             live h s' t = (if live h s t = Some wid then None else live h s t))
    | Inl e \<Rightarrow> (\<forall>t. live h s' t = live h s t)
        \<or> (\<forall>t. live h s' t = (if live h s t = Some wid then None else live h s t))"
  using assms(4)
proof (cases rule: RotateWorkerToken_cases)
  case (refused e fs)
  then show ?thesis by simp
next
  case (half rec newToken ix fs)
  then show ?thesis
    using half_rotated_live [OF assms(1) half(4,5,3,6)] assms(2) by simp
next
  case (rotated rec newToken ix fs)
  define r' where "r' = rec\<lparr>wr_TokenHash := h newToken, wr_UpdatedAt := now\<rparr>"
  have "wr_WorkerID r' = wid" "wr_TokenHash r' = h tok"
    using assms(1) rotated by (auto simp: store_wf_def r'_def)
  moreover have "res = Inr (tok, r')" using rotated r'_def by simp
  moreover have "newToken = tok" using rotated(1) by simp
  ultimately have "live h s' t = (if t \<noteq> '''' \<and> h t = h tok then Some wid
      else if live h s t = Some wid then None else live h s t)" for t
    using rotated_live [OF assms(1) rotated(4,5,3) rotated(6) [folded r'_def]] by blast
  with \<open>res = Inr (tok, r')\<close> \<open>wr_WorkerID r' = wid\<close> assms(3) show ?thesis by simp
qed

lemma DeleteWorker_cases:
  assumes "DeleteWorker wid s = (res, s')"
  obtains (refused) e where "res = Inl e" "s' = s"
    | (removed) rec s1 fs where "worker_file s wid = Present rec" "wid \<noteq> ''''"
        "s1 = s \<or> (\<exists>m fs1. cs_index s = Present (Some m) \<and>
            s1 = s\<lparr>cs_index := Present (Some (AList.delete (wr_TokenHash rec) m)), cs_faults := fs1\<rparr>)
          \<or> (\<exists>fs1. s1 = s\<lparr>cs_faults := fs1\<rparr>)"
        "res = Inr () \<and> s' = s1\<lparr>cs_workers := AList.delete wid (cs_workers s1), cs_faults := fs\<rparr>
          \<or> res = Inl errIO \<and> s' = s1\<lparr>cs_faults := fs\<rparr>"
proof (cases "wid = '''' \<or> (\<forall>rec. worker_file s wid \<noteq> Present rec)")
  case True
  then show thesis
    using assms refused by (auto simp: DeleteWorker_def split: json_file.splits if_splits)
next
  case False
  then obtain rec where c: "wid \<noteq> ''''" "worker_file s wid = Present rec" by auto
  define s1 where "s1 = (case cs_index s of
      Present (Some m) \<Rightarrow>
        (if wr_TokenHash rec \<noteq> '''' then snd (write_index (Some (AList.delete (wr_TokenHash rec) m)) s) else s)
    | _ \<Rightarrow> s)"
  have 1: "s1 = s \<or> (\<exists>m fs1. cs_index s = Present (Some m) \<and>
            s1 = s\<lparr>cs_index := Present (Some (AList.delete (wr_TokenHash rec) m)), cs_faults := fs1\<rparr>)
          \<or> (\<exists>fs1. s1 = s\<lparr>cs_faults := fs1\<rparr>)"
  proof (cases "\<exists>m. cs_index s = Present (Some m)")
    case False
    then have "s1 = s" by (auto simp: s1_def split: json_file.splits option.splits)
    then show ?thesis ..
  next
    case True
    then obtain m where m: "cs_index s = Present (Some m)" ..
    obtain ok t where w: "write_index (Some (AList.delete (wr_TokenHash rec) m)) s = (ok, t)" by fastforce
    then have "s1 = s \<or> s1 = t" using m by (auto simp: s1_def)
    with w m show ?thesis by (cases rule: write_index_cases [OF w]) blast+
  qed
  obtain ok s2 where w: "remove_worker wid s1 = (ok, s2)" by fastforce
  have "(res, s') = (if ok then (Inr (), s2) else (Inl errIO, s2))"
    using assms c w by (simp add: DeleteWorker_def s1_def)
  then have "res = Inr () \<and> s' = s1\<lparr>cs_workers := AList.delete wid (cs_workers s1), cs_faults := tl (cs_faults s1)\<rparr>
          \<or> res = Inl errIO \<and> s' = s1\<lparr>cs_faults := tl (cs_faults s1)\<rparr>"
    by (cases rule: remove_worker_cases [OF w]) auto
  then show thesis using c 1 removed by blast
qed

text \<open>What the operation did to the index does not matter to the tokens of other workers.\<close>

lemma deleted_index_points_to:
  assumes "store_wf s" "worker_file s wid = Present rec" "cs_index s = Present (Some m)"
    and "worker_file s w = Present r" "wr_TokenHash r = hash" "w \<noteq> wid"
    and "s1 = s\<lparr>cs_index := Present (Some (AList.delete (wr_TokenHash rec) m)), cs_faults := fs1\<rparr>"
  shows "points_to s1 hash w \<longleftrightarrow> points_to s hash w"
proof -
  have "hash \<noteq> wr_TokenHash rec" using assms(1,2,4,5,6) unfolding store_wf_def by blast
  then show ?thesis using assms(3,7) by (simp add: points_to_def)
qed

definition index_dropped :: "string \<Rightarrow> config_store \<Rightarrow> config_store \<Rightarrow> bool" where
  "index_dropped hash s s1 \<longleftrightarrow>
     s1 = s \<or> (\<exists>m fs1. cs_index s = Present (Some m) \<and>
       s1 = s\<lparr>cs_index := Present (Some (AList.delete hash m)), cs_faults := fs1\<rparr>)
     \<or> (\<exists>fs1. s1 = s\<lparr>cs_faults := fs1\<rparr>)"

lemma index_dropped_same:
  "index_dropped hash s s1 \<Longrightarrow> worker_file s1 k = worker_file s k"
  "index_dropped hash s s1 \<Longrightarrow> store_wf s \<Longrightarrow> store_wf s1"
  by (auto simp: index_dropped_def)

lemma index_dropped_other:
  assumes "store_wf s" "worker_file s wid = Present rec" "index_dropped (wr_TokenHash rec) s s1" "w \<noteq> wid"
  shows "live h s1 t = Some w \<longleftrightarrow> live h s t = Some w"
proof -
  have wf1: "store_wf s1" using index_dropped_same(2) [OF assms(3,1)] .
  have "points_to s1 (h t) w \<longleftrightarrow> points_to s (h t) w"
    if "worker_file s w = Present r" "wr_TokenHash r = h t" for r
    using assms(3) deleted_index_points_to [OF assms(1,2) _ that assms(4)] by (auto simp: index_dropped_def)
  then show ?thesis
    using live_wf [OF assms(1), of h t w] live_wf [OF wf1, of h t w] index_dropped_same(1) [OF assms(3)] by auto
qed

text \<open>The entry is gone and the file is still there, or the entry could not be removed either.\<close>

lemma index_dropped_live:
  assumes "store_wf s" "worker_file s wid = Present rec" "index_dropped (wr_TokenHash rec) s s1"
  shows "(\<forall>t. live h s1 t = live h s t) \<or> (\<forall>t. live h s1 t = (if live h s t = Some wid then None else live h s t))"
  using assms(3) unfolding index_dropped_def
proof (elim disjE exE conjE)
  fix m fs1
  assume s1: "s1 = s\<lparr>cs_index := Present (Some (AList.delete (wr_TokenHash rec) m)), cs_faults := fs1\<rparr>"
  have wf1: "store_wf s1" using index_dropped_same(2) [OF assms(3,1)] .
  have "live h s1 t \<noteq> Some wid" for t
  proof
    assume "live h s1 t = Some wid"
    then have "points_to s1 (h t) wid" "h t = wr_TokenHash rec"
      using live_wf [OF wf1, of h t wid] index_dropped_same(1) [OF assms(3), of wid] assms(2) by auto
    moreover have "index_lookup (Some (AList.delete (wr_TokenHash rec) m)) (wr_TokenHash rec) = ''''" by simp
    ultimately show False unfolding s1 by (auto simp add: points_to_def)
  qed
  then have "live h s1 t = Some w \<longleftrightarrow> w \<noteq> wid \<and> live h s t = Some w" for t w
    using index_dropped_other [OF assms, of w h t] by (cases "w = wid") simp_all
  then have "live h s1 t = (if live h s t = Some wid then None else live h s t)" for t
    by (rule option_except)
  then show ?thesis by blast
qed (rule disjI1, simp)+

text \<open>The file is gone, whatever became of the entry.\<close>

lemma removed_live:
  assumes "store_wf s" "worker_file s wid = Present rec" "index_dropped (wr_TokenHash rec) s s1"
    and s': "s' = s1\<lparr>cs_workers := AList.delete wid (cs_workers s1), cs_faults := fs\<rparr>"
  shows "live h s' t = (if live h s t = Some wid then None else live h s t)"
proof (rule option_except)
  fix w
  have wf1: "store_wf s1" using index_dropped_same(2) [OF assms(3,1)] .
  then have "store_wf s'" unfolding s' using store_wf_delete by simp
  then have "live h s' t = Some w \<longleftrightarrow> w \<noteq> wid \<and> live h s1 t = Some w"
    using live_wf [of s' h t w] live_wf [OF wf1, of h t w] s' by (auto simp: points_to_def)
  then show "live h s' t = Some w \<longleftrightarrow> w \<noteq> wid \<and> live h s t = Some w"
    using index_dropped_other [OF assms(1-3), of w h t] by blast
qed

text \<open>C12: Deleting a worker revokes its token and no other: where the deletion reports success, no
  token authenticates the worker any more, even if the index could not be rewritten; where it
  reports an error, no token has come to life, and the tokens of the other workers are as before
  in both cases.\<close>

theorem delete_revokes_token:
  assumes "store_wf s" "DeleteWorker wid s = (res, s')"
  shows "(res = Inr () \<longrightarrow> (\<forall>t. live h s' t = (if live h s t = Some wid then None else live h s t)))
    \<and> (res \<noteq> Inr () \<longrightarrow> (\<forall>t. live h s' t = live h s t)
         \<or> (\<forall>t. live h s' t = (if live h s t = Some wid then None else live h s t)))"
  using assms(2)
proof (cases rule: DeleteWorker_cases)
  case (refused e)
  then show ?thesis by simp
next
  case (removed rec s1 fs)
  have d: "index_dropped (wr_TokenHash rec) s s1" using removed(3) by (simp add: index_dropped_def)
  from removed(4) show ?thesis
  proof (elim disjE conjE)
    assume "res = Inr ()" "s' = s1\<lparr>cs_workers := AList.delete wid (cs_workers s1), cs_faults := fs\<rparr>"
    then show ?thesis using removed_live [OF assms(1) removed(1) d] by simp
  next
    assume "res = Inl errIO" "s' = s1\<lparr>cs_faults := fs\<rparr>"
    then show ?thesis using index_dropped_live [OF assms(1) removed(1) d, of h] by simp
  qed
qed

lemma RotateWorkerToken_wf:
  assumes "store_wf s" "RotateWorkerToken h rand now wid s = (res, s')"
    and "\<And>tok. rand = Some tok \<Longrightarrow> \<not> hash_used s (h tok) \<and> h tok \<noteq> ''''"
  shows "store_wf s'"
  using assms(2)
proof (cases rule: RotateWorkerToken_cases)
  case (rotated rec newToken ix fs)
  define r' where "r' = rec\<lparr>wr_TokenHash := h newToken, wr_UpdatedAt := now\<rparr>"
  have "store_wf (s\<lparr>cs_workers := AList.update wid (Present r') (cs_workers s)\<rparr>)"
    using assms(1) assms(3) [OF rotated(1)] rotated(3,4)
    by (intro store_wf_update) (auto simp: r'_def store_wf_def hash_used_def)
  then show ?thesis unfolding rotated(6) r'_def
    by (rule store_wf_cong [THEN iffD1, rotated]) simp
qed (use assms(1) in auto)

lemma DeleteWorker_wf:
  assumes "store_wf s" "DeleteWorker wid s = (res, s')"
  shows "store_wf s'"
  using assms(2)
proof (cases rule: DeleteWorker_cases)
  case (removed rec s1 fs)
  have "store_wf s1" using removed(3) assms(1) by auto
  then show ?thesis using removed(4) store_wf_delete [of s1 wid] by auto
qed (use assms(1) in simp)

text \<open>
  The worker list is every readable record, once, newest first and by identifier among equals.
\<close>

lemma set_map_filter: "set (List.map_filter f xs) = {y. \<exists>x \<in> set xs. f x = Some y}"
  by (induction xs) (auto simp: map_filter_simps split: option.splits)

lemma ListWorkers_sorted:
  assumes "ListWorkers dirOk s = Inr out"
  shows "sorted (map (\<lambda>r. (- wr_UpdatedAt r, wr_WorkerID r)) out)"
    and "set out = {r. \<exists>k. (k, Present r) \<in> set (cs_workers s)}"
proof -
  have pick: "(case x of (wid, f) \<Rightarrow> case f of Present r \<Rightarrow> Some r | _ \<Rightarrow> None) = Some r \<longleftrightarrow> (\<exists>k. x = (k, Present r))"
    for x :: "string \<times> WorkerRecord json_file" and r
    by (cases x; cases "snd x") auto
  show "sorted (map (\<lambda>r. (- wr_UpdatedAt r, wr_WorkerID r)) out)"
    using assms by (auto simp: ListWorkers_def split: if_splits)
  show "set out = {r. \<exists>k. (k, Present r) \<in> set (cs_workers s)}"
    using assms by (fastforce simp: ListWorkers_def set_map_filter pick split: if_splits)
qed

subsection \<open>A store for the witnesses\<close>

definition demo_hash :: "string \<Rightarrow> string" where
  "demo_hash t = ''#'' @ t"

definition demo_store :: "bool list \<Rightarrow> config_store" where
  "demo_store faults = \<lparr>
     cs_workers = [(''w1'', Present \<lparr>wr_WorkerID = ''w1'', wr_TokenHash = ''#t1'', wr_Labels = [''gpu''],
         wr_CreatedAt = 10, wr_UpdatedAt = 10\<rparr>),
       (''w2'', Present \<lparr>wr_WorkerID = ''w2'', wr_TokenHash = ''#t2'', wr_Labels = [],
         wr_CreatedAt = 20, wr_UpdatedAt = 25\<rparr>)],
     cs_index = Present (Some [(''#t1'', ''w1''), (''#t2'', ''w2'')]),
     cs_pairing = Present [], cs_enroll = False, cs_faults = faults\<rparr>"

lemma demo_file: "worker_file (demo_store fs) k =
   (if k = ''w1'' then Present \<lparr>wr_WorkerID = ''w1'', wr_TokenHash = ''#t1'', wr_Labels = [''gpu''],
         wr_CreatedAt = 10, wr_UpdatedAt = 10\<rparr>
    else if k = ''w2'' then Present \<lparr>wr_WorkerID = ''w2'', wr_TokenHash = ''#t2'', wr_Labels = [],
         wr_CreatedAt = 20, wr_UpdatedAt = 25\<rparr> else Missing)"
  by (simp add: worker_file_def demo_store_def)

lemma demo_store_wf: "store_wf (demo_store fs)"
  unfolding store_wf_def demo_file by (auto simp: demo_store_def split: if_splits)

lemma demo_fresh: "\<not> hash_used (demo_store fs) (demo_hash ''t3'')"
  unfolding hash_used_def demo_file demo_hash_def by (auto split: if_splits)

lemma rotate_replaces_token_witness:
  "live demo_hash (demo_store []) ''t1'' = Some ''w1''
   \<and> live demo_hash (snd (RotateWorkerToken demo_hash (Some ''t3'') 30 ''w1'' (demo_store []))) ''t3'' = Some ''w1''
   \<and> live demo_hash (snd (RotateWorkerToken demo_hash (Some ''t3'') 30 ''w1'' (demo_store []))) ''t1'' = None
   \<and> live demo_hash (snd (RotateWorkerToken demo_hash (Some ''t3'') 30 ''w1'' (demo_store []))) ''t2'' = Some ''w2''"
proof -
  obtain res s' where R: "RotateWorkerToken demo_hash (Some ''t3'') 30 ''w1'' (demo_store []) = (res, s')" by fastforce
  have "\<exists>x. fst (RotateWorkerToken demo_hash (Some ''t3'') 30 ''w1'' (demo_store [])) = Inr (''t3'', x)"
    by (simp add: RotateWorkerToken_def demo_file Let_def) (simp add: demo_store_def write_index_def write_worker_def next_fault_def Let_def)
  then obtain rec where "res = Inr (''t3'', rec)" using R by auto
  moreover have "live demo_hash (demo_store []) ''t1'' = Some ''w1''" "live demo_hash (demo_store []) ''t2'' = Some ''w2''"
    by code_simp+
  ultimately show ?thesis
    using rotate_replaces_token [where h = demo_hash, OF demo_store_wf demo_fresh _ R] R
    by (simp add: demo_hash_def)
qed

lemma delete_revokes_token_witness:
  "live demo_hash (demo_store [True]) ''t2'' = Some ''w2''
   \<and> live demo_hash (snd (DeleteWorker ''w2'' (demo_store [True]))) ''t2'' = None"
proof -
  have "live demo_hash (demo_store [True]) ''t2'' = Some ''w2''" by code_simp
  moreover have "DeleteWorker ''w2'' (demo_store [True]) = (Inr (), snd (DeleteWorker ''w2'' (demo_store [True])))"
    by code_simp
  ultimately show ?thesis using delete_revokes_token [OF demo_store_wf] by fastforce
qed

end
