(* ===== verification/Pairing.thy ===== *)
theory Pairing
  imports ConfigStore
begin

text \<open>
  Pairing of a worker with the gateway, \<^verbatim>\<open>pkg/server/pairing_store.go\<close>: a worker
  asks for a pairing and keeps a secret, an administrator approves or rejects the request, and the
  worker polls with its secret until it is given a worker token. The clock, the random tokens and
  bytes and the UUIDs are arguments; the store's file is a list of requests in the order they
  were made.
\<close>

subsection \<open>Operations\<close>

definition PairingStatusPending :: string where "PairingStatusPending = ''pending''"
definition PairingStatusApproved :: string where "PairingStatusApproved = ''approved''"
definition PairingStatusRejected :: string where "PairingStatusRejected = ''rejected''"
definition PairingStatusExpired :: string where "PairingStatusExpired = ''expired''"

lemmas pairing_status_defs =
  PairingStatusPending_def PairingStatusApproved_def PairingStatusRejected_def PairingStatusExpired_def

text \<open>Fifteen minutes in seconds.\<close>

definition PairingTTL :: int where "PairingTTL = 900"

definition user_code_charset :: string where
  "user_code_charset = ''ABCDEFGHJKLMNPQRSTUVWXYZ23456789''"

definition generateUserCode :: "nat list \<Rightarrow> string" where
  "generateUserCode b = map (\<lambda>x. user_code_charset ! (x mod length user_code_charset)) b"

text \<open>Reading the requests where an error is ignored, and where it is not.\<close>

definition read_pairing_or_nil :: "config_store \<Rightarrow> PairingRequest list" where
  "read_pairing_or_nil s = (case cs_pairing s of Present ps \<Rightarrow> ps | _ \<Rightarrow> [])"

definition CreatePairingRequest ::
    "(string \<Rightarrow> string) \<Rightarrow> string option \<Rightarrow> string \<Rightarrow> nat list \<Rightarrow> int \<Rightarrow> string \<Rightarrow> string \<Rightarrow> string list
     \<Rightarrow> config_store \<Rightarrow> (string \<times> string \<times> string) store_result" where
  "CreatePairingRequest h rand uuid bytes now workerName hostInfo labels s =
     (case rand of None \<Rightarrow> (Inl errIO, s)
      | Some secret \<Rightarrow>
          (let userCode = generateUserCode bytes;
               req = \<lparr>pr_ID = uuid, pr_UserCode = userCode, pr_SecretHash = h secret,
                      pr_WorkerName = workerName, pr_HostInfo = hostInfo, pr_Labels = labels,
                      pr_Status = PairingStatusPending, pr_CreatedAt = now,
                      pr_ExpiresAt = now + PairingTTL, pr_WorkerToken = ''''\<rparr>;
               valid = filter (\<lambda>r. pr_ExpiresAt r > now) (read_pairing_or_nil s) @ [req];
               (ok, s) = write_pairing valid s
           in if ok then (Inr (uuid, secret, userCode), s) else (Inl errIO, s)))"

definition PollPairingRequest ::
    "(string \<Rightarrow> string) \<Rightarrow> int \<Rightarrow> string \<Rightarrow> string \<Rightarrow> config_store \<Rightarrow> (string \<times> string) store_result" where
  "PollPairingRequest h now rid secret s =
     (case cs_pairing s of
        Missing \<Rightarrow> (Inl errIO, s)
      | Corrupt \<Rightarrow> (Inl errIO, s)
      | Present ps \<Rightarrow>
          (case find_index (\<lambda>r. pr_ID r = rid) ps of
             None \<Rightarrow> (Inl errNotFound, s)
           | Some i \<Rightarrow>
               (let found = ps ! i in
                if pr_SecretHash found \<noteq> h secret then (Inl errUnauthorized, s)
                else if pr_ExpiresAt found < now then (Inr (PairingStatusExpired, ''''), s)
                else if pr_Status found = PairingStatusApproved \<and> pr_WorkerToken found \<noteq> '''' then
                  (let (ok, s) = write_pairing (remove_at i ps) s in
                   if ok then (Inr (pr_Status found, pr_WorkerToken found), s) else (Inl errIO, s))
                else (Inr (pr_Status found, pr_WorkerToken found), s))))"

text \<open>
  The part both approvals share: a worker record and its index entry, then the request takes
  the token. \<open>uuid\<close> becomes the worker's identifier. An unreadable index is replaced by a
  fresh one.
\<close>

definition approve_at ::
    "(string \<Rightarrow> string) \<Rightarrow> string option \<Rightarrow> string \<Rightarrow> int \<Rightarrow> PairingRequest list \<Rightarrow> nat
     \<Rightarrow> config_store \<Rightarrow> unit store_result" where
  "approve_at h rand uuid now ps i s =
     (case rand of None \<Rightarrow> (Inl errIO, s)
      | Some workerToken \<Rightarrow>
          (let tokenHash = h workerToken;
               rec = \<lparr>wr_WorkerID = uuid, wr_TokenHash = tokenHash, wr_Labels = pr_Labels (ps ! i),
                      wr_CreatedAt = now, wr_UpdatedAt = now\<rparr>;
               (ok, s) = write_worker uuid rec s
           in if \<not> ok then (Inl errIO, s)
              else
                (let m = AList.update tokenHash uuid (or_empty (read_index_or_nil s));
                     (ok, s) = write_index (Some m) s
                 in if \<not> ok then (Inl errIO, s)
                    else
                      (let (ok, s) = write_pairing
                             (ps[i := (ps ! i)\<lparr>pr_Status := PairingStatusApproved, pr_WorkerToken := workerToken\<rparr>]) s
                       in if ok then (Inr (), s) else (Inl errIO, s)))))"

definition ApprovePairingRequest ::
    "(string \<Rightarrow> string) \<Rightarrow> string option \<Rightarrow> string \<Rightarrow> int \<Rightarrow> string \<Rightarrow> config_store \<Rightarrow> unit store_result" where
  "ApprovePairingRequest h rand uuid now rid s =
     (case cs_pairing s of
        Missing \<Rightarrow> (Inl errIO, s)
      | Corrupt \<Rightarrow> (Inl errIO, s)
      | Present ps \<Rightarrow>
          (case find_index (\<lambda>r. pr_ID r = rid) ps of
             None \<Rightarrow> (Inl errNotFound, s)
           | Some i \<Rightarrow>
               if pr_ExpiresAt (ps ! i) < now then (Inl errExpired, s)
               else if pr_Status (ps ! i) = PairingStatusApproved then (Inr (), s)
               else approve_at h rand uuid now ps i s))"

definition ApprovePairingRequestByCode ::
    "(string \<Rightarrow> string) \<Rightarrow> string option \<Rightarrow> string \<Rightarrow> int \<Rightarrow> string \<Rightarrow> config_store \<Rightarrow> unit store_result" where
  "ApprovePairingRequestByCode h rand uuid now userCode s =
     (case cs_pairing s of
        Missing \<Rightarrow> (Inl errIO, s)
      | Corrupt \<Rightarrow> (Inl errIO, s)
      | Present ps \<Rightarrow>
          (case find_index (\<lambda>r. pr_UserCode r = userCode) ps of
             None \<Rightarrow> (Inl errNotFound, s)
           | Some i \<Rightarrow>
               if pr_ExpiresAt (ps ! i) < now then (Inl errExpired, s)
               else if pr_Status (ps ! i) \<noteq> PairingStatusPending then (Inl errNotPending, s)
               else approve_at h rand uuid now ps i s))"

definition RejectPairingRequest :: "string \<Rightarrow> config_store \<Rightarrow> unit store_result" where
  "RejectPairingRequest rid s =
     (case cs_pairing s of
        Missing \<Rightarrow> (Inl errIO, s)
      | Corrupt \<Rightarrow> (Inl errIO, s)
      | Present ps \<Rightarrow>
          (case find_index (\<lambda>r. pr_ID r = rid) ps of
             None \<Rightarrow> (Inl errNotFound, s)
           | Some i \<Rightarrow>
               (let (ok, s) = write_pairing (ps[i := (ps ! i)\<lparr>pr_Status := PairingStatusRejected\<rparr>]) s
                in if ok then (Inr (), s) else (Inl errIO, s))))"

text \<open>A failed read gives the empty list; the tokens and secret hashes are blanked.\<close>

definition ListPairingRequests :: "int \<Rightarrow> config_store \<Rightarrow> PairingRequest list" where
  "ListPairingRequests now s =
     sort_key (\<lambda>r. - pr_CreatedAt r)
       (map (\<lambda>r. r\<lparr>pr_WorkerToken := '''', pr_SecretHash := ''''\<rparr>)
          (filter (\<lambda>r. pr_ExpiresAt r > now) (read_pairing_or_nil s)))"

subsection \<open>Requests\<close>

text \<open>Every request has its own identifier.\<close>

definition pairing_wf :: "config_store \<Rightarrow> bool" where
  "pairing_wf s \<longleftrightarrow> distinct (map pr_ID (read_pairing_or_nil s))"

lemma write_pairing_wf:
  assumes "write_pairing ps s = (ok, s')" "pairing_wf s" "distinct (map pr_ID ps)"
  shows "pairing_wf s'"
  using assms by (cases rule: write_pairing_cases [OF assms(1)]) (auto simp: pairing_wf_def read_pairing_or_nil_def)

lemma map_update_same: "f y = f (xs ! i) \<Longrightarrow> map f (xs[i := y]) = map f xs"
  by (metis list_update_id map_update)

lemma pairing_wf_faults [simp]: "pairing_wf (s\<lparr>cs_faults := fs\<rparr>) = pairing_wf s"
  by (simp add: pairing_wf_def read_pairing_or_nil_def)

lemma find_request:
  assumes "distinct (map pr_ID ps)" "i < length ps"
  shows "find_index (\<lambda>r. pr_ID r = pr_ID (ps ! i)) ps = Some i"
proof -
  obtain j where j: "find_index (\<lambda>r. pr_ID r = pr_ID (ps ! i)) ps = Some j"
    using assms(2) nth_mem by (cases "find_index (\<lambda>r. pr_ID r = pr_ID (ps ! i)) ps") auto
  with find_index_SomeD [OF j] assms have "j = i"
    by (auto simp: distinct_conv_nth)
  with j show ?thesis by simp
qed

lemma CreatePairingRequest_wf:
  assumes "pairing_wf s" "uuid \<notin> pr_ID ` set (read_pairing_or_nil s)"
    and "CreatePairingRequest h rand uuid bytes now wn hi labels s = (res, s')"
  shows "pairing_wf s'"
proof (cases rand)
  case None
  then show ?thesis using assms by (simp add: CreatePairingRequest_def)
next
  case (Some secret)
  define req where "req = \<lparr>pr_ID = uuid, pr_UserCode = generateUserCode bytes, pr_SecretHash = h secret,
      pr_WorkerName = wn, pr_HostInfo = hi, pr_Labels = labels, pr_Status = PairingStatusPending,
      pr_CreatedAt = now, pr_ExpiresAt = now + PairingTTL, pr_WorkerToken = ''''\<rparr>"
  define ps where "ps = filter (\<lambda>r. pr_ExpiresAt r > now) (read_pairing_or_nil s) @ [req]"
  obtain ok s1 where w: "write_pairing ps s = (ok, s1)" by fastforce
  then have "s' = s1"
    using assms(3) Some by (auto simp: CreatePairingRequest_def Let_def ps_def req_def split: if_splits)
  moreover have "distinct (map pr_ID ps)"
    using assms(1,2) by (auto simp: ps_def req_def pairing_wf_def distinct_map_filter)
  ultimately show ?thesis using write_pairing_wf [OF w assms(1)] by simp
qed

lemma PollPairingRequest_wf:
  assumes "pairing_wf s" "PollPairingRequest h now rid secret s = (res, s')"
  shows "pairing_wf s'"
proof -
  have "s' = s \<or> (\<exists>ps ok i. cs_pairing s = Present ps \<and> write_pairing (remove_at i ps) s = (ok, s'))"
    using assms(2) by (auto simp: PollPairingRequest_def Let_def split: json_file.splits option.splits if_splits prod.splits)
  then show ?thesis
    using assms(1) write_pairing_wf distinct_map_remove_at by (fastforce simp: pairing_wf_def read_pairing_or_nil_def)
qed

text \<open>The administrator's list never holds a worker token or a secret hash, and only requests
  that have not expired, newest first.\<close>

theorem pairing_list_hides_secrets:
  "sorted (map (\<lambda>r. - pr_CreatedAt r) (ListPairingRequests now s))
   \<and> (\<forall>r \<in> set (ListPairingRequests now s). pr_WorkerToken r = '''' \<and> pr_SecretHash r = ''''
        \<and> now < pr_ExpiresAt r
        \<and> (\<exists>r' \<in> set (read_pairing_or_nil s). pr_ID r = pr_ID r' \<and> pr_UserCode r = pr_UserCode r'
             \<and> pr_Status r = pr_Status r'))"
  by (auto simp: ListPairingRequests_def)

subsection \<open>From the request to a live token\<close>

text \<open>Without write faults each write happens.\<close>

lemma writes_ok [store_simps]:
  assumes "cs_faults s = []"
  shows "write_worker wid r s = (True, s\<lparr>cs_workers := AList.update wid (Present r) (cs_workers s)\<rparr>)"
    and "write_index ix s = (True, s\<lparr>cs_index := Present ix\<rparr>)"
    and "write_pairing ps s = (True, s\<lparr>cs_pairing := Present ps\<rparr>)"
  using assms by (simp_all add: write_worker_def write_index_def write_pairing_def next_fault_def)

definition approved_store ::
    "(string \<Rightarrow> string) \<Rightarrow> string \<Rightarrow> string \<Rightarrow> int \<Rightarrow> PairingRequest list \<Rightarrow> nat \<Rightarrow> config_store \<Rightarrow> config_store" where
  "approved_store h tok uuid now ps i s = s\<lparr>
     cs_workers := AList.update uuid (Present \<lparr>wr_WorkerID = uuid, wr_TokenHash = h tok,
         wr_Labels = pr_Labels (ps ! i), wr_CreatedAt = now, wr_UpdatedAt = now\<rparr>) (cs_workers s),
     cs_index := Present (Some (AList.update (h tok) uuid (or_empty (read_index_or_nil s)))),
     cs_pairing := Present (ps[i := (ps ! i)\<lparr>pr_Status := PairingStatusApproved, pr_WorkerToken := tok\<rparr>])\<rparr>"

lemma approve_at_ok:
  "cs_faults s = [] \<Longrightarrow>
     approve_at h (Some tok) uuid now ps i s = (Inr (), approved_store h tok uuid now ps i s)"
  by (simp add: approve_at_def approved_store_def writes_ok read_index_or_nil_def Let_def)

lemma approved_live:
  assumes "tok \<noteq> ''''" "uuid \<noteq> ''''"
  shows "live h (approved_store h tok uuid now ps i s) tok = Some uuid"
  using assms by (simp add: live_iff approved_store_def points_to_def worker_file_def)

lemma find_update:
  "find_index (\<lambda>r. pr_ID r = rid) ps = Some i \<Longrightarrow> pr_ID x = rid \<Longrightarrow>
     find_index (\<lambda>r. pr_ID r = rid) (ps[i := x]) = Some i"
proof (induction ps arbitrary: i)
  case Nil
  then show ?case by simp
next
  case (Cons p ps)
  then show ?case by (cases i) (auto split: if_splits)
qed

lemma created_request:
  assumes "cs_faults s = []" "\<forall>r \<in> set (read_pairing_or_nil s). pr_ID r \<noteq> uuid"
    and "CreatePairingRequest h (Some secret) uuid bytes now wn hi labels s = (res, s1)"
  obtains ps r where "res = Inr (uuid, secret, generateUserCode bytes)"
    "s1 = s\<lparr>cs_pairing := Present ps\<rparr>" "find_index (\<lambda>r. pr_ID r = uuid) ps = Some (length ps - 1)"
    "ps ! (length ps - 1) = r" "pr_SecretHash r = h secret" "pr_Status r = PairingStatusPending"
    "pr_ExpiresAt r = now + PairingTTL" "0 < length ps"
proof -
  define old where "old = filter (\<lambda>r. pr_ExpiresAt r > now) (read_pairing_or_nil s)"
  define req where "req = \<lparr>pr_ID = uuid, pr_UserCode = generateUserCode bytes, pr_SecretHash = h secret,
      pr_WorkerName = wn, pr_HostInfo = hi, pr_Labels = labels, pr_Status = PairingStatusPending,
      pr_CreatedAt = now, pr_ExpiresAt = now + PairingTTL, pr_WorkerToken = ''''\<rparr>"
  have "res = Inr (uuid, secret, generateUserCode bytes) \<and> s1 = s\<lparr>cs_pairing := Present (old @ [req])\<rparr>"
    using assms(1,3) by (simp add: CreatePairingRequest_def Let_def writes_ok old_def req_def)
  moreover have "find_index (\<lambda>r. pr_ID r = uuid) (old @ [req]) = Some (length old)"
    by (rule find_index_last) (use assms(2) in \<open>auto simp: old_def req_def\<close>)
  ultimately show thesis using that [of "old @ [req]" req] by (auto simp: req_def)
qed

lemma approve_request:
  assumes "cs_faults s = []" "cs_pairing s = Present ps" "find_index (\<lambda>r. pr_ID r = rid) ps = Some i"
    and "now \<le> pr_ExpiresAt (ps ! i)" "pr_Status (ps ! i) \<noteq> PairingStatusApproved"
  shows "ApprovePairingRequest h (Some tok) uuid now rid s = (Inr (), approved_store h tok uuid now ps i s)"
  using assms by (simp add: ApprovePairingRequest_def approve_at_ok)

text \<open>Pairing works: a request made, approved and polled with its secret within fifteen
  minutes yields the identifier and secret, the approval succeeds, the poll returns the status
  approved with the new worker's token, and the gateway then accepts that token as that worker's;
  all this as long as no write fails.\<close>

theorem pairing_end_to_end:
  assumes "cs_faults s = []" "\<forall>r \<in> set (read_pairing_or_nil s). pr_ID r \<noteq> rid"
    and "tok \<noteq> ''''" "wid \<noteq> ''''" "now1 \<le> now + PairingTTL" "now2 \<le> now + PairingTTL"
    and "CreatePairingRequest h (Some secret) rid bytes now wn hi labels s = (res1, s1)"
    and "ApprovePairingRequest h (Some tok) wid now1 rid s1 = (res2, s2)"
    and "PollPairingRequest h now2 rid secret s2 = (res3, s3)"
  shows "res1 = Inr (rid, secret, generateUserCode bytes) \<and> res2 = Inr ()
    \<and> res3 = Inr (PairingStatusApproved, tok) \<and> ValidateWorkerToken h tok s3 = Inr wid"
proof -
  obtain ps r where c: "res1 = Inr (rid, secret, generateUserCode bytes)"
    "s1 = s\<lparr>cs_pairing := Present ps\<rparr>" "find_index (\<lambda>r. pr_ID r = rid) ps = Some (length ps - 1)"
    "ps ! (length ps - 1) = r" "pr_SecretHash r = h secret" "pr_Status r = PairingStatusPending"
    "pr_ExpiresAt r = now + PairingTTL" "0 < length ps"
    by (rule created_request [OF assms(1,2,7)])
  define i where "i = length ps - 1"
  have f: "find_index (\<lambda>r. pr_ID r = rid) ps = Some i" "ps ! i = r" "i < length ps"
    using c by (auto simp: i_def)
  define r' where "r' = (ps ! i)\<lparr>pr_Status := PairingStatusApproved, pr_WorkerToken := tok\<rparr>"
  have s2: "res2 = Inr ()" "s2 = approved_store h tok wid now1 ps i s1"
    using approve_request [OF _ _ f(1), of s1 now1 h tok wid] assms(1,5,8) c f(2)
    by (simp_all add: pairing_status_defs)
  have f': "find_index (\<lambda>r. pr_ID r = rid) (ps[i := r']) = Some i"
    by (rule find_update [OF f(1)]) (simp add: r'_def find_index_holds [OF f(1)])
  have p2: "cs_pairing s2 = Present (ps[i := r'])" "cs_faults s2 = []"
    using s2(2) c(2) assms(1) by (simp_all add: approved_store_def r'_def)
  have r': "(ps[i := r']) ! i = r'" "pr_SecretHash r' = h secret" "pr_ExpiresAt r' = now + PairingTTL"
    "pr_Status r' = PairingStatusApproved" "pr_WorkerToken r' = tok"
    using f c(5,7) by (simp_all add: r'_def)
  have 3: "res3 = Inr (PairingStatusApproved, tok) \<and> s3 = s2\<lparr>cs_pairing := Present (remove_at i (ps[i := r']))\<rparr>"
    using assms(3,6,9) r' p2 f' by (simp add: PollPairingRequest_def writes_ok Let_def)
  then have "live h s3 tok = Some wid"
    using approved_live [OF assms(3,4)] s2(2) by simp
  then have "ValidateWorkerToken h tok s3 = Inr wid"
    by (simp add: live_def split: sum.splits)
  with c(1) s2(1) 3 show ?thesis by simp
qed

text \<open>C39: Rejecting a request after it was approved does not take the token back: the request's
  status becomes rejected but it keeps the token, the token stays valid at the gateway, and every
  poll with the secret hands it out again under the status rejected, without removing the
  request.\<close>

theorem rejected_request_leaks_token:
  assumes "cs_faults s = []" "cs_pairing s = Present ps" "find_index (\<lambda>r. pr_ID r = rid) ps = Some i"
    and "now \<le> pr_ExpiresAt (ps ! i)" "pr_Status (ps ! i) = PairingStatusPending"
    and "pr_SecretHash (ps ! i) = h secret" "now' \<le> pr_ExpiresAt (ps ! i)" "tok \<noteq> ''''" "wid \<noteq> ''''"
    and "ApprovePairingRequest h (Some tok) wid now rid s = (res1, s1)"
    and "RejectPairingRequest rid s1 = (res2, s2)"
  shows "res1 = Inr () \<and> res2 = Inr ()
    \<and> PollPairingRequest h now' rid secret s2 = (Inr (PairingStatusRejected, tok), s2)
    \<and> ValidateWorkerToken h tok s2 = Inr wid"
proof -
  note D = find_index_lt [OF assms(3)]
  have 1: "res1 = Inr ()" "s1 = approved_store h tok wid now ps i s"
    using approve_request [OF assms(1-4), of h tok wid] assms(5,10) by (simp_all add: pairing_status_defs)
  define r1 where "r1 = (ps ! i)\<lparr>pr_Status := PairingStatusApproved, pr_WorkerToken := tok\<rparr>"
  define r2 where "r2 = r1\<lparr>pr_Status := PairingStatusRejected\<rparr>"
  have p1: "cs_pairing s1 = Present (ps[i := r1])" "cs_faults s1 = []"
    using 1(2) assms(1) by (simp_all add: approved_store_def r1_def)
  have f1: "find_index (\<lambda>r. pr_ID r = rid) (ps[i := r1]) = Some i"
    by (rule find_update [OF assms(3)]) (simp add: r1_def find_index_holds [OF assms(3)])
  have "(ps[i := r1])[i := ((ps[i := r1]) ! i)\<lparr>pr_Status := PairingStatusRejected\<rparr>] = ps[i := r2]"
    using D by (simp add: r2_def)
  then have 2: "res2 = Inr ()" "s2 = s1\<lparr>cs_pairing := Present (ps[i := r2])\<rparr>"
    using assms(11) p1 f1 by (simp_all add: RejectPairingRequest_def writes_ok)
  have f2: "find_index (\<lambda>r. pr_ID r = rid) (ps[i := r2]) = Some i"
    by (rule find_update [OF assms(3)]) (simp add: r2_def r1_def find_index_holds [OF assms(3)])
  have "PollPairingRequest h now' rid secret s2 = (Inr (PairingStatusRejected, tok), s2)"
    using 2(2) f2 D assms(6,7) by (simp add: PollPairingRequest_def r1_def r2_def pairing_status_defs Let_def)
  moreover have "live h s2 tok = Some wid"
    using approved_live [OF assms(8,9)] 1(2) 2(2) by simp
  then have "ValidateWorkerToken h tok s2 = Inr wid"
    by (simp add: live_def split: sum.splits)
  ultimately show ?thesis using 1(1) 2(1) by simp
qed

subsection \<open>Sequences of operations\<close>

text \<open>The operations of the store, with what each draws from the outside.\<close>

datatype store_op =
    Create "string option" string "nat list" int string string "string list"
  | Poll int string string
  | Approve "string option" string int string
  | ApproveByCode "string option" string int string
  | Reject string
  | Rotate "string option" int string
  | Delete string

fun store_step :: "(string \<Rightarrow> string) \<Rightarrow> store_op \<Rightarrow> config_store \<Rightarrow> config_store" where
  "store_step h (Create rand uuid bytes now wn hi labels) s =
     snd (CreatePairingRequest h rand uuid bytes now wn hi labels s)"
| "store_step h (Poll now rid secret) s = snd (PollPairingRequest h now rid secret s)"
| "store_step h (Approve rand uuid now rid) s = snd (ApprovePairingRequest h rand uuid now rid s)"
| "store_step h (ApproveByCode rand uuid now code) s = snd (ApprovePairingRequestByCode h rand uuid now code s)"
| "store_step h (Reject rid) s = snd (RejectPairingRequest rid s)"
| "store_step h (Rotate rand now wid) s = snd (RotateWorkerToken h rand now wid s)"
| "store_step h (Delete wid) s = snd (DeleteWorker wid s)"

text \<open>The operation draws a token with the hash of \<open>t\<close>.\<close>

fun issues :: "(string \<Rightarrow> string) \<Rightarrow> store_op \<Rightarrow> string \<Rightarrow> bool" where
  "issues h (Approve rand uuid now rid) t = (\<exists>tok. rand = Some tok \<and> h t = h tok)"
| "issues h (ApproveByCode rand uuid now code) t = (\<exists>tok. rand = Some tok \<and> h t = h tok)"
| "issues h (Rotate rand now wid) t = (\<exists>tok. rand = Some tok \<and> h t = h tok)"
| "issues h (Create rand uuid bytes now wn hi labels) t = False"
| "issues h (Poll now rid secret) t = False"
| "issues h (Reject rid) t = False"
| "issues h (Delete wid) t = False"

text \<open>
  The contract of a credential store: an operation brings no credential to life unless it issues
  it. Its clients get that a credential that is dead stays dead through any sequence of
  operations that does not issue it again.
\<close>

locale credential_store =
  fixes auth :: "'s \<Rightarrow> 't \<Rightarrow> 'w option"
    and step :: "'op \<Rightarrow> 's \<Rightarrow> 's"
    and issued_by :: "'op \<Rightarrow> 't \<Rightarrow> bool"
  assumes no_grant: "\<not> issued_by op t \<Longrightarrow> auth (step op s) t = Some w \<Longrightarrow> auth s t = Some w"
begin

lemma run_no_grant:
  "\<forall>op \<in> set ops. \<not> issued_by op t \<Longrightarrow> auth (fold step ops s) t = Some w \<Longrightarrow> auth s t = Some w"
  by (induction ops arbitrary: s) (auto dest: no_grant)

lemma run_dead:
  "\<forall>op \<in> set ops. \<not> issued_by op t \<Longrightarrow> auth s t = None \<Longrightarrow> auth (fold step ops s) t = None"
  by (cases "auth (fold step ops s) t") (auto dest: run_no_grant)

end

lemma write_pairing_live: "write_pairing ps s = (ok, s') \<Longrightarrow> live h s' t = live h s t"
  by (erule write_pairing_cases) auto

lemma approve_at_no_grant:
  assumes "approve_at h rand uuid now ps i s = (res, s')" "\<And>tok. rand = Some tok \<Longrightarrow> h t \<noteq> h tok"
    and "live h s' t = Some w"
  shows "live h s t = Some w"
proof (cases rand)
  case None
  then show ?thesis using assms by (simp add: approve_at_def)
next
  case (Some tok)
  define rec where "rec = \<lparr>wr_WorkerID = uuid, wr_TokenHash = h tok, wr_Labels = pr_Labels (ps ! i),
                      wr_CreatedAt = now, wr_UpdatedAt = now\<rparr>"
  obtain ok1 s1 where w1: "write_worker uuid rec s = (ok1, s1)" by fastforce
  obtain ok2 s2 where w2: "write_index (Some (AList.update (h tok) uuid (or_empty (read_index_or_nil s1)))) s1 = (ok2, s2)"
    by fastforce
  have d: "h t \<noteq> h tok" using assms(2) Some by simp
  have 1: "live h s1 t = Some w \<Longrightarrow> live h s t = Some w"
    using d by (cases rule: write_worker_cases [OF w1]) (auto simp: live_iff rec_def split: if_splits)
  have p: "points_to s2 (h t) k \<Longrightarrow> points_to s1 (h t) k" for k
    using w2
  proof (cases rule: write_index_cases)
    case 1
    assume "points_to s2 (h t) k"
    then have k: "k \<noteq> ''''" "index_lookup (read_index_or_nil s1) (h t) = k"
      using 1(2) d by auto
    then show ?thesis
      by (cases "cs_index s1") (simp_all add: read_index_or_nil_def points_to_def)
  qed simp
  have f: "worker_file s2 k = worker_file s1 k" for k
    by (cases rule: write_index_cases [OF w2]) simp_all
  have 2: "live h s2 t = Some w \<Longrightarrow> live h s1 t = Some w"
    unfolding live_iff f using p by blast
  obtain ok3 s3 where w3: "write_pairing
      (ps[i := (ps ! i)\<lparr>pr_Status := PairingStatusApproved, pr_WorkerToken := tok\<rparr>]) s2 = (ok3, s3)" by fastforce
  have "approve_at h rand uuid now ps i s =
      (if \<not> ok1 then (Inl errIO, s1) else if \<not> ok2 then (Inl errIO, s2)
       else if ok3 then (Inr (), s3) else (Inl errIO, s3))"
    unfolding approve_at_def Some option.case Let_def rec_def [symmetric] w1 prod.case w2 w3 by (rule refl)
  then have "s' = s1 \<or> s' = s2 \<or> s' = s3" using assms(1) by (simp split: if_splits)
  with assms(3) 1 2 write_pairing_live [OF w3] show ?thesis by metis
qed

lemma rotate_no_grant:
  assumes "RotateWorkerToken h rand now wid s = (res, s')" "\<And>tok. rand = Some tok \<Longrightarrow> h t \<noteq> h tok"
    and "live h s' t = Some w"
  shows "live h s t = Some w"
  using assms(1)
proof (cases rule: RotateWorkerToken_cases)
  case (refused e fs)
  then show ?thesis using assms(3) by simp
next
  case (half rec newToken ix fs)
  have d: "h t \<noteq> h newToken" using assms(2) half(2) by simp
  have p: "points_to s' (h t) k \<Longrightarrow> points_to s (h t) k" for k
    using half(5,6) d by (auto simp: points_to_def split: if_splits)
  have f: "worker_file s' k = worker_file s k" for k using half(6) by simp
  show ?thesis using assms(3) p unfolding live_iff f by blast
next
  case (rotated rec newToken ix fs)
  have d: "h t \<noteq> h newToken" using assms(2) rotated(1) by simp
  have p: "points_to s' (h t) k \<Longrightarrow> points_to s (h t) k" for k
    using rotated(5,6) d by (auto simp: points_to_def split: if_splits)
  have f: "worker_file s k = Present r" if "worker_file s' k = Present r" "wr_TokenHash r = h t" for k r
    using that rotated(6) d by (auto split: if_splits)
  show ?thesis using assms(3) p f unfolding live_iff by blast
qed

lemma delete_no_grant:
  assumes "DeleteWorker wid s = (res, s')" "live h s' t = Some w"
  shows "live h s t = Some w"
  using assms(1)
proof (cases rule: DeleteWorker_cases)
  case (refused e)
  then show ?thesis using assms(2) by simp
next
  case (removed rec s1 fs)
  have p1: "points_to s1 (h t) k \<Longrightarrow> points_to s (h t) k" for k
    using removed(3) by (auto simp: points_to_def split: if_splits)
  have f1: "worker_file s1 k = worker_file s k" for k using removed(3) by auto
  have p: "points_to s' (h t) k \<Longrightarrow> points_to s1 (h t) k" for k using removed(4) by auto
  have f: "worker_file s' k = Present r \<Longrightarrow> worker_file s1 k = Present r" for k r
    using removed(4) by (auto split: if_splits)
  show ?thesis using assms(2) p p1 f f1 unfolding live_iff by metis
qed

lemma store_step_no_grant:
  assumes "\<not> issues h op t" "live h (store_step h op s) t = Some w"
  shows "live h s t = Some w"
proof (cases op)
  case (Create rand uuid bytes now wn hi labels)
  have "live h (snd (CreatePairingRequest h rand uuid bytes now wn hi labels s)) t = live h s t"
    by (auto simp: CreatePairingRequest_def Let_def split: option.splits prod.splits if_splits dest: write_pairing_live)
  then show ?thesis using assms Create by simp
next
  case (Poll now rid secret)
  have "live h (snd (PollPairingRequest h now rid secret s)) t = live h s t"
    by (auto simp: PollPairingRequest_def Let_def split: option.splits prod.splits if_splits json_file.splits
        dest: write_pairing_live)
  then show ?thesis using assms Poll by simp
next
  case (Reject rid)
  have "live h (snd (RejectPairingRequest rid s)) t = live h s t"
    by (auto simp: RejectPairingRequest_def Let_def split: option.splits prod.splits if_splits json_file.splits
        dest: write_pairing_live)
  then show ?thesis using assms Reject by simp
next
  case (Approve rand uuid now rid)
  have "s' = s \<or> (\<exists>ps i res. approve_at h rand uuid now ps i s = (res, s'))"
    if "ApprovePairingRequest h rand uuid now rid s = (res, s')" for res s'
    using that by (auto simp: ApprovePairingRequest_def split: json_file.splits option.splits if_splits)
  then show ?thesis
    using assms Approve approve_at_no_grant [of h rand uuid now _ _ s _ _ t w]
    by (cases "ApprovePairingRequest h rand uuid now rid s") fastforce
next
  case (ApproveByCode rand uuid now code)
  have "s' = s \<or> (\<exists>ps i res. approve_at h rand uuid now ps i s = (res, s'))"
    if "ApprovePairingRequestByCode h rand uuid now code s = (res, s')" for res s'
    using that by (auto simp: ApprovePairingRequestByCode_def split: json_file.splits option.splits if_splits)
  then show ?thesis
    using assms ApproveByCode approve_at_no_grant [of h rand uuid now _ _ s _ _ t w]
    by (cases "ApprovePairingRequestByCode h rand uuid now code s") fastforce
next
  case (Rotate rand now wid)
  then show ?thesis
    using assms rotate_no_grant [of h rand now wid s _ _ t w]
    by (cases "RotateWorkerToken h rand now wid s") auto
next
  case (Delete wid)
  then show ?thesis
    using assms delete_no_grant [of wid s _ _ h t w] by (cases "DeleteWorker wid s") auto
qed

interpretation tokens: credential_store "live h" "store_step h" "issues h" for h
  by unfold_locales (rule store_step_no_grant)

text \<open>C13: A dead worker token stays dead: through any sequence of the store's operations, with
  writes failing anywhere, a token no worker has is refused as long as no operation draws a token
  with its hash again; so a rotated or deleted worker's token never comes back.\<close>

theorem dead_token_stays_dead:
  assumes "\<forall>op \<in> set ops. \<not> issues h op t" "\<forall>w. ValidateWorkerToken h t s \<noteq> Inr w"
  shows "ValidateWorkerToken h t (fold (store_step h) ops s) \<noteq> Inr w"
proof -
  have "live h s t = None" using assms(2) by (simp add: live_def split: sum.splits)
  then have "live h (fold (store_step h) ops s) t = None" by (rule tokens.run_dead [OF assms(1)])
  then show ?thesis by (auto simp: live_def)
qed

subsection \<open>A delivered token\<close>

text \<open>A request that is gone does not come back, unless a new one draws its identifier.\<close>

definition request_gone :: "string \<Rightarrow> config_store \<Rightarrow> bool" where
  "request_gone rid s \<longleftrightarrow> (\<exists>ps. cs_pairing s = Present ps \<and> rid \<notin> pr_ID ` set ps)"

fun draws_request :: "string \<Rightarrow> store_op \<Rightarrow> bool" where
  "draws_request rid (Create rand uuid bytes now wn hi labels) = (uuid = rid)"
| "draws_request rid op = False"

lemma gone_write:
  "write_worker k rec s = (ok, s') \<Longrightarrow> request_gone rid s' = request_gone rid s"
  "write_index ix s = (ok, s') \<Longrightarrow> request_gone rid s' = request_gone rid s"
  "write_pairing ps s = (ok, s') \<Longrightarrow> request_gone rid s \<Longrightarrow> rid \<notin> pr_ID ` set ps \<Longrightarrow> request_gone rid s'"
  by (auto elim!: write_worker_cases write_index_cases write_pairing_cases simp: request_gone_def)

lemma set_remove_at: "set (remove_at i xs) \<subseteq> set xs"
  by (auto simp: remove_at_def dest: in_set_takeD in_set_dropD)

lemma ids_update: "i < length ps \<Longrightarrow> pr_ID x = pr_ID (ps ! i) \<Longrightarrow> pr_ID ` set (ps[i := x]) = pr_ID ` set ps"
  by (metis image_set map_update_same)

lemma approve_at_gone:
  assumes "approve_at h rand uuid now ps i s = (res, s')" "request_gone rid s" "rid \<notin> pr_ID ` set ps" "i < length ps"
  shows "request_gone rid s'"
proof -
  have ids: "rid \<notin> pr_ID ` set (ps[i := (ps ! i)\<lparr>pr_Status := st, pr_WorkerToken := t\<rparr>])" for st t
    using assms(3,4) by (simp add: ids_update)
  show ?thesis
    using assms(1,2) ids
    by (auto simp: approve_at_def Let_def split: option.splits prod.splits if_splits dest!: gone_write)
qed

lemma store_step_gone:
  assumes "request_gone rid s" "\<not> draws_request rid op"
  shows "request_gone rid (store_step h op s)"
proof -
  obtain ps where ps: "cs_pairing s = Present ps" "rid \<notin> pr_ID ` set ps"
    using assms(1) by (auto simp: request_gone_def)
  show ?thesis
  proof (cases op)
    case (Create rand uuid bytes now wn hi labels)
    with assms ps show ?thesis
      by (auto simp: CreatePairingRequest_def read_pairing_or_nil_def Let_def
          split: option.split prod.split intro: gone_write(3) intro!: gone_write(3) [of _ s])
  next
    case (Poll now rid' secret)
    have "rid \<notin> pr_ID ` set (remove_at i ps)" for i using ps(2) set_remove_at [of i ps] by blast
    with assms(1) ps(1) Poll show ?thesis
      by (auto simp: PollPairingRequest_def Let_def split: option.split prod.split intro: gone_write(3))
  next
    case (Approve rand uuid now rid')
    with assms(1) ps show ?thesis
      by (auto simp: ApprovePairingRequest_def split: option.split
          intro: approve_at_gone [OF prod.collapse [symmetric]] dest: find_index_lt)
  next
    case (ApproveByCode rand uuid now code)
    with assms(1) ps show ?thesis
      by (auto simp: ApprovePairingRequestByCode_def split: option.split
          intro: approve_at_gone [OF prod.collapse [symmetric]] dest: find_index_lt)
  next
    case (Reject rid')
    have "rid \<notin> pr_ID ` set (ps[i := (ps ! i)\<lparr>pr_Status := PairingStatusRejected\<rparr>])"
      if "find_index (\<lambda>r. pr_ID r = rid') ps = Some i" for i
      using ps(2) find_index_lt [OF that] by (simp add: ids_update)
    with assms(1) ps(1) Reject show ?thesis
      by (auto simp: RejectPairingRequest_def split: option.split prod.split intro: gone_write(3))
  next
    case (Rotate rand now wid)
    obtain res s' where r: "RotateWorkerToken h rand now wid s = (res, s')" by fastforce
    then have "cs_pairing s' = cs_pairing s" by (cases rule: RotateWorkerToken_cases) auto
    with r Rotate ps show ?thesis by (simp add: request_gone_def)
  next
    case (Delete wid)
    obtain res s' where r: "DeleteWorker wid s = (res, s')" by fastforce
    then have "cs_pairing s' = cs_pairing s" by (cases rule: DeleteWorker_cases) auto
    with r Delete ps show ?thesis by (simp add: request_gone_def)
  qed
qed

lemma run_gone:
  "request_gone rid s \<Longrightarrow> \<forall>op \<in> set ops. \<not> draws_request rid op \<Longrightarrow> request_gone rid (fold (store_step h) ops s)"
  by (induction ops arbitrary: s) (auto intro: store_step_gone)

lemma poll_gone: "request_gone rid s \<Longrightarrow> PollPairingRequest h now rid secret s = (Inl errNotFound, s)"
proof -
  assume "request_gone rid s"
  then obtain ps where ps: "cs_pairing s = Present ps" "rid \<notin> pr_ID ` set ps"
    by (auto simp: request_gone_def)
  from ps(2) have none: "find_index (\<lambda>r. pr_ID r = rid) ps = None" by auto
  show ?thesis by (simp add: PollPairingRequest_def ps(1) none)
qed

lemma poll_delivers:
  assumes "PollPairingRequest h now rid secret s = (Inr (status, tok), s')" "tok \<noteq> ''''"
  obtains ps i where "cs_pairing s = Present ps" "find_index (\<lambda>r. pr_ID r = rid) ps = Some i"
    "pr_SecretHash (ps ! i) = h secret" "now \<le> pr_ExpiresAt (ps ! i)" "pr_Status (ps ! i) = status"
    "pr_WorkerToken (ps ! i) = tok"
    "status = PairingStatusApproved \<Longrightarrow> write_pairing (remove_at i ps) s = (True, s')"
  using assms
  by (auto simp: PollPairingRequest_def Let_def split: json_file.splits option.splits if_splits prod.splits)

text \<open>C14: A worker token is delivered only to the holder of the request's secret, for a request that has not
  expired and has been given that token. Under the status approved it is delivered only once: the poll
  has removed the request, and after any further operations of the store, with writes failing
  anywhere, every poll of the request, with whatever secret and at whatever time, finds nothing, as long as no new
  request draws its identifier. (Under the status rejected, see below, this does not hold.)\<close>

theorem token_delivered_once:
  assumes "pairing_wf s" "PollPairingRequest h now rid secret s = (Inr (status, tok), s')" "tok \<noteq> ''''"
  shows "(\<exists>r \<in> set (read_pairing_or_nil s). pr_ID r = rid \<and> pr_SecretHash r = h secret
            \<and> now \<le> pr_ExpiresAt r \<and> pr_Status r = status \<and> pr_WorkerToken r = tok)
    \<and> (status = PairingStatusApproved \<longrightarrow>
        (\<forall>ops now' secret'. (\<forall>op \<in> set ops. \<not> draws_request rid op) \<longrightarrow>
           fst (PollPairingRequest h now' rid secret' (fold (store_step h) ops s')) = Inl errNotFound))"
proof -
  from assms(2,3) obtain ps i where p: "cs_pairing s = Present ps" "find_index (\<lambda>r. pr_ID r = rid) ps = Some i"
      "pr_SecretHash (ps ! i) = h secret" "now \<le> pr_ExpiresAt (ps ! i)" "pr_Status (ps ! i) = status"
      "pr_WorkerToken (ps ! i) = tok"
    and w: "status = PairingStatusApproved \<Longrightarrow> write_pairing (remove_at i ps) s = (True, s')"
    by (rule poll_delivers) blast
  note D = find_index_SomeD [OF p(2)]
  have dist: "distinct (map pr_ID ps)" using assms(1) p(1) by (simp add: pairing_wf_def read_pairing_or_nil_def)
  have gone: "request_gone rid s'" if "status = PairingStatusApproved"
  proof -
    have "rid \<notin> pr_ID ` set (remove_at i ps)" using key_notin_remove_at [OF dist, of i] D by auto
    then show ?thesis
      using w [OF that] by (auto elim!: write_pairing_cases simp: request_gone_def)
  qed
  have later: "fst (PollPairingRequest h now' rid secret' (fold (store_step h) ops s')) = Inl errNotFound"
    if "status = PairingStatusApproved" "\<forall>op \<in> set ops. \<not> draws_request rid op" for ops now' secret'
    using poll_gone [OF run_gone [OF gone [OF that(1)] that(2)]] by simp
  have "ps ! i \<in> set (read_pairing_or_nil s)" using D p(1) by (simp add: read_pairing_or_nil_def)
  then show ?thesis using later p D by blast
qed

subsection \<open>Witnesses\<close>

definition demo_request :: "string \<Rightarrow> string \<Rightarrow> PairingRequest" where
  "demo_request status tok = \<lparr>pr_ID = ''r1'', pr_UserCode = ''ABC234'', pr_SecretHash = demo_hash ''sec'',
     pr_WorkerName = ''box'', pr_HostInfo = ''linux'', pr_Labels = [''gpu''], pr_Status = status,
     pr_CreatedAt = 100, pr_ExpiresAt = 1000, pr_WorkerToken = tok\<rparr>"

lemma token_delivered_once_witness:
  "fst (PollPairingRequest demo_hash 200 ''r1'' ''sec''
     (fold (store_step demo_hash) [Create (Some ''s2'') ''r2'' [] 160 '''' '''' [], Reject ''r1'', Delete ''w2'']
       (snd (PollPairingRequest demo_hash 150 ''r1'' ''sec''
          (demo_store []\<lparr>cs_pairing := Present [demo_request PairingStatusApproved ''tk'']\<rparr>)))))
   = Inl errNotFound"
proof -
  define s where "s = demo_store []\<lparr>cs_pairing := Present [demo_request PairingStatusApproved ''tk'']\<rparr>"
  have 1: "PollPairingRequest demo_hash 150 ''r1'' ''sec'' s
      = (Inr (PairingStatusApproved, ''tk''), snd (PollPairingRequest demo_hash 150 ''r1'' ''sec'' s))"
    unfolding s_def by code_simp
  have "pairing_wf s" by (simp add: s_def pairing_wf_def read_pairing_or_nil_def)
  from token_delivered_once [OF this 1]
  have later: "\<forall>op \<in> set ops. \<not> draws_request ''r1'' op \<Longrightarrow> fst (PollPairingRequest demo_hash 200 ''r1'' ''sec''
      (fold (store_step demo_hash) ops (snd (PollPairingRequest demo_hash 150 ''r1'' ''sec'' s)))) = Inl errNotFound" for ops
    by blast
  show ?thesis unfolding s_def [symmetric] by (rule later) simp
qed

lemma pairing_end_to_end_witness:
  "ValidateWorkerToken demo_hash ''tk''
     (snd (PollPairingRequest demo_hash 900 ''r1'' ''sec''
        (snd (ApprovePairingRequest demo_hash (Some ''tk'') ''w9'' 500 ''r1''
           (snd (CreatePairingRequest demo_hash (Some ''sec'') ''r1'' [0, 1, 2, 3, 4, 255] 100 ''box'' ''linux'' []
              (demo_store [])))))))
   = Inr ''w9''"
  by (rule pairing_end_to_end [THEN conjunct2, THEN conjunct2, THEN conjunct2,
        OF _ _ _ _ _ _ prod.collapse [symmetric] prod.collapse [symmetric] prod.collapse [symmetric]])
     (simp_all add: demo_store_def read_pairing_or_nil_def PairingTTL_def)

lemma rejected_request_leaks_token_witness:
  "fst (PollPairingRequest demo_hash 300 ''r1'' ''sec''
     (snd (RejectPairingRequest ''r1''
        (snd (ApprovePairingRequest demo_hash (Some ''tk'') ''w9'' 200 ''r1''
           (demo_store []\<lparr>cs_pairing := Present [demo_request PairingStatusPending '''']\<rparr>))))))
   = Inr (PairingStatusRejected, ''tk'')"
proof -
  define s where "s = demo_store []\<lparr>cs_pairing := Present [demo_request PairingStatusPending '''']\<rparr>"
  have "cs_faults s = []" "cs_pairing s = Present [demo_request PairingStatusPending '''']"
    "find_index (\<lambda>r. pr_ID r = ''r1'') [demo_request PairingStatusPending ''''] = Some 0"
    by (simp_all add: s_def demo_store_def demo_request_def)
  from rejected_request_leaks_token [OF this, of 200 demo_hash "''sec''" 300 "''tk''" "''w9''",
      OF _ _ _ _ _ _ prod.collapse [symmetric] prod.collapse [symmetric]]
  show ?thesis by (simp add: demo_request_def s_def)
qed

lemma dead_token_stays_dead_witness:
  "ValidateWorkerToken demo_hash ''t1''
     (fold (store_step demo_hash) [Reject ''r1'', Delete ''w2'', Rotate (Some ''t4'') 50 ''w1'']
        (snd (RotateWorkerToken demo_hash (Some ''t3'') 30 ''w1'' (demo_store [])))) \<noteq> Inr ''w1''"
proof (rule dead_token_stays_dead)
  show "\<forall>op \<in> set [Reject ''r1'', Delete ''w2'', Rotate (Some ''t4'') 50 ''w1'']. \<not> issues demo_hash op ''t1''"
    by (simp add: demo_hash_def)
  have "ValidateWorkerToken demo_hash ''t1'' (snd (RotateWorkerToken demo_hash (Some ''t3'') 30 ''w1'' (demo_store [])))
      = Inl errUnauthorized" by code_simp
  then show "\<forall>w. ValidateWorkerToken demo_hash ''t1'' (snd (RotateWorkerToken demo_hash (Some ''t3'') 30 ''w1'' (demo_store [])))
      \<noteq> Inr w" by simp
qed

lemma pairing_list_hides_secrets_witness:
  "pr_WorkerToken (hd (ListPairingRequests 500 (demo_store []\<lparr>cs_pairing := Present [demo_request PairingStatusApproved ''tk'']\<rparr>))) = ''''
   \<and> pr_UserCode (hd (ListPairingRequests 500 (demo_store []\<lparr>cs_pairing := Present [demo_request PairingStatusApproved ''tk'']\<rparr>))) = ''ABC234''"
proof -
  define out where "out = ListPairingRequests 500 (demo_store []\<lparr>cs_pairing := Present [demo_request PairingStatusApproved ''tk'']\<rparr>)"
  have "out \<noteq> []" "pr_UserCode (hd out) = ''ABC234''"
    by (simp_all add: out_def ListPairingRequests_def read_pairing_or_nil_def demo_request_def)
  then have "hd out \<in> set out" by simp
  with \<open>pr_UserCode (hd out) = _\<close>
    pairing_list_hides_secrets [of 500 "demo_store []\<lparr>cs_pairing := Present [demo_request PairingStatusApproved ''tk'']\<rparr>"]
  show ?thesis unfolding out_def by blast
qed

end
