(* ===== verification/Protocol.thy ===== *)
theory Protocol
  imports GoStrings "HOL-Library.Word"
begin

text \<open>
  The messages of the gateway and the worker, \<^verbatim>\<open>proto/runtime/v1/runtime.pb.go\<close>: a record
  per message, a datatype per enumeration and per oneof. A pointer to a message that may be
  nil is an option; \<^verbatim>\<open>uint32\<close> and \<^verbatim>\<open>uint64\<close> keep their width. The
  enumerations are open: a number without a name is a value of its own.
\<close>

subsection \<open>Enumerations\<close>

datatype Runtime =
    RUNTIME_UNSPECIFIED | RUNTIME_NANO_AGENT | RUNTIME_CLAUDE_CODE | RUNTIME_OPENCODE | RUNTIME_CUSTOM
  | RUNTIME_other int

fun Runtime_String :: "Runtime \<Rightarrow> string" where
  "Runtime_String RUNTIME_UNSPECIFIED = ''RUNTIME_UNSPECIFIED''"
| "Runtime_String RUNTIME_NANO_AGENT = ''RUNTIME_NANO_AGENT''"
| "Runtime_String RUNTIME_CLAUDE_CODE = ''RUNTIME_CLAUDE_CODE''"
| "Runtime_String RUNTIME_OPENCODE = ''RUNTIME_OPENCODE''"
| "Runtime_String RUNTIME_CUSTOM = ''RUNTIME_CUSTOM''"
| "Runtime_String (RUNTIME_other n) = dec_of_int n"

datatype MountMode = MOUNT_MODE_UNSPECIFIED | MOUNT_MODE_VOLUME | MOUNT_MODE_BIND | MOUNT_MODE_other int

datatype Role = ROLE_UNSPECIFIED | ROLE_SYSTEM | ROLE_USER | ROLE_ASSISTANT | ROLE_other int

datatype NetworkPolicy =
    NETWORK_POLICY_UNSPECIFIED | NETWORK_POLICY_NONE | NETWORK_POLICY_ALLOWLIST | NETWORK_POLICY_ALL
  | NETWORK_POLICY_other int

datatype ApprovalPolicy =
    APPROVAL_POLICY_UNSPECIFIED | APPROVAL_POLICY_AUTO | APPROVAL_POLICY_ASK | APPROVAL_POLICY_DENY
  | APPROVAL_POLICY_other int

datatype EventKind =
    EVENT_KIND_UNSPECIFIED | EVENT_KIND_STATUS | EVENT_KIND_ASSISTANT_DELTA | EVENT_KIND_TOOL_CALL
  | EVENT_KIND_TOOL_RESULT | EVENT_KIND_REQUIRES_APPROVAL | EVENT_KIND_COMPLETED | EVENT_KIND_ERROR
  | EVENT_KIND_ARTIFACT | EVENT_KIND_other int

datatype WorkspaceSyncKind =
    WORKSPACE_SYNC_KIND_UNSPECIFIED | WORKSPACE_SYNC_KIND_UPLOAD_TAR | WORKSPACE_SYNC_KIND_DOWNLOAD_TAR
  | WORKSPACE_SYNC_KIND_other int

subsection \<open>Hello, heartbeat, capacity\<close>

record Capacity =
  cap_CpuMillis :: "32 word"
  cap_MemoryBytes :: "64 word"
  cap_Pids :: "32 word"
  cap_DiskBytes :: "64 word"

record DockerInfo =
  di_ServerVersion :: string
  di_Os :: string
  di_Arch :: string
  di_Rootless :: bool

record WorkerHello =
  wh_Name :: string
  wh_Version :: string
  wh_Labels :: "string list"
  wh_SupportedRuntimes :: "Runtime list"
  wh_Capacity :: "Capacity option"
  wh_Docker :: "DockerInfo option"

record WorkerHeartbeat =
  hb_UnixMillis :: "64 word"
  hb_Current :: "Capacity option"
  hb_RunningStreams :: "32 word"
  hb_QueuedStreams :: "32 word"

subsection \<open>Run requests\<close>

datatype WorkspaceSource =
    WorkspaceSource_Git (git_Url: string) (git_Ref: string) (git_Subdir: string)
  | WorkspaceSource_Artifact (artifact_Uri: string) (artifact_Format: string)
  | WorkspaceSource_Empty

record WorkspaceSpec =
  ws_WorkspaceId :: string
  ws_Source :: "WorkspaceSource option"
  ws_MountMode :: MountMode
  ws_Workdir :: string
  ws_Persistent :: bool

record Message =
  msg_Role :: Role
  msg_Content :: string
  msg_Name :: string

datatype attachment_data = InlineBytes "8 word list" | AttachmentUri string

record Attachment =
  att_Name :: string
  att_MimeType :: string
  att_Data :: "attachment_data option"

record Input =
  in_Messages :: "Message list"
  in_Attachments :: "Attachment list"

record Policy =
  pol_TimeoutSeconds :: "32 word"
  pol_Resources :: "Capacity option"
  pol_Network :: NetworkPolicy
  pol_Approval :: ApprovalPolicy

record RunRequest =
  rr_SessionId :: string
  rr_Runtime :: Runtime
  rr_Workspace :: "WorkspaceSpec option"
  rr_Input :: "Input option"
  rr_Policy :: "Policy option"
  rr_SecretsRef :: string

subsection \<open>Run events\<close>

record ArtifactRef =
  ar_Uri :: string
  ar_Name :: string
  ar_MimeType :: string
  ar_SizeBytes :: "64 word"

record proto_Error =
  err_Code :: string
  err_Message :: string
  err_DetailsJson :: string

record CompletedEvent =
  ce_Success :: bool
  ce_ExitCode :: "32 word"
  ce_StatsJson :: string

datatype RunEvent_Payload =
    RunEvent_Status (se_Status: string) (se_Detail: string)
  | RunEvent_AssistantDelta (ad_Text: string)
  | RunEvent_ToolCall (tc_CallId: string) (tc_Name: string) (tc_ArgsJson: string)
  | RunEvent_ToolResult (tr_CallId: string) (tr_Stdout: string) (tr_Stderr: string)
      (tr_ExitCode: "32 word") (tr_Artifacts: "ArtifactRef list")
  | RunEvent_RequiresApproval (ra_Prompt: string) (ra_Options: "string list")
      (ra_DefaultOption: string) (ra_ContextJson: string)
  | RunEvent_Completed CompletedEvent
  | RunEvent_Error proto_Error
  | RunEvent_Artifact "ArtifactRef option"

record RunEvent =
  ev_Kind :: EventKind
  ev_Payload :: "RunEvent_Payload option"

subsection \<open>The envelope\<close>

datatype Envelope_Message =
    Envelope_WorkerHello WorkerHello
  | Envelope_WorkerHeartbeat WorkerHeartbeat
  | Envelope_RunRequest RunRequest
  | Envelope_RunEvent RunEvent
  | Envelope_CancelRequest (cr_Reason: string)
  | Envelope_CancelAck (ca_Accepted: bool) (ca_Detail: string)
  | Envelope_WorkspaceSync (wss_Kind: WorkspaceSyncKind) (wss_Path: string)
      (wss_Data: "8 word list") (wss_Encoding: string)
  | Envelope_Error proto_Error

record Envelope =
  env_ProtocolVersion :: string
  env_TunnelId :: string
  env_WorkerId :: string
  env_StreamId :: string
  env_Seq :: "64 word"
  env_Message :: "Envelope_Message option"

text \<open>The getters of the oneofs: nil where another case is set.\<close>

definition GetWorkerHello :: "Envelope \<Rightarrow> WorkerHello option" where
  "GetWorkerHello e = (case env_Message e of Some (Envelope_WorkerHello h) \<Rightarrow> Some h | _ \<Rightarrow> None)"

definition GetWorkerHeartbeat :: "Envelope \<Rightarrow> WorkerHeartbeat option" where
  "GetWorkerHeartbeat e = (case env_Message e of Some (Envelope_WorkerHeartbeat h) \<Rightarrow> Some h | _ \<Rightarrow> None)"

definition GetRunRequest :: "Envelope \<Rightarrow> RunRequest option" where
  "GetRunRequest e = (case env_Message e of Some (Envelope_RunRequest r) \<Rightarrow> Some r | _ \<Rightarrow> None)"

definition GetRunEvent :: "Envelope \<Rightarrow> RunEvent option" where
  "GetRunEvent e = (case env_Message e of Some (Envelope_RunEvent r) \<Rightarrow> Some r | _ \<Rightarrow> None)"

definition GetCancelRequest :: "Envelope \<Rightarrow> string option" where
  "GetCancelRequest e = (case env_Message e of Some (Envelope_CancelRequest r) \<Rightarrow> Some r | _ \<Rightarrow> None)"

definition GetStatus :: "RunEvent \<Rightarrow> (string \<times> string) option" where
  "GetStatus e = (case ev_Payload e of Some (RunEvent_Status s d) \<Rightarrow> Some (s, d) | _ \<Rightarrow> None)"

definition GetError :: "RunEvent \<Rightarrow> proto_Error option" where
  "GetError e = (case ev_Payload e of Some (RunEvent_Error x) \<Rightarrow> Some x | _ \<Rightarrow> None)"

definition GetCompleted :: "RunEvent \<Rightarrow> CompletedEvent option" where
  "GetCompleted e = (case ev_Payload e of Some (RunEvent_Completed x) \<Rightarrow> Some x | _ \<Rightarrow> None)"

text \<open>The messages with which the gateway and the worker build their requests and events.\<close>

definition completes :: "Envelope \<Rightarrow> bool" where
  "completes e \<longleftrightarrow> (\<exists>ev. GetRunEvent e = Some ev \<and> ev_Kind ev = EVENT_KIND_COMPLETED)"

lemma completes_code [code]:
  "completes e = (case GetRunEvent e of None \<Rightarrow> False | Some ev \<Rightarrow> ev_Kind ev = EVENT_KIND_COMPLETED)"
  by (auto simp: completes_def split: option.split)

lemma getters_exclusive:
  "GetRunEvent e = Some r \<Longrightarrow> GetWorkerHeartbeat e = None \<and> GetWorkerHello e = None"
  by (auto simp: GetRunEvent_def GetWorkerHeartbeat_def GetWorkerHello_def
      split: option.splits Envelope_Message.splits)

end
