(* ===== verification/GatewayAuth.thy ===== *)
theory GatewayAuth
  imports GoStrings Prelude
begin

text \<open>
  Who may do what at the gateway: the bearer token and the other ways to present it
  (\<^verbatim>\<open>checkToken\<close>, \<^verbatim>\<open>checkBearerToken\<close>), the console's sessions, and the administrator's
  check, from \<^verbatim>\<open>server.go\<close>, \<^verbatim>\<open>worker_config_handlers.go\<close> and
  \<^verbatim>\<open>admin_handlers.go\<close> in \<^verbatim>\<open>pkg/server\<close>. A request is what these
  functions read of it; a header that is not set is the empty string, as Go's
  \<^verbatim>\<open>Header.Get\<close> has it. Times are in nanoseconds.
\<close>

subsection \<open>Requests\<close>

record http_request =
  rq_Authorization :: string
  rq_GatewayToken :: string
  rq_WorkerToken :: string
  rq_QueryToken :: string
  rq_Cookie :: "string option"

text \<open>The environment variables the gateway reads at each request.\<close>

record gateway_env =
  ge_AllowTokenQuery :: string
  ge_DevMode :: string
  ge_SessionTTLMinutes :: string

definition bearer_prefix :: string where
  "bearer_prefix = ''Bearer ''"

definition parseBearerToken :: "http_request \<Rightarrow> string" where
  "parseBearerToken r =
     (let auth = rq_Authorization r in
      if length auth > length bearer_prefix \<and> prefix bearer_prefix auth
      then trim_space (drop (length bearer_prefix) auth) else '''')"

definition allowTokenQuery :: "gateway_env \<Rightarrow> bool" where
  "allowTokenQuery e =
     (let v = to_lower (trim_space (ge_AllowTokenQuery e)) in
      v = ''1'' \<or> v = ''true'' \<or> v = ''yes'' \<or> v = ''on'' \<or> v = ''dev''
      \<or> to_lower (trim_space (ge_DevMode e)) = ''true'')"

definition checkToken :: "gateway_env \<Rightarrow> string \<Rightarrow> http_request \<Rightarrow> bool" where
  "checkToken e token r =
     (if token = '''' then True
      else if parseBearerToken r = token then True
      else if rq_GatewayToken r = token then True
      else if allowTokenQuery e \<and> trim_space (rq_QueryToken r) = token then True
      else False)"

definition checkBearerToken :: "string \<Rightarrow> http_request \<Rightarrow> bool" where
  "checkBearerToken token r =
     (if token = '''' then True
      else
        (let auth = rq_Authorization r in
         length auth > length bearer_prefix \<and> take (length bearer_prefix) auth = bearer_prefix
           \<and> drop (length bearer_prefix) auth = token))"

subsection \<open>Console sessions\<close>

text \<open>
  \<^verbatim>\<open>time.Duration\<close> is an int64 of nanoseconds: the product of minutes wraps.
\<close>

definition wrap64 :: "int \<Rightarrow> int" where
  "wrap64 i = (i + 2 ^ 63) mod 2 ^ 64 - 2 ^ 63"

definition minute_ns :: int where "minute_ns = 60000000000"

definition parseConsoleSessionTTL :: "gateway_env \<Rightarrow> int" where
  "parseConsoleSessionTTL e =
     (let v = trim_space (ge_SessionTTLMinutes e) in
      if v = '''' then 8 * 60 * minute_ns
      else (case atoi v of None \<Rightarrow> 8 * 60 * minute_ns
            | Some n \<Rightarrow> if n \<le> 0 then 8 * 60 * minute_ns else wrap64 (n * minute_ns)))"

type_synonym sessions = "string \<Rightarrow> int option"

definition consoleAuthEnabled :: "string \<Rightarrow> bool" where
  "consoleAuthEnabled token \<longleftrightarrow> token \<noteq> ''''"

text \<open>A found but expired session is deleted on the way.\<close>

definition consoleSessionValid :: "string \<Rightarrow> int \<Rightarrow> http_request \<Rightarrow> sessions \<Rightarrow> bool \<times> sessions" where
  "consoleSessionValid token now r ss =
     (if \<not> consoleAuthEnabled token then (False, ss)
      else (case rq_Cookie r of None \<Rightarrow> (False, ss)
      | Some c \<Rightarrow>
          if trim_space c = '''' then (False, ss)
          else (case ss c of None \<Rightarrow> (False, ss)
                | Some exp \<Rightarrow> if \<not> exp > now then (False, ss(c := None)) else (True, ss))))"

text \<open>\<open>rand\<close> is the session identifier drawn, in hexadecimal, or a failure to draw.\<close>

definition createConsoleSession :: "gateway_env \<Rightarrow> string option \<Rightarrow> int \<Rightarrow> sessions \<Rightarrow> (string \<times> int) option \<times> sessions" where
  "createConsoleSession e rand now ss =
     (case rand of None \<Rightarrow> (None, ss)
      | Some sid \<Rightarrow> (let exp = now + parseConsoleSessionTTL e in (Some (sid, exp), ss(sid := Some exp))))"

definition clearConsoleSession :: "string \<Rightarrow> sessions \<Rightarrow> sessions" where
  "clearConsoleSession sid ss = (if trim_space sid = '''' then ss else ss(sid := None))"

datatype login_response = LoginNotFound | LoginFailed | LoginError | LoggedIn string int

text \<open>The form: its two fields, or a body that does not parse.\<close>

definition handleConsoleLogin ::
    "gateway_env \<Rightarrow> string \<Rightarrow> string option \<Rightarrow> int \<Rightarrow> (string \<times> string) option \<Rightarrow> sessions \<Rightarrow> login_response \<times> sessions" where
  "handleConsoleLogin e gwtoken rand now form ss =
     (if \<not> consoleAuthEnabled gwtoken then (LoginNotFound, ss)
      else (case form of None \<Rightarrow> (LoginFailed, ss)
      | Some (tokenField, passwordField) \<Rightarrow>
          (let token = trim_space tokenField;
               token = (if token = '''' then trim_space passwordField else token)
           in if token \<noteq> gwtoken then (LoginFailed, ss)
              else (case createConsoleSession e rand now ss of
                  (None, ss') \<Rightarrow> (LoginError, ss')
                | (Some (sid, exp), ss') \<Rightarrow> (LoggedIn sid exp, ss')))))"

definition handleConsoleLogout :: "http_request \<Rightarrow> sessions \<Rightarrow> sessions" where
  "handleConsoleLogout r ss = (case rq_Cookie r of None \<Rightarrow> ss | Some c \<Rightarrow> clearConsoleSession c ss)"

subsection \<open>The administrator's check\<close>

datatype admin_check = AdminOk | AdminUnavailable | AdminUnauthorized

definition requireAdmin :: "string \<Rightarrow> int \<Rightarrow> http_request \<Rightarrow> sessions \<Rightarrow> admin_check \<times> sessions" where
  "requireAdmin token now r ss =
     (if token = '''' then (AdminUnavailable, ss)
      else if parseBearerToken r = token then (AdminOk, ss)
      else (let (ok, ss) = consoleSessionValid token now r ss in
            if ok then (AdminOk, ss) else (AdminUnauthorized, ss)))"

subsection \<open>Tokens\<close>

lemma parseBearerToken_trimmed: "trim_space (parseBearerToken r) = parseBearerToken r"
  by (simp add: parseBearerToken_def Let_def)

text \<open>The three checks are ordered for a gateway token without white space at its ends: a request
  that passes the strict bearer check of the polling routes passes the administrator's check, and
  one that passes the administrator's check by its bearer token passes the general check; and the
  administrator's check alone refuses everything when no gateway token is set.\<close>

theorem token_checks_ordered:
  assumes "trim_space token = token"
  shows "(checkBearerToken token r \<and> token \<noteq> '''' \<longrightarrow> fst (requireAdmin token now r ss) = AdminOk)
    \<and> (token \<noteq> '''' \<and> parseBearerToken r = token \<longrightarrow> checkToken e token r)
    \<and> (token = '''' \<longrightarrow> checkBearerToken token r \<and> checkToken e token r
         \<and> fst (requireAdmin token now r ss) = AdminUnavailable)"
proof -
  have "parseBearerToken r = token" if "checkBearerToken token r" "token \<noteq> ''''"
    using that assms
    by (auto simp: checkBearerToken_def parseBearerToken_def Let_def prefix_def) (metis append_take_drop_id)
  then show ?thesis by (auto simp: requireAdmin_def checkToken_def checkBearerToken_def)
qed

lemma token_checks_ordered_witness:
  "fst (requireAdmin ''s3cret'' 0 \<lparr>rq_Authorization = ''Bearer s3cret'', rq_GatewayToken = '''',
      rq_WorkerToken = '''', rq_QueryToken = '''', rq_Cookie = None\<rparr> (\<lambda>_. None)) = AdminOk"
proof -
  have "trim_space ''s3cret'' = ''s3cret''" by code_simp
  moreover have "checkBearerToken ''s3cret'' \<lparr>rq_Authorization = ''Bearer s3cret'', rq_GatewayToken = '''',
      rq_WorkerToken = '''', rq_QueryToken = '''', rq_Cookie = None\<rparr>" by code_simp
  ultimately show ?thesis
    using token_checks_ordered [where token = "''s3cret''"] by blast
qed

text \<open>A request is let through by the general check of a protected gateway only where it presents
  the gateway's token, trimmed in the bearer header or the query or verbatim in the gateway header;
  the query counts only when the environment allows it.\<close>

theorem checkToken_presents_token:
  assumes "token \<noteq> ''''"
  shows "checkToken e token r \<longleftrightarrow>
    (\<exists>rest. rq_Authorization r = ''Bearer '' @ rest \<and> rest \<noteq> '''' \<and> trim_space rest = token)
    \<or> rq_GatewayToken r = token
    \<or> (allowTokenQuery e \<and> trim_space (rq_QueryToken r) = token)"
proof -
  have "parseBearerToken r = token \<longleftrightarrow>
      (\<exists>rest. rq_Authorization r = ''Bearer '' @ rest \<and> rest \<noteq> '''' \<and> trim_space rest = token)"
    using assms by (auto simp: parseBearerToken_def Let_def bearer_prefix_def prefix_def)
  then show ?thesis using assms by (auto simp: checkToken_def)
qed

lemma checkToken_presents_token_witness:
  "\<not> checkToken \<lparr>ge_AllowTokenQuery = '''', ge_DevMode = '''', ge_SessionTTLMinutes = ''''\<rparr> ''tok''
     \<lparr>rq_Authorization = ''Basic tok'', rq_GatewayToken = '''', rq_WorkerToken = '''', rq_QueryToken = ''tok'', rq_Cookie = None\<rparr>"
proof -
  have "\<not> allowTokenQuery \<lparr>ge_AllowTokenQuery = '''', ge_DevMode = '''', ge_SessionTTLMinutes = ''''\<rparr>" by code_simp
  then show ?thesis by (subst checkToken_presents_token) simp_all
qed

subsection \<open>The life of a session\<close>

datatype auth_op =
    OpLogin "(string \<times> string) option" "string option" int
  | OpLogout http_request
  | OpCheck http_request int
  | OpSweep int

definition sweep_sessions :: "int \<Rightarrow> sessions \<Rightarrow> sessions" where
  "sweep_sessions now ss = (\<lambda>sid. case ss sid of None \<Rightarrow> None | Some exp \<Rightarrow> if \<not> exp > now then None else Some exp)"

fun auth_do :: "gateway_env \<Rightarrow> string \<Rightarrow> auth_op \<Rightarrow> sessions \<Rightarrow> sessions" where
  "auth_do e token (OpLogin form rand now) ss = snd (handleConsoleLogin e token rand now form ss)"
| "auth_do e token (OpLogout r) ss = handleConsoleLogout r ss"
| "auth_do e token (OpCheck r now) ss = snd (consoleSessionValid token now r ss)"
| "auth_do e token (OpSweep now) ss = sweep_sessions now ss"

inductive auth_reach :: "gateway_env \<Rightarrow> string \<Rightarrow> auth_op list \<Rightarrow> sessions \<Rightarrow> bool"
  for e token where
  auth_start: "auth_reach e token [] (\<lambda>_. None)"
| auth_next: "auth_reach e token ops ss \<Longrightarrow> auth_reach e token (ops @ [op]) (auth_do e token op ss)"

inductive_cases auth_reach_emptyE: "auth_reach e token [] ss"

text \<open>The token a login form presents.\<close>

definition presented :: "string \<times> string \<Rightarrow> string" where
  "presented f = (if trim_space (fst f) = '''' then trim_space (snd f) else trim_space (fst f))"

lemma auth_do_new:
  assumes "auth_do e token op ss sid = Some exp"
  shows "ss sid = Some exp \<or> (\<exists>form now. op = OpLogin (Some form) (Some sid) now \<and> presented form = token
      \<and> token \<noteq> '''' \<and> exp = now + parseConsoleSessionTTL e)"
  using assms
  by (cases op)
     (auto simp: handleConsoleLogin_def createConsoleSession_def consoleAuthEnabled_def presented_def Let_def
        handleConsoleLogout_def clearConsoleSession_def consoleSessionValid_def sweep_sessions_def
      split: option.splits if_splits prod.splits)

lemma auth_reach_logins:
  assumes "auth_reach e token ops ss" "ss sid = Some exp"
  shows "\<exists>form now. OpLogin (Some form) (Some sid) now \<in> set ops \<and> presented form = token
      \<and> token \<noteq> '''' \<and> exp = now + parseConsoleSessionTTL e"
  using assms
proof (induction arbitrary: exp rule: auth_reach.induct)
  case auth_start
  then show ?case by simp
next
  case (auth_next ops ss op)
  from auth_do_new [OF auth_next.prems] auth_next.IH show ?case by fastforce
qed

text \<open>C26: In every history of logins, logouts, checks and sweeps that starts without sessions, the
  console accepts a cookie only if a login drew that session, presented the gateway's token, and
  is less than the session's lifetime ago.\<close>

theorem console_session_from_login:
  assumes "auth_reach e token ops ss" "fst (consoleSessionValid token now r ss)"
  shows "\<exists>sid form t. rq_Cookie r = Some sid \<and> OpLogin (Some form) (Some sid) t \<in> set ops
    \<and> presented form = token \<and> token \<noteq> '''' \<and> now < t + parseConsoleSessionTTL e"
proof -
  obtain sid exp where s: "rq_Cookie r = Some sid" "ss sid = Some exp" "now < exp"
    using assms(2) by (auto simp: consoleSessionValid_def split: if_splits option.splits)
  from auth_reach_logins [OF assms(1) s(2)] s show ?thesis by auto
qed

lemma console_session_from_login_witness:
  "\<exists>sid form t. Some ''sid1'' = Some sid
     \<and> OpLogin (Some form) (Some sid) t \<in> set [OpLogin (Some ('''', '' tok '')) (Some ''sid1'') 5]
     \<and> presented form = ''tok'' \<and> ''tok'' \<noteq> '''' \<and> 100 < t + parseConsoleSessionTTL \<lparr>ge_AllowTokenQuery = '''', ge_DevMode = '''', ge_SessionTTLMinutes = ''30''\<rparr>"
proof -
  define e where "e = \<lparr>ge_AllowTokenQuery = '''', ge_DevMode = '''', ge_SessionTTLMinutes = ''30''\<rparr>"
  define r where "r = \<lparr>rq_Authorization = '''', rq_GatewayToken = '''', rq_WorkerToken = '''', rq_QueryToken = '''', rq_Cookie = Some ''sid1''\<rparr>"
  have R: "auth_reach e ''tok'' ([] @ [OpLogin (Some ('''', '' tok '')) (Some ''sid1'') 5])
      (auth_do e ''tok'' (OpLogin (Some ('''', '' tok '')) (Some ''sid1'') 5) (\<lambda>_. None))"
    by (rule auth_next [OF auth_start])
  have V: "fst (consoleSessionValid ''tok'' 100 r (auth_do e ''tok'' (OpLogin (Some ('''', '' tok '')) (Some ''sid1'') 5) (\<lambda>_. None)))"
    unfolding e_def r_def by code_simp
  show ?thesis using console_session_from_login [OF R V] unfolding r_def e_def by simp
qed

text \<open>The session lifetime is the configured number of minutes up to the largest that fits an
  int64 of nanoseconds, and eight hours where the variable is empty, not a number or not
  positive; the next larger number wraps to a negative lifetime, so that a login with it yields a
  session that is never accepted.\<close>

theorem session_ttl_range:
  "(0 < n \<and> n \<le> 153722867 \<longrightarrow>
      parseConsoleSessionTTL \<lparr>ge_AllowTokenQuery = a, ge_DevMode = d, ge_SessionTTLMinutes = dec_of_nat n\<rparr> = int n * minute_ns)
   \<and> parseConsoleSessionTTL \<lparr>ge_AllowTokenQuery = a, ge_DevMode = d, ge_SessionTTLMinutes = dec_of_nat 0\<rparr> = 480 * minute_ns
   \<and> parseConsoleSessionTTL \<lparr>ge_AllowTokenQuery = a, ge_DevMode = d, ge_SessionTTLMinutes = dec_of_nat 153722868\<rparr> < 0"
proof -
  have "trim_space (dec_of_nat m) = dec_of_nat m" for m
    using dec_of_nat_digits [of m] digit_plain by (intro trim_space_all_plain) (auto simp: list_all_iff)
  then show ?thesis
    by (simp add: parseConsoleSessionTTL_def atoi_dec_of_nat wrap64_def minute_ns_def Let_def)
qed

lemma session_ttl_range_witness:
  "parseConsoleSessionTTL \<lparr>ge_AllowTokenQuery = '''', ge_DevMode = '''', ge_SessionTTLMinutes = dec_of_nat 30\<rparr> = int 30 * minute_ns"
  using session_ttl_range [of 30] by simp

end
