(* ===== verification/Gateway.thy ===== *)
theory Gateway
  imports Protocol GatewayAuth ConfigStore
begin

text \<open>
  The gateway's in-memory state and its handlers, \<^verbatim>\<open>pkg/server/server.go\<close>: connected
  workers, control queues, run streams with their subscribers, runs. Each step below is what the code
  does under one hold of the mutex, or a sequence of such steps where it lets go in between and
  nothing depends on it; where something does (a run finishing while it is being recorded), the
  parts are steps of their own. A Go map the code only looks up is a function, one it ranges
  over is an association list whose order is the order of that range. Time is in nanoseconds.
\<close>

subsection \<open>State\<close>

text \<open>A connection is a number; \<open>gw_sent\<close> is what was written to each, in order.\<close>

record WorkerSession =
  sess_ID :: string
  sess_Conn :: nat
  sess_Hello :: "WorkerHello option"
  sess_LastHeartbeat :: int

record gateway =
  gw_token :: string
  gw_workers :: "(string \<times> WorkerSession) list"
  gw_queue :: "string \<Rightarrow> Envelope list"
  gw_events :: "string \<Rightarrow> Envelope list"
  gw_times :: "string \<Rightarrow> int list"
  gw_lastAt :: "string \<Rightarrow> int option"
  gw_doneAt :: "string \<Rightarrow> int option"
  gw_subs :: "string \<Rightarrow> (nat \<times> Envelope list) list"
  gw_runs :: "(string \<times> string) list"
  gw_seq :: "64 word"
  gw_sessions :: sessions
  gw_sent :: "(nat \<times> Envelope) list"
  gw_faults :: "bool list"

definition maxWorkerQueuePerWorker :: nat where "maxWorkerQueuePerWorker = 1000"
definition maxStreamEventsPerStream :: nat where "maxStreamEventsPerStream = 2000"
definition streamRetention :: int where "streamRetention = 10 * minute_ns"
definition subscriber_buffer :: nat where "subscriber_buffer = 64"

definition NewGatewayServer :: "string \<Rightarrow> gateway" where
  "NewGatewayServer token = \<lparr>gw_token = token, gw_workers = [], gw_queue = (\<lambda>_. []), gw_events = (\<lambda>_. []),
     gw_times = (\<lambda>_. []), gw_lastAt = (\<lambda>_. None), gw_doneAt = (\<lambda>_. None), gw_subs = (\<lambda>_. []),
     gw_runs = [], gw_seq = 0, gw_sessions = (\<lambda>_. None), gw_sent = [], gw_faults = []\<rparr>"

subsection \<open>Control messages\<close>

definition nextSeq :: "gateway \<Rightarrow> 64 word \<times> gateway" where
  "nextSeq s = (gw_seq s + 1, s\<lparr>gw_seq := gw_seq s + 1\<rparr>)"

definition push_control :: "Envelope \<Rightarrow> Envelope list \<Rightarrow> Envelope list" where
  "push_control env q =
     (let q = q @ [env] in
      if length q > maxWorkerQueuePerWorker then drop (length q - maxWorkerQueuePerWorker) q else q)"

definition enqueueControl :: "string \<Rightarrow> Envelope \<Rightarrow> gateway \<Rightarrow> gateway" where
  "enqueueControl wid env s = s\<lparr>gw_queue := (gw_queue s)(wid := push_control env (gw_queue s wid))\<rparr>"

text \<open>Marshalling or the connection may fail; a written message is in the log of its connection.\<close>

definition writeWorkerEnvelope :: "WorkerSession \<Rightarrow> Envelope \<Rightarrow> gateway \<Rightarrow> bool \<times> gateway" where
  "writeWorkerEnvelope w env s =
     (case gw_faults s of
        [] \<Rightarrow> (True, s\<lparr>gw_sent := gw_sent s @ [(sess_Conn w, env)]\<rparr>)
      | f # fs \<Rightarrow> if f then (False, s\<lparr>gw_faults := fs\<rparr>)
                  else (True, s\<lparr>gw_faults := fs, gw_sent := gw_sent s @ [(sess_Conn w, env)]\<rparr>))"

definition dispatch :: "string \<Rightarrow> string \<Rightarrow> Envelope_Message \<Rightarrow> gateway \<Rightarrow> bool \<times> gateway" where
  "dispatch wid streamID m s =
     (let (seq, s) = nextSeq s;
          env = \<lparr>env_ProtocolVersion = ''1.0'', env_TunnelId = '''', env_WorkerId = wid,
                 env_StreamId = streamID, env_Seq = seq, env_Message = Some m\<rparr>
      in case map_of (gw_workers s) wid of
           None \<Rightarrow> (True, enqueueControl wid env s)
         | Some w \<Rightarrow>
             (let (ok, s) = writeWorkerEnvelope w env s in
              if ok then (True, s) else (False, enqueueControl wid env s)))"

definition DispatchRun :: "string \<Rightarrow> string \<Rightarrow> RunRequest \<Rightarrow> gateway \<Rightarrow> bool \<times> gateway" where
  "DispatchRun wid streamID req s = dispatch wid streamID (Envelope_RunRequest req) s"

definition DispatchCancel :: "string \<Rightarrow> string \<Rightarrow> string \<Rightarrow> gateway \<Rightarrow> bool \<times> gateway" where
  "DispatchCancel wid streamID reason s = dispatch wid streamID (Envelope_CancelRequest reason) s"

text \<open>Flushing: the queue is taken as a whole, then written; from the first failure on it is queued again.\<close>

fun flush_loop :: "string \<Rightarrow> WorkerSession \<Rightarrow> Envelope list \<Rightarrow> gateway \<Rightarrow> gateway" where
  "flush_loop wid w [] s = s"
| "flush_loop wid w (env # rest) s =
     (let (ok, s) = writeWorkerEnvelope w env s in
      if ok then flush_loop wid w rest s
      else fold (enqueueControl wid) (env # rest) s)"

definition flushWorkerQueue :: "string \<Rightarrow> WorkerSession \<Rightarrow> gateway \<Rightarrow> gateway" where
  "flushWorkerQueue wid w s =
     flush_loop wid w (gw_queue s wid) (s\<lparr>gw_queue := (gw_queue s)(wid := [])\<rparr>)"

subsection \<open>Streams\<close>

definition push_stream :: "'a \<Rightarrow> 'a list \<Rightarrow> 'a list" where
  "push_stream x q =
     (let q = q @ [x] in
      if length q > maxStreamEventsPerStream then drop (length q - maxStreamEventsPerStream) q else q)"

text \<open>A send to a subscriber that does not block: a full buffer drops the message.\<close>

definition offer :: "Envelope \<Rightarrow> nat \<times> Envelope list \<Rightarrow> nat \<times> Envelope list" where
  "offer env sub = (if length (snd sub) < subscriber_buffer then (fst sub, snd sub @ [env]) else sub)"

definition appendStreamEvent :: "string \<Rightarrow> Envelope \<Rightarrow> int \<Rightarrow> gateway \<Rightarrow> gateway" where
  "appendStreamEvent sid env now s =
     (let events = gw_events s sid @ [env];
          times = gw_times s sid @ [now];
          over = length events > maxStreamEventsPerStream;
          s = s\<lparr>gw_events := (gw_events s)(sid :=
                  if over then drop (length events - maxStreamEventsPerStream) events else events),
                gw_times := (gw_times s)(sid :=
                  if over \<and> length times > maxStreamEventsPerStream
                  then drop (length times - maxStreamEventsPerStream) times else times),
                gw_lastAt := (gw_lastAt s)(sid := Some now)\<rparr>;
          s = (if completes env
               then s\<lparr>gw_doneAt := (gw_doneAt s)(sid := Some now), gw_runs := AList.delete sid (gw_runs s)\<rparr>
               else s)
      in s\<lparr>gw_subs := (gw_subs s)(sid := map (offer env) (gw_subs s sid))\<rparr>)"

subsection \<open>Worker connections\<close>

text \<open>
  The upgrade's authentication: the gateway's token admits any worker, a worker token the
  worker it belongs to. \<open>Inr None\<close> stands for an empty expected identifier.
\<close>

definition connect_auth ::
    "gateway_env \<Rightarrow> (string \<Rightarrow> string) \<Rightarrow> http_request \<Rightarrow> gateway \<Rightarrow> config_store \<Rightarrow> unit + string" where
  "connect_auth e h r s cs =
     (if checkToken e (gw_token s) r then Inr ''''
      else
        (let tok = parseBearerToken r;
             tok = (if tok = '''' then rq_WorkerToken r else tok)
         in if tok = '''' then Inl ()
            else (case ValidateWorkerToken h tok cs of Inl _ \<Rightarrow> Inl () | Inr wid \<Rightarrow> Inr wid)))"

text \<open>The first message: the identifier under which the worker registers, or none.\<close>

definition hello_worker_id :: "string \<Rightarrow> int \<Rightarrow> Envelope \<Rightarrow> (string \<times> WorkerHello) option" where
  "hello_worker_id expected now env =
     (case GetWorkerHello env of None \<Rightarrow> None
      | Some hello \<Rightarrow>
          if env_WorkerId env = '''' \<and> expected \<noteq> '''' then None
          else
            (let wid = (if env_WorkerId env = '''' then ''worker-'' @ dec_of_int now else env_WorkerId env)
             in if expected \<noteq> '''' \<and> wid \<noteq> expected then None else Some (wid, hello)))"

definition register_worker :: "string \<Rightarrow> nat \<Rightarrow> WorkerHello \<Rightarrow> int \<Rightarrow> gateway \<Rightarrow> gateway" where
  "register_worker wid conn hello now s =
     (let w = \<lparr>sess_ID = wid, sess_Conn = conn, sess_Hello = Some hello, sess_LastHeartbeat = now\<rparr>;
          s = s\<lparr>gw_workers := AList.update wid w (gw_workers s)\<rparr>
      in flushWorkerQueue wid w s)"

datatype connect_result = ConnUnauthorized | ConnDropped | ConnRegistered string

text \<open>\<open>first\<close> is the first message read, if one comes.\<close>

definition handleWorkerConnect ::
    "gateway_env \<Rightarrow> (string \<Rightarrow> string) \<Rightarrow> http_request \<Rightarrow> nat \<Rightarrow> Envelope option \<Rightarrow> int
     \<Rightarrow> config_store \<Rightarrow> gateway \<Rightarrow> connect_result \<times> gateway" where
  "handleWorkerConnect e h r conn first now cs s =
     (case connect_auth e h r s cs of Inl _ \<Rightarrow> (ConnUnauthorized, s)
      | Inr expected \<Rightarrow>
          (case first of None \<Rightarrow> (ConnDropped, s)
           | Some env \<Rightarrow>
               (case hello_worker_id expected now env of None \<Rightarrow> (ConnDropped, s)
                | Some (wid, hello) \<Rightarrow> (ConnRegistered wid, register_worker wid conn hello now s))))"

text \<open>
  The read loop's body for one message, and its end. A heartbeat goes to the connection's own
  session, which the map may no longer hold; the end removes whatever session the map holds.
\<close>

definition beat :: "nat \<Rightarrow> int \<Rightarrow> WorkerSession \<Rightarrow> WorkerSession" where
  "beat conn now w = (if sess_Conn w = conn then w\<lparr>sess_LastHeartbeat := now\<rparr> else w)"

definition worker_message :: "string \<Rightarrow> nat \<Rightarrow> Envelope \<Rightarrow> int \<Rightarrow> gateway \<Rightarrow> gateway" where
  "worker_message wid conn env now s =
     (if GetWorkerHeartbeat env \<noteq> None
      then s\<lparr>gw_workers := map (\<lambda>(k, w). (k, if k = wid then beat conn now w else w)) (gw_workers s)\<rparr>
      else if GetRunEvent env \<noteq> None \<and> env_StreamId env \<noteq> ''''
      then appendStreamEvent (env_StreamId env) env now s
      else s)"

definition worker_disconnect :: "string \<Rightarrow> gateway \<Rightarrow> gateway" where
  "worker_disconnect wid s = s\<lparr>gw_workers := AList.delete wid (gw_workers s)\<rparr>"

subsection \<open>Cleanup\<close>

text \<open>
  One tick. The first loop drops the finished streams, the second the idle ones that are not
  finished; it ranges over what the first has left. A subscribed stream stays.
\<close>

definition stale :: "int \<Rightarrow> (nat \<times> Envelope list) list \<Rightarrow> int \<Rightarrow> bool" where
  "stale cutoff subs t \<longleftrightarrow> \<not> t > cutoff \<and> subs = []"

definition drop_streams :: "(string \<Rightarrow> bool) \<Rightarrow> gateway \<Rightarrow> gateway" where
  "drop_streams dead s = s\<lparr>
     gw_events := (\<lambda>i. if dead i then [] else gw_events s i),
     gw_times := (\<lambda>i. if dead i then [] else gw_times s i),
     gw_lastAt := (\<lambda>i. if dead i then None else gw_lastAt s i),
     gw_subs := (\<lambda>i. if dead i then [] else gw_subs s i),
     gw_runs := filter (\<lambda>(i, _). \<not> dead i) (gw_runs s)\<rparr>"

definition done_dead :: "int \<Rightarrow> gateway \<Rightarrow> string \<Rightarrow> bool" where
  "done_dead cutoff s i = (case gw_doneAt s i of None \<Rightarrow> False | Some t \<Rightarrow> stale cutoff (gw_subs s i) t)"

definition idle_dead :: "int \<Rightarrow> gateway \<Rightarrow> string \<Rightarrow> bool" where
  "idle_dead cutoff s i =
     (case gw_lastAt s i of None \<Rightarrow> False
      | Some t \<Rightarrow> gw_doneAt s i = None \<and> stale cutoff (gw_subs s i) t)"

definition cleanup_tick :: "int \<Rightarrow> gateway \<Rightarrow> gateway" where
  "cleanup_tick now s =
     (let cutoff = now - streamRetention;
          dead = done_dead cutoff s;
          s = (drop_streams dead s)\<lparr>gw_doneAt := (\<lambda>i. if dead i then None else gw_doneAt s i)\<rparr>;
          s = drop_streams (idle_dead cutoff s) s
      in s\<lparr>gw_sessions := sweep_sessions now (gw_sessions s)\<rparr>)"

subsection \<open>Polling and posting events\<close>

record workerPollRequest =
  wp_WorkerID :: string
  wp_LastSeq :: "64 word"
  wp_MaxMessages :: int

definition clamp_max :: "int \<Rightarrow> nat" where
  "clamp_max n = (let n = (if n \<le> 0 then 100 else n); n = (if n > 1000 then 1000 else n) in nat n)"

fun poll_loop :: "64 word \<Rightarrow> nat \<Rightarrow> Envelope list \<Rightarrow> Envelope list \<Rightarrow> Envelope list \<Rightarrow> Envelope list \<times> Envelope list" where
  "poll_loop lastSeq mx [] out remaining = (out, remaining)"
| "poll_loop lastSeq mx (env # q) out remaining =
     (if env_Seq env \<le> lastSeq then poll_loop lastSeq mx q out remaining
      else if length out < mx then poll_loop lastSeq mx q (out @ [env]) remaining
      else poll_loop lastSeq mx q out (remaining @ [env]))"

definition poll_queue :: "workerPollRequest \<Rightarrow> gateway \<Rightarrow> Envelope list \<times> gateway" where
  "poll_queue req s =
     (let (out, remaining) = poll_loop (wp_LastSeq req) (clamp_max (wp_MaxMessages req))
            (gw_queue s (wp_WorkerID req)) [] []
      in (out, s\<lparr>gw_queue := (gw_queue s)(wp_WorkerID req := remaining)\<rparr>))"

text \<open>\<open>marshals\<close>: does a message marshal to JSON? One that does not is left out of the answer.\<close>

definition handleWorkerPoll ::
    "(Envelope \<Rightarrow> bool) \<Rightarrow> http_request \<Rightarrow> workerPollRequest option \<Rightarrow> gateway \<Rightarrow> (nat + Envelope list) \<times> gateway" where
  "handleWorkerPoll marshals r body s =
     (if \<not> checkBearerToken (gw_token s) r then (Inl 401, s)
      else (case body of None \<Rightarrow> (Inl 400, s)
            | Some req \<Rightarrow> (let (out, s) = poll_queue req s in (Inr (filter marshals out), s))))"

text \<open>A message of the body that does not decode is \<open>None\<close>; the answer is how many were taken.\<close>

fun events_loop :: "int \<Rightarrow> Envelope option list \<Rightarrow> nat \<Rightarrow> gateway \<Rightarrow> nat \<times> gateway" where
  "events_loop now [] accepted s = (accepted, s)"
| "events_loop now (None # ms) accepted s = events_loop now ms accepted s"
| "events_loop now (Some env # ms) accepted s =
     (if env_StreamId env = '''' then events_loop now ms accepted s
      else if GetRunEvent env = None then events_loop now ms accepted s
      else events_loop now ms (accepted + 1) (appendStreamEvent (env_StreamId env) env now s))"

definition handleWorkerEvents ::
    "http_request \<Rightarrow> Envelope option list option \<Rightarrow> int \<Rightarrow> gateway \<Rightarrow> (nat + nat) \<times> gateway" where
  "handleWorkerEvents r body now s =
     (if \<not> checkBearerToken (gw_token s) r then (Inl 401, s)
      else (case body of None \<Rightarrow> (Inl 400, s)
            | Some ms \<Rightarrow> (let (n, s) = events_loop now ms 0 s in (Inr n, s))))"

subsection \<open>Listing workers\<close>

record workerInfo =
  wi_ID :: string
  wi_Name :: string
  wi_Version :: string
  wi_Labels :: "string list"
  wi_SupportedRuntimes :: "string list"
  wi_LastSeen :: int

definition runtime_label :: "Runtime \<Rightarrow> string" where
  "runtime_label rt = to_lower (trim_prefix ''RUNTIME_'' (Runtime_String rt))"

definition list_workers :: "gateway \<Rightarrow> workerInfo list" where
  "list_workers s =
     List.map_filter (\<lambda>(wid, w). case sess_Hello w of None \<Rightarrow> None
        | Some h \<Rightarrow> Some \<lparr>wi_ID = wid, wi_Name = wh_Name h, wi_Version = wh_Version h,
            wi_Labels = wh_Labels h, wi_SupportedRuntimes = map runtime_label (wh_SupportedRuntimes h),
            wi_LastSeen = sess_LastHeartbeat w div 1000000\<rparr>) (gw_workers s)"

definition handleListWorkers :: "gateway_env \<Rightarrow> http_request \<Rightarrow> gateway \<Rightarrow> nat + workerInfo list" where
  "handleListWorkers e r s = (if \<not> checkToken e (gw_token s) r then Inl 401 else Inr (list_workers s))"

subsection \<open>Creating and cancelling runs\<close>

definition parseNetworkPolicy :: "string \<Rightarrow> NetworkPolicy option" where
  "parseNetworkPolicy s =
     (let v = to_lower (trim_space s) in
      if v \<in> {''none'', ''deny'', ''off''} then Some NETWORK_POLICY_NONE
      else if v \<in> {''allowlist'', ''allow-list''} then Some NETWORK_POLICY_ALLOWLIST
      else if v \<in> {''all'', ''allow''} then Some NETWORK_POLICY_ALL
      else None)"

definition parseApprovalPolicy :: "string \<Rightarrow> ApprovalPolicy option" where
  "parseApprovalPolicy s =
     (let v = to_lower (trim_space s) in
      if v = ''auto'' then Some APPROVAL_POLICY_AUTO
      else if v = ''ask'' then Some APPROVAL_POLICY_ASK
      else if v \<in> {''deny'', ''none''} then Some APPROVAL_POLICY_DENY
      else None)"

definition parseRuntime :: "string \<Rightarrow> Runtime" where
  "parseRuntime s =
     (let v = to_lower (trim_space s) in
      if v \<in> {''nano_agent'', ''nano-agent'', ''nano''} then RUNTIME_NANO_AGENT
      else if v \<in> {''claude_code'', ''claude-code'', ''claude''} then RUNTIME_CLAUDE_CODE
      else if v \<in> {''opencode'', ''open-code''} then RUNTIME_OPENCODE
      else if v = ''custom'' then RUNTIME_CUSTOM
      else RUNTIME_UNSPECIFIED)"

text \<open>The workers in the order the map is ranged over.\<close>

fun pick_scan :: "Runtime \<Rightarrow> (string \<times> WorkerSession) list \<Rightarrow> string" where
  "pick_scan rt [] = ''''"
| "pick_scan rt ((wid, w) # ws) =
     (case sess_Hello w of None \<Rightarrow> pick_scan rt ws
      | Some h \<Rightarrow>
          if list_ex (\<lambda>r. r = rt \<or> r = RUNTIME_CUSTOM) (wh_SupportedRuntimes h) then wid
          else pick_scan rt ws)"

definition pickWorkerForRuntime :: "Runtime \<Rightarrow> gateway \<Rightarrow> string" where
  "pickWorkerForRuntime rt s = pick_scan rt (gw_workers s)"

record createRunRequest =
  crq_Runtime :: string
  crq_Prompt :: string
  crq_SessionID :: string
  crq_WorkerID :: string
  crq_WorkspaceID :: string
  crq_TimeoutSeconds :: "32 word"
  crq_Resources :: "Capacity option"
  crq_Network :: string
  crq_Approval :: string

definition zero_capacity :: Capacity where
  "zero_capacity = \<lparr>cap_CpuMillis = 0, cap_MemoryBytes = 0, cap_Pids = 0, cap_DiskBytes = 0\<rparr>"

text \<open>The checks, in the code's order: an error's status and message, or the worker and the request.\<close>

definition prepare_run :: "createRunRequest \<Rightarrow> gateway \<Rightarrow> (nat \<times> string) + string \<times> RunRequest" where
  "prepare_run req s =
     (if trim_space (crq_Prompt req) = '''' then Inl (400, ''Bad Request'')
      else
        (let rt = parseRuntime (crq_Runtime req) in
         if rt = RUNTIME_UNSPECIFIED then Inl (400, ''Bad Request'')
         else
           (let wid = trim_space (crq_WorkerID req);
                wid = (if wid = '''' then pickWorkerForRuntime rt s else wid)
            in if wid = '''' then Inl (503, ''No worker available'')
               else
                 (let timeout = (if crq_TimeoutSeconds req = 0 then 300 else crq_TimeoutSeconds req);
                      network = (if trim_space (crq_Network req) \<noteq> '''' then parseNetworkPolicy (crq_Network req)
                                 else Some NETWORK_POLICY_ALL);
                      approval = (if trim_space (crq_Approval req) \<noteq> '''' then parseApprovalPolicy (crq_Approval req)
                                  else Some APPROVAL_POLICY_AUTO);
                      resources = (case crq_Resources req of None \<Rightarrow> zero_capacity | Some c \<Rightarrow> c)
                  in case network of None \<Rightarrow> Inl (400, ''Bad Request'')
                     | Some nw \<Rightarrow>
                         (case approval of None \<Rightarrow> Inl (400, ''Bad Request'')
                          | Some ap \<Rightarrow>
                              Inr (wid, \<lparr>rr_SessionId = crq_SessionID req, rr_Runtime = rt,
                                rr_Workspace = Some \<lparr>ws_WorkspaceId = crq_WorkspaceID req,
                                  ws_Source = Some WorkspaceSource_Empty, ws_MountMode = MOUNT_MODE_VOLUME,
                                  ws_Workdir = ''/workspace'', ws_Persistent = False\<rparr>,
                                rr_Input = Some \<lparr>in_Messages = [\<lparr>msg_Role = ROLE_USER,
                                  msg_Content = crq_Prompt req, msg_Name = ''''\<rparr>], in_Attachments = []\<rparr>,
                                rr_Policy = Some \<lparr>pol_TimeoutSeconds = timeout, pol_Resources = Some resources,
                                  pol_Network = nw, pol_Approval = ap\<rparr>,
                                rr_SecretsRef = ''''\<rparr>))))))"

definition run_id :: "int \<Rightarrow> string" where
  "run_id now = ''run-'' @ dec_of_int now"

text \<open>Recording the run takes the mutex anew, after the dispatch.\<close>

definition record_run :: "string \<Rightarrow> string \<Rightarrow> int \<Rightarrow> gateway \<Rightarrow> gateway" where
  "record_run rid wid now s =
     s\<lparr>gw_runs := AList.update rid wid (gw_runs s), gw_lastAt := (gw_lastAt s)(rid := Some now)\<rparr>"

record createRunResponse =
  cro_RunID :: string
  cro_WorkerID :: string
  cro_EventsURL :: string

definition createRun :: "createRunRequest \<Rightarrow> int \<Rightarrow> gateway \<Rightarrow> ((nat \<times> string) + createRunResponse) \<times> gateway" where
  "createRun req now s =
     (case prepare_run req s of Inl e \<Rightarrow> (Inl e, s)
      | Inr (wid, rr) \<Rightarrow>
          (let rid = run_id now;
               s = snd (DispatchRun wid rid rr s);
               s = record_run rid wid now s
           in (Inr \<lparr>cro_RunID = rid, cro_WorkerID = wid,
                    cro_EventsURL = ''/v1/runs/'' @ rid @ ''/events''\<rparr>, s)))"

definition handleCreateRun ::
    "gateway_env \<Rightarrow> http_request \<Rightarrow> createRunRequest option \<Rightarrow> int \<Rightarrow> gateway \<Rightarrow> ((nat \<times> string) + createRunResponse) \<times> gateway" where
  "handleCreateRun e r body now s =
     (if \<not> checkToken e (gw_token s) r then (Inl (401, ''Unauthorized''), s)
      else (case body of None \<Rightarrow> (Inl (400, ''Bad Request''), s) | Some req \<Rightarrow> createRun req now s))"

text \<open>A run that is not there reads as the empty worker.\<close>

definition handleCancelRun :: "gateway_env \<Rightarrow> http_request \<Rightarrow> string \<Rightarrow> gateway \<Rightarrow> nat \<times> gateway" where
  "handleCancelRun e r rid s =
     (if \<not> checkToken e (gw_token s) r then (401, s)
      else
        (let wid = (case map_of (gw_runs s) rid of None \<Rightarrow> '''' | Some w \<Rightarrow> w) in
         if wid = '''' then (404, s)
         else (200, snd (DispatchCancel wid rid ''cancel requested by client'' s))))"

subsection \<open>Event streams\<close>

text \<open>The three parts of \<^verbatim>\<open>handleRunEvents\<close>: subscribe and copy the history; take one
  message from the channel; unsubscribe.\<close>

definition subscribe :: "string \<Rightarrow> nat \<Rightarrow> gateway \<Rightarrow> Envelope list \<times> gateway" where
  "subscribe sid ch s = (gw_events s sid, s\<lparr>gw_subs := (gw_subs s)(sid := AList.update ch [] (gw_subs s sid))\<rparr>)"

definition receive :: "string \<Rightarrow> nat \<Rightarrow> gateway \<Rightarrow> Envelope option \<times> gateway" where
  "receive sid ch s =
     (case map_of (gw_subs s sid) ch of
        Some (env # rest) \<Rightarrow>
          (Some env, s\<lparr>gw_subs := (gw_subs s)(sid := AList.update ch rest (gw_subs s sid))\<rparr>)
      | _ \<Rightarrow> (None, s))"

definition unsubscribe :: "string \<Rightarrow> nat \<Rightarrow> gateway \<Rightarrow> gateway" where
  "unsubscribe sid ch s = s\<lparr>gw_subs := (gw_subs s)(sid := AList.delete ch (gw_subs s sid))\<rparr>"

end
