(* ===== verification/GatewayProps.thy ===== *)
theory GatewayProps
  imports Gateway "HOL-Library.Sublist"
begin

text \<open>
  What the gateway's steps guarantee: delivery of control messages (none lost, none doubled, in
  order), the bounds of its logs in every reachable state, event streams without gaps, the
  retention of finished runs, and which worker a connection may register as.
\<close>

interpretation control_log: bounded_log push_control maxWorkerQueuePerWorker
  by unfold_locales (simp add: push_control_def keep_last_def Let_def)

interpretation stream_log: bounded_log push_stream maxStreamEventsPerStream
  by unfold_locales (simp add: push_stream_def keep_last_def Let_def)

subsection \<open>Polling\<close>

lemma poll_loop_split:
  "poll_loop lastSeq mx q out rest = (out', rest') \<Longrightarrow> rest \<noteq> [] \<longrightarrow> mx \<le> length out \<Longrightarrow>
     out' @ rest' = out @ rest @ filter (\<lambda>e. lastSeq < env_Seq e) q
     \<and> length out' \<le> max mx (length out) \<and> (rest' \<noteq> [] \<longrightarrow> mx \<le> length out')"
proof (induction lastSeq mx q out rest rule: poll_loop.induct)
  case (1 lastSeq mx out rest)
  then show ?case by auto
next
  case (2 lastSeq mx env q out rest)
  show ?case
  proof (cases "env_Seq env \<le> lastSeq")
    case True
    then show ?thesis using 2 by auto
  next
    case False
    show ?thesis
    proof (cases "length out < mx")
      case True
      then have r: "rest = []" using 2(5) by auto
      have "poll_loop lastSeq mx q (out @ [env]) rest = (out', rest')" using 2(4) True False by simp
      from "2.IH"(2) [OF False True this] True False r show ?thesis by (auto simp: not_le)
    next
      case F: False
      have "poll_loop lastSeq mx q out (rest @ [env]) = (out', rest')" using 2(4) F False by simp
      from "2.IH"(3) [OF False F this] F False show ?thesis by (auto simp: not_le)
    qed
  qed
qed

lemma clamp_max_range: "0 < clamp_max n \<and> clamp_max n \<le> 1000"
  by (auto simp: clamp_max_def Let_def)

text \<open>C24: A poll loses nothing: what it returns followed by what stays queued is exactly the queue
  without the messages the worker acknowledged, in order; it returns at most as many as asked for,
  and leaves some queued only when it returned that many; other workers' queues are untouched.\<close>

theorem poll_partitions_queue:
  assumes "poll_queue req s = (out, s')"
  shows "out @ gw_queue s' (wp_WorkerID req) = filter (\<lambda>e. wp_LastSeq req < env_Seq e) (gw_queue s (wp_WorkerID req))
    \<and> length out \<le> clamp_max (wp_MaxMessages req)
    \<and> (gw_queue s' (wp_WorkerID req) \<noteq> [] \<longrightarrow> length out = clamp_max (wp_MaxMessages req))
    \<and> (\<forall>w. w \<noteq> wp_WorkerID req \<longrightarrow> gw_queue s' w = gw_queue s w)"
proof -
  obtain out' rest where p: "poll_loop (wp_LastSeq req) (clamp_max (wp_MaxMessages req))
      (gw_queue s (wp_WorkerID req)) [] [] = (out', rest)" by fastforce
  then have "out = out'" "s' = s\<lparr>gw_queue := (gw_queue s)(wp_WorkerID req := rest)\<rparr>"
    using assms by (auto simp: poll_queue_def)
  with poll_loop_split [OF p] show ?thesis by auto
qed

subsection \<open>Dispatch and flush\<close>

lemma writeWorkerEnvelope_cases:
  assumes "writeWorkerEnvelope w env s = (ok, s')"
  obtains "ok" "s' = s\<lparr>gw_faults := tl (gw_faults s), gw_sent := gw_sent s @ [(sess_Conn w, env)]\<rparr>"
    | "\<not> ok" "s' = s\<lparr>gw_faults := tl (gw_faults s)\<rparr>"
  using assms by (cases "gw_faults s") (auto simp: writeWorkerEnvelope_def split: if_splits)

definition dispatched :: "string \<Rightarrow> string \<Rightarrow> Envelope_Message \<Rightarrow> gateway \<Rightarrow> Envelope" where
  "dispatched wid streamID m s = \<lparr>env_ProtocolVersion = ''1.0'', env_TunnelId = '''', env_WorkerId = wid,
     env_StreamId = streamID, env_Seq = gw_seq s + 1, env_Message = Some m\<rparr>"

lemma dispatch_cases:
  assumes "dispatch wid streamID m s = (ok, s')"
  obtains (queued) fs where "s' = enqueueControl wid (dispatched wid streamID m s) (s\<lparr>gw_seq := gw_seq s + 1, gw_faults := fs\<rparr>)"
      "ok \<longleftrightarrow> map_of (gw_workers s) wid = None"
    | (sent) w fs where "map_of (gw_workers s) wid = Some w" "ok"
      "s' = s\<lparr>gw_seq := gw_seq s + 1, gw_faults := fs, gw_sent := gw_sent s @ [(sess_Conn w, dispatched wid streamID m s)]\<rparr>"
proof (cases "map_of (gw_workers s) wid")
  case None
  then have "ok" "s' = enqueueControl wid (dispatched wid streamID m s) (s\<lparr>gw_seq := gw_seq s + 1, gw_faults := gw_faults s\<rparr>)"
    using assms by (auto simp: dispatch_def nextSeq_def dispatched_def)
  then show thesis using queued None by blast
next
  case (Some w)
  obtain ok1 s1 where w1: "writeWorkerEnvelope w (dispatched wid streamID m s) (s\<lparr>gw_seq := gw_seq s + 1\<rparr>) = (ok1, s1)"
    by fastforce
  have R: "ok = ok1" "s' = (if ok1 then s1 else enqueueControl wid (dispatched wid streamID m s) s1)"
    using assms Some w1 by (auto simp: dispatch_def nextSeq_def dispatched_def split: if_splits)
  from w1 show thesis
  proof (cases rule: writeWorkerEnvelope_cases)
    case 1
    then show thesis using sent [OF Some, of "tl (gw_faults s)"] R by simp
  next
    case 2
    then show thesis using queued [of "tl (gw_faults s)"] R Some by simp
  qed
qed

text \<open>C23: A control message is never lost and never doubled at dispatch: with the next sequence
  number it is written to the worker's connection or, where the worker is not connected or the
  write fails, becomes the newest message of the worker's queue, which drops its oldest ones
  only beyond a thousand; nothing else about connections, queues and streams changes.\<close>

theorem dispatch_delivers_or_queues:
  assumes "dispatch wid streamID m s = (ok, s')"
  shows "gw_seq s' = gw_seq s + 1 \<and> gw_workers s' = gw_workers s \<and> gw_events s' = gw_events s
    \<and> (\<forall>v. v \<noteq> wid \<longrightarrow> gw_queue s' v = gw_queue s v)
    \<and> ((\<exists>w. map_of (gw_workers s) wid = Some w \<and> ok
          \<and> gw_sent s' = gw_sent s @ [(sess_Conn w, dispatched wid streamID m s)] \<and> gw_queue s' wid = gw_queue s wid)
      \<or> (gw_sent s' = gw_sent s
          \<and> gw_queue s' wid = keep_last maxWorkerQueuePerWorker (gw_queue s wid @ [dispatched wid streamID m s])
          \<and> (map_of (gw_workers s) wid = None \<longleftrightarrow> ok)))"
  using assms
proof (cases rule: dispatch_cases)
  case (queued fs)
  then show ?thesis by (auto simp: enqueueControl_def control_log.push_newest)
next
  case (sent w fs)
  then show ?thesis by simp
qed

lemma fold_enqueueControl:
  "fold (enqueueControl wid) envs s = s\<lparr>gw_queue := (gw_queue s)(wid := fold push_control envs (gw_queue s wid))\<rparr>"
  by (induction envs arbitrary: s) (simp_all add: enqueueControl_def)

lemma flush_loop_split:
  assumes "flush_loop wid w envs s = s'" "gw_queue s wid = []"
  shows "\<exists>written left fs. envs = written @ left
    \<and> s' = s\<lparr>gw_faults := fs, gw_sent := gw_sent s @ map (Pair (sess_Conn w)) written,
             gw_queue := (gw_queue s)(wid := fold push_control left [])\<rparr>"
  using assms
proof (induction envs arbitrary: s s')
  case Nil
  then have "(gw_queue s)(wid := fold push_control [] []) = gw_queue s" by (simp add: fun_upd_idem)
  with Nil show ?case
    by (intro exI [of _ "[]"] exI [of _ "gw_faults s"]) (simp del: fun_upd_apply)
next
  case (Cons env envs)
  obtain ok s1 where w1: "writeWorkerEnvelope w env s = (ok, s1)" by fastforce
  from w1 show ?case
  proof (cases rule: writeWorkerEnvelope_cases)
    case 1
    have "flush_loop wid w envs s1 = s'" "gw_queue s1 wid = []" using Cons.prems 1 w1 by auto
    from Cons.IH [OF this] obtain written left fs where
      "envs = written @ left" "s' = s1\<lparr>gw_faults := fs, gw_sent := gw_sent s1 @ map (Pair (sess_Conn w)) written,
             gw_queue := (gw_queue s1)(wid := fold push_control left [])\<rparr>" by blast
    then have "env # envs = (env # written) @ left" "s' = s\<lparr>gw_faults := fs,
        gw_sent := gw_sent s @ map (Pair (sess_Conn w)) (env # written),
        gw_queue := (gw_queue s)(wid := fold push_control left [])\<rparr>"
      using 1(2) by simp_all
    then show ?thesis by blast
  next
    case 2
    have "s' = fold (enqueueControl wid) (env # envs) s1" using Cons.prems 2 w1 by simp
    then have "s' = s1\<lparr>gw_queue := (gw_queue s1)(wid := fold push_control (env # envs) (gw_queue s1 wid))\<rparr>"
      by (simp only: fold_enqueueControl)
    then have "env # envs = [] @ (env # envs)" "s' = s\<lparr>gw_faults := tl (gw_faults s),
        gw_sent := gw_sent s @ map (Pair (sess_Conn w)) [],
        gw_queue := (gw_queue s)(wid := fold push_control (env # envs) [])\<rparr>"
      using 2(2) Cons.prems(2) by simp_all
    then show ?thesis by blast
  qed
qed

text \<open>When a worker registers, its queued messages are written to the new connection in order, up
  to the first write that fails; from there on they are queued again in order, so none is lost or
  doubled and the connection has received a prefix of the queue.\<close>

theorem register_flushes_in_order:
  assumes "register_worker wid conn hello now s = s'" "length (gw_queue s wid) \<le> maxWorkerQueuePerWorker"
  shows "\<exists>written. gw_queue s wid = written @ gw_queue s' wid
    \<and> gw_sent s' = gw_sent s @ map (Pair conn) written
    \<and> (gw_faults s = [] \<longrightarrow> gw_queue s' wid = [])
    \<and> (\<exists>w. map_of (gw_workers s') wid = Some w \<and> sess_Conn w = conn \<and> sess_Hello w = Some hello)"
proof -
  define w where "w = \<lparr>sess_ID = wid, sess_Conn = conn, sess_Hello = Some hello, sess_LastHeartbeat = now\<rparr>"
  define t where "t = s\<lparr>gw_workers := AList.update wid w (gw_workers s), gw_queue := (gw_queue s)(wid := [])\<rparr>"
  have f: "flush_loop wid w (gw_queue s wid) t = s'"
    using assms(1) by (simp add: register_worker_def flushWorkerQueue_def w_def t_def Let_def)
  from flush_loop_split [OF this] obtain written left fs where
    q: "gw_queue s wid = written @ left" and
    s': "s' = t\<lparr>gw_faults := fs, gw_sent := gw_sent t @ map (Pair (sess_Conn w)) written,
             gw_queue := (gw_queue t)(wid := fold push_control left [])\<rparr>" by (auto simp: t_def)
  have "fold push_control left [] = left"
    using assms(2) q by (simp add: control_log.fold_push_empty keep_last_id)
  moreover have "gw_queue s' wid = []" if "gw_faults s = []"
  proof -
    have "flush_loop wid w envs u = u\<lparr>gw_sent := gw_sent u @ map (Pair conn) envs\<rparr>" if "gw_faults u = []" for envs u
      using that by (induction envs arbitrary: u) (auto simp: writeWorkerEnvelope_def w_def)
    moreover have "gw_faults t = []" using that by (simp add: t_def)
    ultimately have "s' = t\<lparr>gw_sent := gw_sent t @ map (Pair conn) (gw_queue s wid)\<rparr>"
      using f by metis
    then have "gw_queue s' = gw_queue t" by simp
    then show ?thesis by (simp add: t_def)
  qed
  ultimately show ?thesis using q s' by (auto simp: t_def w_def)
qed

subsection \<open>Reachable states\<close>

text \<open>Every step of the gateway; creating a run is its two steps, so that others may come between. The gateway
  starts with any list of faults to come, so that every write to a connection may fail.\<close>

inductive gw_step :: "gateway \<Rightarrow> gateway \<Rightarrow> bool" where
  step_connect: "gw_step s (snd (handleWorkerConnect e h r conn hello now cs s))"
| step_message: "gw_step s (worker_message wid conn env now s)"
| step_disconnect: "gw_step s (worker_disconnect wid s)"
| step_poll: "gw_step s (snd (handleWorkerPoll marshals r body s))"
| step_events: "gw_step s (snd (handleWorkerEvents r evs now s))"
| step_dispatch: "gw_step s (snd (dispatch wid rid m s))"
| step_record: "gw_step s (record_run rid wid now s)"
| step_create: "gw_step s (snd (handleCreateRun e r crq now s))"
| step_cancel: "gw_step s (snd (handleCancelRun e r rid s))"
| step_subscribe: "gw_step s (snd (subscribe sid ch s))"
| step_receive: "gw_step s (snd (receive sid ch s))"
| step_unsubscribe: "gw_step s (unsubscribe sid ch s)"
| step_cleanup: "gw_step s (cleanup_tick now s)"
| step_login: "gw_step s (s\<lparr>gw_sessions := snd (handleConsoleLogin e (gw_token s) rand now form (gw_sessions s))\<rparr>)"
| step_logout: "gw_step s (s\<lparr>gw_sessions := handleConsoleLogout r (gw_sessions s)\<rparr>)"
| step_check: "gw_step s (s\<lparr>gw_sessions := snd (consoleSessionValid (gw_token s) now r (gw_sessions s))\<rparr>)"

inductive_cases gw_stepE: "gw_step s s'"

inductive gw_reach :: "string \<Rightarrow> gateway \<Rightarrow> bool" for token where
  reach_start: "gw_reach token ((NewGatewayServer token)\<lparr>gw_faults := fs\<rparr>)"
| reach_step: "gw_reach token s \<Longrightarrow> gw_step s s' \<Longrightarrow> gw_reach token s'"

text \<open>The bounds: the logs are within their limits, every stored event has its time, and no stream holds
  anything that the cleanup would not find by its last activity.\<close>

definition gw_bounded :: "gateway \<Rightarrow> bool" where
  "gw_bounded s \<longleftrightarrow>
     (\<forall>w. length (gw_queue s w) \<le> maxWorkerQueuePerWorker)
   \<and> (\<forall>i. length (gw_events s i) \<le> maxStreamEventsPerStream \<and> length (gw_times s i) = length (gw_events s i))
   \<and> (\<forall>i. \<forall>sub \<in> set (gw_subs s i). length (snd sub) \<le> subscriber_buffer)
   \<and> (\<forall>i. gw_events s i \<noteq> [] \<or> gw_doneAt s i \<noteq> None \<longrightarrow> gw_lastAt s i \<noteq> None)"

lemma gw_boundedD:
  assumes "gw_bounded s"
  shows "length (gw_queue s w) \<le> maxWorkerQueuePerWorker" "length (gw_events s i) \<le> maxStreamEventsPerStream"
    "length (gw_times s i) = length (gw_events s i)" "sub \<in> set (gw_subs s i) \<Longrightarrow> length (snd sub) \<le> subscriber_buffer"
    "gw_events s i \<noteq> [] \<Longrightarrow> gw_lastAt s i \<noteq> None" "gw_doneAt s i \<noteq> None \<Longrightarrow> gw_lastAt s i \<noteq> None"
  using assms unfolding gw_bounded_def by blast+

lemma gw_bounded_frame [simp, gateway_simps]:
  "gw_bounded (s\<lparr>gw_workers := a\<rparr>) = gw_bounded s"
  "gw_bounded (s\<lparr>gw_seq := b\<rparr>) = gw_bounded s"
  "gw_bounded (s\<lparr>gw_sent := c\<rparr>) = gw_bounded s"
  "gw_bounded (s\<lparr>gw_faults := d\<rparr>) = gw_bounded s"
  "gw_bounded (s\<lparr>gw_sessions := f\<rparr>) = gw_bounded s"
  "gw_bounded (s\<lparr>gw_runs := g\<rparr>) = gw_bounded s"
  by (simp_all add: gw_bounded_def)

lemma enqueueControl_bounded [gateway_simps]: "gw_bounded s \<Longrightarrow> gw_bounded (enqueueControl wid env s)"
  using control_log.push_bound by (simp add: gw_bounded_def enqueueControl_def)

lemma dispatch_bounded: "gw_bounded s \<Longrightarrow> gw_bounded (snd (dispatch wid rid m s))"
proof -
  assume s: "gw_bounded s"
  obtain ok s' where d: "dispatch wid rid m s = (ok, s')" by fastforce
  from d s have "gw_bounded s'" by (cases rule: dispatch_cases) (simp_all add: enqueueControl_bounded)
  with d show ?thesis by simp
qed

lemma appendStreamEvent_events:
  "gw_events (appendStreamEvent sid env now s) i = (if i = sid then push_stream env (gw_events s sid) else gw_events s i)"
  by (simp add: appendStreamEvent_def Let_def push_stream_def)

lemma appendStreamEvent_times:
  "length (gw_times s sid) = length (gw_events s sid) \<Longrightarrow>
   gw_times (appendStreamEvent sid env now s) i = (if i = sid then push_stream now (gw_times s sid) else gw_times s i)"
  by (simp add: appendStreamEvent_def Let_def push_stream_def)

lemma appendStreamEvent_other:
  "gw_queue (appendStreamEvent sid env now s) = gw_queue s"
  "gw_workers (appendStreamEvent sid env now s) = gw_workers s"
  "gw_sent (appendStreamEvent sid env now s) = gw_sent s"
  "gw_token (appendStreamEvent sid env now s) = gw_token s"
  "gw_lastAt (appendStreamEvent sid env now s) = (gw_lastAt s)(sid := Some now)"
  "gw_doneAt (appendStreamEvent sid env now s) = (if completes env then (gw_doneAt s)(sid := Some now) else gw_doneAt s)"
  "gw_runs (appendStreamEvent sid env now s) = (if completes env then AList.delete sid (gw_runs s) else gw_runs s)"
  "gw_subs (appendStreamEvent sid env now s) = (gw_subs s)(sid := map (offer env) (gw_subs s sid))"
  by (simp_all add: appendStreamEvent_def Let_def)

lemma push_stream_length: "length xs = length ys \<Longrightarrow> length (push_stream x xs) = length (push_stream y ys)"
  by (simp add: push_stream_def Let_def)

lemma appendStreamEvent_bounded [gateway_simps]:
  assumes "gw_bounded s"
  shows "gw_bounded (appendStreamEvent sid env now s)"
proof -
  let ?s = "appendStreamEvent sid env now s"
  note B = gw_boundedD [OF assms]
  have "length (gw_queue ?s w) \<le> maxWorkerQueuePerWorker" for w
    using B(1) by (simp add: appendStreamEvent_other)
  moreover have "length (gw_events ?s i) \<le> maxStreamEventsPerStream" for i
    using B(2) by (simp add: appendStreamEvent_events stream_log.push_bound)
  moreover have "length (gw_times ?s i) = length (gw_events ?s i)" for i
    using B(3) by (simp add: appendStreamEvent_events appendStreamEvent_times push_stream_length)
  moreover have "\<forall>sub \<in> set (gw_subs ?s i). length (snd sub) \<le> subscriber_buffer" for i
    using B(4) by (auto simp: appendStreamEvent_other offer_def)
  moreover have "gw_events ?s i \<noteq> [] \<or> gw_doneAt ?s i \<noteq> None \<longrightarrow> gw_lastAt ?s i \<noteq> None" for i
    using B(5,6) by (auto simp: appendStreamEvent_events appendStreamEvent_other)
  ultimately show ?thesis by (simp add: gw_bounded_def)
qed

lemma flushWorkerQueue_bounded:
  assumes "gw_bounded s"
  shows "gw_bounded (flushWorkerQueue wid w s)"
proof -
  define t where "t = s\<lparr>gw_queue := (gw_queue s)(wid := [])\<rparr>"
  obtain written left fs where
    f: "flush_loop wid w (gw_queue s wid) t = t\<lparr>gw_faults := fs, gw_sent := gw_sent t @ map (Pair (sess_Conn w)) written,
             gw_queue := (gw_queue t)(wid := fold push_control left [])\<rparr>"
    using flush_loop_split [OF refl, where s = t and wid = wid and w = w and envs = "gw_queue s wid"] by (auto simp: t_def)
  have "length (fold push_control left []) \<le> maxWorkerQueuePerWorker"
    by (simp add: control_log.fold_push_empty)
  then show ?thesis
    using assms f by (auto simp: flushWorkerQueue_def t_def [symmetric]) (simp add: gw_bounded_def t_def)
qed

lemma poll_queue_bounded: "gw_bounded s \<Longrightarrow> gw_bounded (snd (poll_queue req s))"
proof -
  assume s: "gw_bounded s"
  obtain out rest where p: "poll_loop (wp_LastSeq req) (clamp_max (wp_MaxMessages req))
      (gw_queue s (wp_WorkerID req)) [] [] = (out, rest)" by fastforce
  from poll_loop_split [OF p] have "length rest \<le> length (gw_queue s (wp_WorkerID req))"
    by (metis append_Nil length_append length_filter_le le_add2 le_trans)
  then have "length rest \<le> maxWorkerQueuePerWorker" using gw_boundedD(1) [OF s] le_trans by blast
  with s p show ?thesis by (simp add: poll_queue_def gw_bounded_def)
qed

lemma events_loop_bounded: "gw_bounded s \<Longrightarrow> gw_bounded (snd (events_loop now ms n s))"
  by (induction now ms n s rule: events_loop.induct) (auto simp: appendStreamEvent_bounded)

lemma drop_streams_bounded: "gw_bounded s \<Longrightarrow> (\<And>i. dead i \<Longrightarrow> gw_doneAt s i = None) \<Longrightarrow> gw_bounded (drop_streams dead s)"
  by (auto simp: gw_bounded_def drop_streams_def)

lemma cleanup_bounded: "gw_bounded s \<Longrightarrow> gw_bounded (cleanup_tick now s)"
proof -
  assume s: "gw_bounded s"
  define c where "c = now - streamRetention"
  define t where "t = (drop_streams (done_dead c s) s)\<lparr>gw_doneAt := (\<lambda>i. if done_dead c s i then None else gw_doneAt s i)\<rparr>"
  have "gw_bounded t" using s by (auto simp: t_def drop_streams_def gw_bounded_def)
  then have "gw_bounded (drop_streams (idle_dead c t) t)"
    by (rule drop_streams_bounded) (auto simp: idle_dead_def split: option.splits)
  then show ?thesis by (simp add: cleanup_tick_def Let_def c_def [symmetric] t_def [symmetric])
qed

lemma register_bounded: "gw_bounded s \<Longrightarrow> gw_bounded (register_worker wid conn hello now s)"
  by (simp add: register_worker_def Let_def flushWorkerQueue_bounded)

lemma connect_bounded: "gw_bounded s \<Longrightarrow> gw_bounded (snd (handleWorkerConnect e h r conn first_msg now cs s))"
  by (auto simp: handleWorkerConnect_def register_bounded split: sum.splits option.splits)

lemma subs_bounded:
  assumes "gw_bounded s" "\<forall>sub \<in> set subs. length (snd sub) \<le> subscriber_buffer"
  shows "gw_bounded (s\<lparr>gw_subs := (gw_subs s)(sid := subs)\<rparr>)"
  using assms by (auto simp: gw_bounded_def)

lemma set_update_subset: "set (AList.update k v al) \<subseteq> insert (k, v) (set al)"
  by (induction al) auto

lemma receive_bounded: "gw_bounded s \<Longrightarrow> gw_bounded (snd (receive sid ch s))"
proof -
  assume s: "gw_bounded s"
  show ?thesis
  proof (cases "map_of (gw_subs s sid) ch")
    case None
    with s show ?thesis by (simp add: receive_def)
  next
    case (Some q)
    show ?thesis
    proof (cases q)
      case Nil
      with s Some show ?thesis by (simp add: receive_def)
    next
      case (Cons env rest)
      have "length rest \<le> subscriber_buffer"
        using gw_boundedD(4) [OF s map_of_SomeD [OF Some]] Cons by simp
      then have "\<forall>sub \<in> set (AList.update ch rest (gw_subs s sid)). length (snd sub) \<le> subscriber_buffer"
        using gw_boundedD(4) [OF s] set_update_subset [of ch rest "gw_subs s sid"] by fastforce
      with subs_bounded [OF s] Some Cons show ?thesis by (simp add: receive_def)
    qed
  qed
qed

lemma subscribe_bounded: "gw_bounded s \<Longrightarrow> gw_bounded (snd (subscribe sid ch s))"
proof -
  assume s: "gw_bounded s"
  have "\<forall>sub \<in> set (AList.update ch [] (gw_subs s sid)). length (snd sub) \<le> subscriber_buffer"
    using gw_boundedD(4) [OF s] set_update_subset [of ch "[]" "gw_subs s sid"] by fastforce
  with subs_bounded [OF s] show ?thesis by (simp add: subscribe_def)
qed

lemma unsubscribe_bounded: "gw_bounded s \<Longrightarrow> gw_bounded (unsubscribe sid ch s)"
proof -
  assume s: "gw_bounded s"
  have "\<forall>sub \<in> set (AList.delete ch (gw_subs s sid)). length (snd sub) \<le> subscriber_buffer"
    using gw_boundedD(4) [OF s] by (auto simp: AList.delete_eq)
  with subs_bounded [OF s] show ?thesis by (simp add: unsubscribe_def)
qed

lemma record_run_bounded: "gw_bounded s \<Longrightarrow> gw_bounded (record_run rid wid now s)"
  by (auto simp: record_run_def gw_bounded_def)

lemma createRun_bounded: "gw_bounded s \<Longrightarrow> gw_bounded (snd (createRun req now s))"
  by (auto simp: createRun_def Let_def DispatchRun_def record_run_bounded dispatch_bounded split: sum.split)

lemma gw_step_bounded: "gw_step s s' \<Longrightarrow> gw_bounded s \<Longrightarrow> gw_bounded s'"
proof (induction rule: gw_step.induct)
  case (step_message s wid conn env now)
  then show ?case by (simp add: worker_message_def appendStreamEvent_bounded)
next
  case (step_poll s marshals r body)
  then show ?case
    using poll_queue_bounded by (auto simp: handleWorkerPoll_def split: option.split prod.split) (metis snd_conv)
next
  case (step_events s r evs now)
  then show ?case
    using events_loop_bounded by (auto simp: handleWorkerEvents_def split: option.split prod.split) (metis snd_conv)
qed (simp_all add: connect_bounded worker_disconnect_def dispatch_bounded record_run_bounded handleCreateRun_def
      createRun_bounded handleCancelRun_def DispatchCancel_def Let_def subscribe_bounded receive_bounded
      unsubscribe_bounded cleanup_bounded split: option.split)

text \<open>C21: In every reachable state of the gateway, whichever writes to connections fail, no control queue holds more than a thousand messages,
  no stream more than two thousand events, each with its time, no subscriber's buffer more than
  sixty-four, and every stream that holds an event or is marked finished has a time of last
  activity, so that the cleanup finds it.\<close>

theorem gateway_stays_bounded:
  assumes "gw_reach token s"
  shows "length (gw_queue s w) \<le> 1000 \<and> length (gw_events s i) \<le> 2000
    \<and> length (gw_times s i) = length (gw_events s i)
    \<and> (\<forall>(ch, buf) \<in> set (gw_subs s i). length buf \<le> 64)
    \<and> (gw_events s i \<noteq> [] \<or> gw_doneAt s i \<noteq> None \<longrightarrow> gw_lastAt s i \<noteq> None)"
proof -
  have "gw_bounded s" using assms
  proof (induction rule: gw_reach.induct)
    case reach_start
    then show ?case by (simp add: gw_bounded_def NewGatewayServer_def)
  next
    case (reach_step s s')
    then show ?case using gw_step_bounded by blast
  qed
  from gw_boundedD [OF this] show ?thesis
    by (auto simp: maxWorkerQueuePerWorker_def maxStreamEventsPerStream_def subscriber_buffer_def)
qed

subsection \<open>One subscriber\<close>

datatype sub_op = SubAppend Envelope int | SubReceive

text \<open>What happens to a stream while one subscriber listens: events arrive and the subscriber reads.\<close>

fun sub_run :: "string \<Rightarrow> nat \<Rightarrow> sub_op list \<Rightarrow> gateway \<Rightarrow> Envelope list \<times> gateway" where
  "sub_run sid ch [] s = ([], s)"
| "sub_run sid ch (SubAppend env now # ops) s = sub_run sid ch ops (appendStreamEvent sid env now s)"
| "sub_run sid ch (SubReceive # ops) s =
     (case receive sid ch s of (None, s) \<Rightarrow> sub_run sid ch ops s
      | (Some env, s) \<Rightarrow> (let (got, s) = sub_run sid ch ops s in (env # got, s)))"

fun appended :: "sub_op list \<Rightarrow> Envelope list" where
  "appended [] = []"
| "appended (SubAppend env now # ops) = env # appended ops"
| "appended (SubReceive # ops) = appended ops"

text \<open>The buffer has room whenever an event arrives.\<close>

fun keeps_up :: "nat \<Rightarrow> sub_op list \<Rightarrow> bool" where
  "keeps_up n [] = True"
| "keeps_up n (SubAppend env now # ops) = (n < subscriber_buffer \<and> keeps_up (n + 1) ops)"
| "keeps_up n (SubReceive # ops) = keeps_up (n - 1) ops"

lemma map_of_offer:
  "map_of (map (offer env) subs) ch =
     map_option (\<lambda>b. if length b < subscriber_buffer then b @ [env] else b) (map_of subs ch)"
  by (induction subs) (auto simp: offer_def)

lemma receive_buffer:
  assumes "map_of (gw_subs s sid) ch = Some buf" "receive sid ch s = (e, s')"
  shows "(buf = [] \<and> e = None \<and> s' = s) \<or> (\<exists>x rest. buf = x # rest \<and> e = Some x \<and> map_of (gw_subs s' sid) ch = Some rest
       \<and> gw_events s' = gw_events s)"
  using assms by (cases buf) (auto simp: receive_def)

lemma sub_run_delivers:
  assumes "map_of (gw_subs s sid) ch = Some buf" "sub_run sid ch ops s = (got, s')"
  shows "\<exists>buf'. map_of (gw_subs s' sid) ch = Some buf'
    \<and> subseq (got @ buf') (buf @ appended ops)
    \<and> (keeps_up (length buf) ops \<longrightarrow> got @ buf' = buf @ appended ops)
    \<and> gw_events s' sid = fold push_stream (appended ops) (gw_events s sid)"
  using assms
proof (induction sid ch ops s arbitrary: buf got s' rule: sub_run.induct)
  case (1 sid ch s)
  then show ?case by simp
next
  case (2 sid ch env now ops s)
  define buf1 where "buf1 = (if length buf < subscriber_buffer then buf @ [env] else buf)"
  have m: "map_of (gw_subs (appendStreamEvent sid env now s) sid) ch = Some buf1"
    using 2(2) by (simp add: appendStreamEvent_other map_of_offer buf1_def)
  have r: "sub_run sid ch ops (appendStreamEvent sid env now s) = (got, s')" using 2(3) by simp
  from "2.IH" [OF m r] obtain buf' where b: "map_of (gw_subs s' sid) ch = Some buf'"
    "subseq (got @ buf') (buf1 @ appended ops)" "keeps_up (length buf1) ops \<longrightarrow> got @ buf' = buf1 @ appended ops"
    "gw_events s' sid = fold push_stream (appended ops) (push_stream env (gw_events s sid))"
    by (auto simp: appendStreamEvent_events)
  have "subseq (buf1 @ appended ops) (buf @ env # appended ops)"
    by (auto simp: buf1_def intro!: list_emb_append_mono [OF subseq_order.refl])
  with b show ?case by (auto simp: buf1_def intro: subseq_order.trans)
next
  case (3 sid ch ops s)
  obtain e s1 where rc: "receive sid ch s = (e, s1)" by fastforce
  from receive_buffer [OF 3(3) rc] show ?case
  proof (elim disjE conjE exE)
    assume "buf = []" "e = None" "s1 = s"
    with 3 rc show ?thesis by simp
  next
    fix x rest
    assume x: "buf = x # rest" "e = Some x" "map_of (gw_subs s1 sid) ch = Some rest" "gw_events s1 = gw_events s"
    obtain got1 where g: "sub_run sid ch ops s1 = (got1, s')" "got = x # got1"
      using 3(4) rc x(2) by (auto split: prod.splits)
    from "3.IH"(2) [OF rc [symmetric] x(2) x(3) g(1)] g(2) x(1,4) show ?thesis by auto
  qed
qed

text \<open>A subscriber that keeps up sees the stream without gap or repetition: the history it is given
  at the subscription, then what it has read, then what its buffer holds, are the stored events of
  the moment it subscribed followed by every event that has arrived since, in order. One that
  does not keep up loses events but never sees one twice or out of order.\<close>

theorem subscriber_sees_stream:
  assumes "subscribe sid ch s = (hist, s1)" "sub_run sid ch ops s1 = (got, s2)"
  shows "\<exists>buf. map_of (gw_subs s2 sid) ch = Some buf \<and> hist = gw_events s sid
    \<and> subseq (hist @ got @ buf) (gw_events s sid @ appended ops)
    \<and> (keeps_up 0 ops \<longrightarrow> hist @ got @ buf = gw_events s sid @ appended ops)
    \<and> gw_events s2 sid = fold push_stream (appended ops) (gw_events s sid)"
proof -
  have 1: "map_of (gw_subs s1 sid) ch = Some []" "hist = gw_events s sid" "gw_events s1 = gw_events s"
    using assms(1) by (auto simp: subscribe_def)
  from sub_run_delivers [OF 1(1) assms(2)] 1 show ?thesis
    by (auto intro!: list_emb_append_mono [OF subseq_order.refl])
qed

subsection \<open>Retention\<close>

text \<open>A cleanup removes exactly the streams that nobody listens to and whose last relevant time, the
  completion of a finished stream and the last activity of another, is ten minutes or more ago,
  and with them the record of their runs; all other streams and runs stay as they were.\<close>

theorem cleanup_removes_exactly_stale:
  "(let gone = (\<lambda>i. gw_subs s i = [] \<and>
        (case gw_doneAt s i of Some t \<Rightarrow> t \<le> now - streamRetention
         | None \<Rightarrow> (case gw_lastAt s i of Some t \<Rightarrow> t \<le> now - streamRetention | None \<Rightarrow> False)));
        s' = cleanup_tick now s
    in (\<forall>i. gw_events s' i = (if gone i then [] else gw_events s i)
          \<and> gw_times s' i = (if gone i then [] else gw_times s i)
          \<and> gw_doneAt s' i = (if gone i then None else gw_doneAt s i)
          \<and> gw_lastAt s' i = (if gone i then None else gw_lastAt s i)
          \<and> gw_subs s' i = gw_subs s i)
       \<and> gw_runs s' = filter (\<lambda>(i, _). \<not> gone i) (gw_runs s)
       \<and> gw_queue s' = gw_queue s \<and> gw_workers s' = gw_workers s)"
proof -
  define c where "c = now - streamRetention"
  define t where "t = (drop_streams (done_dead c s) s)\<lparr>gw_doneAt := (\<lambda>i. if done_dead c s i then None else gw_doneAt s i)\<rparr>"
  have R: "cleanup_tick now s = (drop_streams (idle_dead c t) t)\<lparr>gw_sessions := sweep_sessions now (gw_sessions t)\<rparr>"
    by (simp add: cleanup_tick_def Let_def c_def t_def drop_streams_def)
  have gone: "done_dead c s i \<or> idle_dead c t i \<longleftrightarrow> gw_subs s i = [] \<and>
        (case gw_doneAt s i of Some u \<Rightarrow> u \<le> c
         | None \<Rightarrow> (case gw_lastAt s i of Some u \<Rightarrow> u \<le> c | None \<Rightarrow> False))" for i
    by (auto simp: done_dead_def idle_dead_def t_def drop_streams_def stale_def split: option.splits)
  show ?thesis
    unfolding Let_def c_def [symmetric] gone [symmetric] R
    by (auto simp: drop_streams_def t_def done_dead_def idle_dead_def stale_def
        intro!: filter_cong split: option.splits)
qed

text \<open>A finished stream therefore survives every tick of the ten minutes after its completion.\<close>

subsection \<open>Which worker a connection becomes\<close>

text \<open>C18: On a gateway with a token, a connection that does not present that token registers only as the
  worker its worker token belongs to: the record of exactly that worker carries the token's hash. Any
  other connection leaves the gateway as it was.\<close>

theorem connection_is_authenticated:
  assumes "store_wf cs" "gw_token s \<noteq> ''''" "\<not> checkToken e (gw_token s) r"
    and "handleWorkerConnect e h r conn hello now cs s = (res, s')"
  shows "(\<exists>wid tok rec. res = ConnRegistered wid \<and> tok \<noteq> ''''
            \<and> (tok = parseBearerToken r \<or> tok = rq_WorkerToken r)
            \<and> worker_file cs wid = Present rec \<and> wr_TokenHash rec = h tok \<and> wr_WorkerID rec = wid)
      \<or> ((res = ConnUnauthorized \<or> res = ConnDropped) \<and> s' = s)"
proof (cases "\<exists>wid. res = ConnRegistered wid")
  case False
  then show ?thesis using assms(4)
    by (auto simp: handleWorkerConnect_def split: sum.splits option.splits)
next
  case True
  then obtain wid where res: "res = ConnRegistered wid" by blast
  obtain expected env hl where a: "connect_auth e h r s cs = Inr expected"
    "hello_worker_id expected now env = Some (wid, hl)"
    using assms(4) res by (auto simp: handleWorkerConnect_def split: sum.splits option.splits)
  obtain tok where t: "tok \<noteq> ''''" "tok = parseBearerToken r \<or> tok = rq_WorkerToken r"
    "ValidateWorkerToken h tok cs = Inr expected"
    using a(1) assms(3) by (auto simp: connect_auth_def Let_def split: if_splits sum.splits)
  from t(3) assms(1) obtain rec where rec: "worker_file cs expected = Present rec" "wr_TokenHash rec = h tok"
    "wr_WorkerID rec = expected" "expected \<noteq> ''''"
    by (auto simp: validate_iff store_wf_def)
  have "wid = expected"
    using a(2) rec(4) by (auto simp: hello_worker_id_def Let_def split: option.splits if_splits)
  with res t rec show ?thesis by blast
qed

subsection \<open>An order that goes wrong\<close>

text \<open>A run that completes between its dispatch and its recording stays recorded as running: the
  completion's removal comes first. The run is then still on record though its stream is finished,
  and a request to cancel it is answered as accepted and sends a cancellation to the worker. In
  the other order the run is gone and cancelling it is answered 404.\<close>

theorem completion_before_record_leaves_run:
  assumes "completes env" "wid \<noteq> ''''" "checkToken e (gw_token s) r"
  shows "map_of (gw_runs (record_run rid wid now (appendStreamEvent rid env t s))) rid = Some wid
    \<and> gw_doneAt (record_run rid wid now (appendStreamEvent rid env t s)) rid \<noteq> None
    \<and> fst (handleCancelRun e r rid (record_run rid wid now (appendStreamEvent rid env t s))) = 200
    \<and> fst (handleCancelRun e r rid (appendStreamEvent rid env t (record_run rid wid now s))) = 404"
  using assms by (simp add: record_run_def appendStreamEvent_other handleCancelRun_def Let_def)

subsection \<open>Creating runs\<close>

lemma pick_scan_some:
  assumes "pick_scan rt ws = wid" "wid \<noteq> ''''"
  shows "\<exists>w hl. (wid, w) \<in> set ws \<and> sess_Hello w = Some hl
    \<and> (rt \<in> set (wh_SupportedRuntimes hl) \<or> RUNTIME_CUSTOM \<in> set (wh_SupportedRuntimes hl))"
  using assms
proof (induction ws)
  case Nil
  then show ?case by simp
next
  case (Cons p ws)
  obtain k w where "p = (k, w)" by (cases p)
  with Cons show ?case by (auto simp: list_ex_iff split: option.splits if_splits)
qed

lemma pick_scan_none:
  assumes "pick_scan rt ws = ''''" "(wid, w) \<in> set ws" "wid \<noteq> ''''" "sess_Hello w = Some hl" "\<forall>(k, _) \<in> set ws. k \<noteq> ''''"
  shows "rt \<notin> set (wh_SupportedRuntimes hl) \<and> RUNTIME_CUSTOM \<notin> set (wh_SupportedRuntimes hl)"
  using assms
proof (induction ws)
  case Nil
  then show ?case by simp
next
  case (Cons p ws)
  obtain k v where p: "p = (k, v)" by (cases p)
  then have k: "k \<noteq> ''''" using Cons.prems(5) by simp
  have tail: "pick_scan rt ws = ''''" "sess_Hello v = Some hv \<Longrightarrow> \<not> list_ex (\<lambda>r. r = rt \<or> r = RUNTIME_CUSTOM) (wh_SupportedRuntimes hv)" for hv
    using Cons.prems(1) p k by (auto split: option.splits if_splits)
  show ?case
  proof (cases "(wid, w) = (k, v)")
    case True
    then show ?thesis using tail(2) Cons.prems(4) by (auto simp: list_ex_iff)
  next
    case False
    then show ?thesis using Cons.IH tail(1) Cons.prems p by auto
  qed
qed

lemma prepare_run_Inr:
  assumes "prepare_run req s = Inr (wid, rr)"
  shows "trim_space (crq_Prompt req) \<noteq> '''' \<and> rr_Runtime rr = parseRuntime (crq_Runtime req)
    \<and> rr_Runtime rr \<noteq> RUNTIME_UNSPECIFIED \<and> wid \<noteq> ''''
    \<and> wid = (if trim_space (crq_WorkerID req) = '''' then pickWorkerForRuntime (rr_Runtime rr) s else trim_space (crq_WorkerID req))
    \<and> (\<exists>p. rr_Policy rr = Some p \<and> pol_TimeoutSeconds p \<noteq> 0)"
  using assms by (auto simp: prepare_run_def Let_def split: if_splits option.splits)

text \<open>C25: A run that is created is dispatched: its request carries a nonblank prompt, a known runtime and
  a nonzero timeout, and goes under the next sequence number to the named worker or, where none
  is named, to a connected one that supports the runtime or anything; it is written to that
  worker's connection or queued for it, and the run is on record. A request that is refused
  leaves the gateway as it was.\<close>

theorem create_run_dispatches_or_refuses:
  assumes "createRun req now s = (res, s')"
  shows "case res of
      Inl (status, msg) \<Rightarrow> s' = s \<and> (status = 400 \<or> status = 503)
    | Inr resp \<Rightarrow> \<exists>rr p. prepare_run req s = Inr (cro_WorkerID resp, rr)
        \<and> trim_space (crq_Prompt req) \<noteq> '''' \<and> rr_Runtime rr \<noteq> RUNTIME_UNSPECIFIED
        \<and> rr_Policy rr = Some p \<and> pol_TimeoutSeconds p \<noteq> 0
        \<and> map_of (gw_runs s') (cro_RunID resp) = Some (cro_WorkerID resp)
        \<and> (trim_space (crq_WorkerID req) = '''' \<longrightarrow> (\<exists>w hl. (cro_WorkerID resp, w) \<in> set (gw_workers s)
              \<and> sess_Hello w = Some hl
              \<and> (rr_Runtime rr \<in> set (wh_SupportedRuntimes hl) \<or> RUNTIME_CUSTOM \<in> set (wh_SupportedRuntimes hl))))
        \<and> (let env = dispatched (cro_WorkerID resp) (cro_RunID resp) (Envelope_RunRequest rr) s in
             (\<exists>w. map_of (gw_workers s) (cro_WorkerID resp) = Some w \<and> gw_sent s' = gw_sent s @ [(sess_Conn w, env)])
             \<or> gw_queue s' (cro_WorkerID resp) = keep_last maxWorkerQueuePerWorker (gw_queue s (cro_WorkerID resp) @ [env]))"
proof (cases "prepare_run req s")
  case (Inl e)
  have "fst e = 400 \<or> fst e = 503"
    using Inl by (auto simp: prepare_run_def Let_def split: if_splits option.splits)
  with Inl assms show ?thesis by (cases e) (auto simp: createRun_def)
next
  case (Inr wr)
  obtain wid rr where wr: "wr = (wid, rr)" by fastforce
  define s1 where "s1 = snd (dispatch wid (run_id now) (Envelope_RunRequest rr) s)"
  obtain ok where d: "dispatch wid (run_id now) (Envelope_RunRequest rr) s = (ok, s1)"
    by (metis s1_def surjective_pairing)
  have R: "res = Inr \<lparr>cro_RunID = run_id now, cro_WorkerID = wid, cro_EventsURL = ''/v1/runs/'' @ run_id now @ ''/events''\<rparr>"
    "s' = record_run (run_id now) wid now s1"
    using assms Inr wr by (auto simp: createRun_def Let_def DispatchRun_def s1_def)
  from prepare_run_Inr [of req s wid rr] Inr wr obtain p where P: "trim_space (crq_Prompt req) \<noteq> ''''"
    "rr_Runtime rr \<noteq> RUNTIME_UNSPECIFIED" "wid \<noteq> ''''" "rr_Policy rr = Some p" "pol_TimeoutSeconds p \<noteq> 0"
    "trim_space (crq_WorkerID req) = '''' \<Longrightarrow> pick_scan (rr_Runtime rr) (gw_workers s) = wid"
    by (auto simp: pickWorkerForRuntime_def)
  have pick: "trim_space (crq_WorkerID req) = '''' \<longrightarrow> (\<exists>w hl. (wid, w) \<in> set (gw_workers s)
              \<and> sess_Hello w = Some hl
              \<and> (rr_Runtime rr \<in> set (wh_SupportedRuntimes hl) \<or> RUNTIME_CUSTOM \<in> set (wh_SupportedRuntimes hl)))"
    using pick_scan_some [OF P(6)] P(3) by blast
  have del: "(\<exists>w. map_of (gw_workers s) wid = Some w
        \<and> gw_sent s' = gw_sent s @ [(sess_Conn w, dispatched wid (run_id now) (Envelope_RunRequest rr) s)])
     \<or> gw_queue s' wid = keep_last maxWorkerQueuePerWorker (gw_queue s wid @ [dispatched wid (run_id now) (Envelope_RunRequest rr) s])"
    using d by (cases rule: dispatch_cases) (auto simp: R(2) record_run_def enqueueControl_def control_log.push_newest)
  from R P(1,2,4,5) pick del Inr wr show ?thesis by (simp add: record_run_def Let_def)
qed

subsection \<open>Witnesses\<close>

definition demo_hello :: WorkerHello where
  "demo_hello = \<lparr>wh_Name = ''box'', wh_Version = ''1'', wh_Labels = [], wh_SupportedRuntimes = [RUNTIME_NANO_AGENT],
     wh_Capacity = None, wh_Docker = None\<rparr>"

definition demo_env :: "nat \<Rightarrow> Envelope_Message option \<Rightarrow> Envelope" where
  "demo_env n m = \<lparr>env_ProtocolVersion = ''1.0'', env_TunnelId = '''', env_WorkerId = ''w1'', env_StreamId = ''run-1'',
     env_Seq = of_nat n, env_Message = m\<rparr>"

definition demo_event :: "EventKind \<Rightarrow> Envelope" where
  "demo_event k = demo_env 0 (Some (Envelope_RunEvent \<lparr>ev_Kind = k, ev_Payload = None\<rparr>))"

definition demo_gateway :: gateway where
  "demo_gateway = (NewGatewayServer ''tok'')\<lparr>
     gw_workers := [(''w1'', \<lparr>sess_ID = ''w1'', sess_Conn = 1, sess_Hello = Some demo_hello, sess_LastHeartbeat = 0\<rparr>)],
     gw_queue := (\<lambda>_. [])(''w1'' := [demo_env 1 None, demo_env 2 None, demo_env 3 None])\<rparr>"

definition demo_http :: "string \<Rightarrow> http_request" where
  "demo_http auth = \<lparr>rq_Authorization = auth, rq_GatewayToken = '''', rq_WorkerToken = '''', rq_QueryToken = '''', rq_Cookie = None\<rparr>"

definition demo_genv :: gateway_env where
  "demo_genv = \<lparr>ge_AllowTokenQuery = '''', ge_DevMode = '''', ge_SessionTTLMinutes = ''''\<rparr>"

lemma poll_partitions_queue_witness:
  "fst (poll_queue \<lparr>wp_WorkerID = ''w1'', wp_LastSeq = 1, wp_MaxMessages = 1\<rparr> demo_gateway)
   @ gw_queue (snd (poll_queue \<lparr>wp_WorkerID = ''w1'', wp_LastSeq = 1, wp_MaxMessages = 1\<rparr> demo_gateway)) ''w1''
   = [demo_env 2 None, demo_env 3 None]"
  using poll_partitions_queue [OF prod.collapse [symmetric],
      of "\<lparr>wp_WorkerID = ''w1'', wp_LastSeq = 1, wp_MaxMessages = 1\<rparr>" demo_gateway]
  by (simp add: demo_gateway_def demo_env_def)

lemma dispatch_delivers_or_queues_witness:
  "gw_sent (snd (dispatch ''w1'' ''run-1'' (Envelope_CancelRequest ''x'') demo_gateway))
     = [(1, dispatched ''w1'' ''run-1'' (Envelope_CancelRequest ''x'') demo_gateway)]
   \<or> gw_queue (snd (dispatch ''w1'' ''run-1'' (Envelope_CancelRequest ''x'') demo_gateway)) ''w1''
     = keep_last maxWorkerQueuePerWorker (gw_queue demo_gateway ''w1'' @ [dispatched ''w1'' ''run-1'' (Envelope_CancelRequest ''x'') demo_gateway])"
  using dispatch_delivers_or_queues [OF prod.collapse [symmetric], of "''w1''" "''run-1''" "Envelope_CancelRequest ''x''" demo_gateway]
  by (auto simp: demo_gateway_def NewGatewayServer_def)

lemma register_flushes_in_order_witness:
  "gw_queue (register_worker ''w1'' 2 demo_hello 5 (demo_gateway\<lparr>gw_faults := []\<rparr>)) ''w1'' = []"
proof -
  have "length (gw_queue (demo_gateway\<lparr>gw_faults := []\<rparr>) ''w1'') \<le> maxWorkerQueuePerWorker"
    by (simp add: demo_gateway_def maxWorkerQueuePerWorker_def)
  from register_flushes_in_order [OF refl this, of 2 demo_hello 5] show ?thesis by auto
qed

text \<open>A worker connects, and the first message to it cannot be written.\<close>

lemma gateway_stays_bounded_witness:
  "length (gw_queue (snd (dispatch ''w1'' ''run-1'' (Envelope_CancelRequest ''x'')
      (register_worker ''w1'' 3 demo_hello 0 ((NewGatewayServer ''tok'')\<lparr>gw_faults := [True]\<rparr>)))) ''w1'') \<le> 1000
   \<and> gw_queue (snd (dispatch ''w1'' ''run-1'' (Envelope_CancelRequest ''x'')
      (register_worker ''w1'' 3 demo_hello 0 ((NewGatewayServer ''tok'')\<lparr>gw_faults := [True]\<rparr>)))) ''w1'' \<noteq> []"
proof
  define g where "g = (NewGatewayServer ''tok'')\<lparr>gw_faults := [True]\<rparr>"
  have "checkToken demo_genv (gw_token g) (demo_http ''Bearer tok'')" unfolding g_def by code_simp
  then have c: "handleWorkerConnect demo_genv demo_hash (demo_http ''Bearer tok'') 3
      (Some (demo_env 0 (Some (Envelope_WorkerHello demo_hello)))) 0 (demo_store []) g
      = (ConnRegistered ''w1'', register_worker ''w1'' 3 demo_hello 0 g)"
    by (simp add: handleWorkerConnect_def connect_auth_def hello_worker_id_def demo_env_def GetWorkerHello_def)
  have "gw_reach ''tok'' g" unfolding g_def by (rule reach_start)
  then have "gw_reach ''tok'' (snd (handleWorkerConnect demo_genv demo_hash (demo_http ''Bearer tok'') 3
      (Some (demo_env 0 (Some (Envelope_WorkerHello demo_hello)))) 0 (demo_store []) g))"
    by (rule reach_step [OF _ step_connect])
  then have "gw_reach ''tok'' (snd (dispatch ''w1'' ''run-1'' (Envelope_CancelRequest ''x'') (register_worker ''w1'' 3 demo_hello 0 g)))"
    unfolding c snd_conv by (rule reach_step [OF _ step_dispatch])
  from gateway_stays_bounded [OF this]
  show "length (gw_queue (snd (dispatch ''w1'' ''run-1'' (Envelope_CancelRequest ''x'')
      (register_worker ''w1'' 3 demo_hello 0 ((NewGatewayServer ''tok'')\<lparr>gw_faults := [True]\<rparr>)))) ''w1'') \<le> 1000"
    unfolding g_def by blast
  show "gw_queue (snd (dispatch ''w1'' ''run-1'' (Envelope_CancelRequest ''x'')
      (register_worker ''w1'' 3 demo_hello 0 ((NewGatewayServer ''tok'')\<lparr>gw_faults := [True]\<rparr>)))) ''w1'' \<noteq> []"
    by (simp add: register_worker_def flushWorkerQueue_def dispatch_def nextSeq_def writeWorkerEnvelope_def
        enqueueControl_def push_control_def NewGatewayServer_def maxWorkerQueuePerWorker_def Let_def)
qed

lemma subscriber_sees_stream_witness:
  "\<exists>buf. map_of (gw_subs (snd (sub_run ''run-1'' 7
      [SubAppend (demo_event EVENT_KIND_STATUS) 1, SubReceive, SubAppend (demo_event EVENT_KIND_COMPLETED) 2]
      (snd (subscribe ''run-1'' 7 demo_gateway)))) ''run-1'') 7 = Some buf
    \<and> fst (subscribe ''run-1'' 7 demo_gateway) @ fst (sub_run ''run-1'' 7
      [SubAppend (demo_event EVENT_KIND_STATUS) 1, SubReceive, SubAppend (demo_event EVENT_KIND_COMPLETED) 2]
      (snd (subscribe ''run-1'' 7 demo_gateway))) @ buf
      = [demo_event EVENT_KIND_STATUS, demo_event EVENT_KIND_COMPLETED]"
  using subscriber_sees_stream [OF prod.collapse [symmetric] prod.collapse [symmetric],
      where sid = "''run-1''" and ch = 7 and s = demo_gateway
        and ops = "[SubAppend (demo_event EVENT_KIND_STATUS) 1, SubReceive, SubAppend (demo_event EVENT_KIND_COMPLETED) 2]"]
  by (auto simp: subscriber_buffer_def demo_gateway_def NewGatewayServer_def)

lemma connection_is_authenticated_witness:
  "\<exists>rec. worker_file (demo_store []) ''w1'' = Present rec \<and> wr_TokenHash rec = demo_hash ''t1''"
proof -
  define r where "r = demo_http ''Bearer t1''"
  have nt: "\<not> checkToken demo_genv (gw_token (NewGatewayServer ''tok'')) r" unfolding r_def by code_simp
  have "connect_auth demo_genv demo_hash r (NewGatewayServer ''tok'') (demo_store []) = Inr ''w1''"
    unfolding r_def by code_simp
  then have "fst (handleWorkerConnect demo_genv demo_hash r 3 (Some (demo_env 0 (Some (Envelope_WorkerHello demo_hello)))) 0
      (demo_store []) (NewGatewayServer ''tok'')) = ConnRegistered ''w1''"
    by (simp add: handleWorkerConnect_def hello_worker_id_def demo_env_def GetWorkerHello_def)
  moreover have "parseBearerToken r = ''t1''" "rq_WorkerToken r = ''''"
    unfolding r_def by code_simp+
  ultimately show ?thesis
    using connection_is_authenticated [OF demo_store_wf _ nt prod.collapse [symmetric], of demo_hash 3
        "Some (demo_env 0 (Some (Envelope_WorkerHello demo_hello)))" 0 "[]"]
    by (auto simp: NewGatewayServer_def)
qed

lemma completion_before_record_leaves_run_witness:
  "fst (handleCancelRun demo_genv (demo_http ''Bearer tok'') ''run-1''
     (record_run ''run-1'' ''w1'' 5 (appendStreamEvent ''run-1'' (demo_event EVENT_KIND_COMPLETED) 4 demo_gateway))) = 200"
proof -
  have "completes (demo_event EVENT_KIND_COMPLETED)" by code_simp
  moreover have "checkToken demo_genv (gw_token demo_gateway) (demo_http ''Bearer tok'')" by code_simp
  ultimately show ?thesis using completion_before_record_leaves_run [of _ "''w1''"] by blast
qed

lemma create_run_dispatches_or_refuses_witness:
  "\<exists>resp. fst (createRun \<lparr>crq_Runtime = ''nano'', crq_Prompt = ''hi'', crq_SessionID = '''', crq_WorkerID = '''',
        crq_WorkspaceID = '''', crq_TimeoutSeconds = 0, crq_Resources = None, crq_Network = '''', crq_Approval = ''''\<rparr> 17 demo_gateway)
      = Inr resp \<and> (\<exists>w. (cro_WorkerID resp, w) \<in> set (gw_workers demo_gateway))"
proof -
  define req where "req = \<lparr>crq_Runtime = ''nano'', crq_Prompt = ''hi'', crq_SessionID = '''', crq_WorkerID = '''',
        crq_WorkspaceID = '''', crq_TimeoutSeconds = 0, crq_Resources = None, crq_Network = '''', crq_Approval = ''''\<rparr>"
  have t: "trim_space ''hi'' \<noteq> ''''" "parseRuntime ''nano'' = RUNTIME_NANO_AGENT" by code_simp+
  then have "\<exists>resp. fst (createRun req 17 demo_gateway) = Inr resp"
    by (simp add: createRun_def prepare_run_def req_def pickWorkerForRuntime_def demo_gateway_def demo_hello_def Let_def)
  then obtain resp where r: "fst (createRun req 17 demo_gateway) = Inr resp" by blast
  have "trim_space (crq_WorkerID req) = ''''" by (simp add: req_def)
  with create_run_dispatches_or_refuses [OF prod.collapse [symmetric], of req 17 demo_gateway] r
  have "\<exists>w. (cro_WorkerID resp, w) \<in> set (gw_workers demo_gateway)" by auto
  with r show ?thesis unfolding req_def by blast
qed


subsection \<open>Dispatches that overtake each other\<close>

text \<open>A dispatch takes its number and queues its message under separate holds of the lock. If another one comes in
  between and its message is polled and acknowledged first, the first message is dropped at the next poll
  and never delivered, although its dispatch succeeds.\<close>

theorem overtaken_dispatch_is_lost:
  assumes "nextSeq g = (n1, g1)" "nextSeq g1 = (n2, g2)" and "n1 < n2" and "map_of (gw_workers g) wid = None"
    and "gw_queue g wid = []" and "env_Seq env1 = n1" "env_Seq env2 = n2"
    and "poll_queue \<lparr>wp_WorkerID = wid, wp_LastSeq = 0, wp_MaxMessages = 0\<rparr> (enqueueControl wid env2 g2) = (out1, g3)"
    and "poll_queue \<lparr>wp_WorkerID = wid, wp_LastSeq = n2, wp_MaxMessages = 0\<rparr> (enqueueControl wid env1 g3) = (out2, g4)"
  shows "out1 = [env2] \<and> out2 = [] \<and> gw_queue g4 wid = []"
proof -
  have g2: "gw_queue g2 wid = []" using assms(1,2,5) by (auto simp: nextSeq_def)
  have q: "gw_queue (enqueueControl wid env2 g2) wid = [env2]"
    by (simp add: enqueueControl_def push_control_def g2 maxWorkerQueuePerWorker_def)
  have "\<not> n2 \<le> 0" using assms(3) by (metis order.strict_trans1 word_zero_le not_le)
  then have s1: "out1 = [env2]" "gw_queue g3 wid = [env2] \<or> gw_queue g3 wid = []" "gw_queue g3 wid = []"
    using assms(7,8) q by (auto simp: poll_queue_def clamp_max_def Let_def)
  then have "gw_queue (enqueueControl wid env1 g3) wid = [env1]"
    by (simp add: enqueueControl_def push_control_def maxWorkerQueuePerWorker_def)
  moreover have "env_Seq env1 \<le> n2" using assms(3,6) by simp
  ultimately have "out2 = []" "gw_queue g4 wid = []" using assms(9) by (auto simp: poll_queue_def Let_def)
  with s1 show ?thesis by simp
qed

lemma overtaken_dispatch_is_lost_witness:
  "gw_queue (snd (poll_queue \<lparr>wp_WorkerID = ''w1'', wp_LastSeq = 2, wp_MaxMessages = 0\<rparr>
     (enqueueControl ''w1'' (demo_env 1 None) (snd (poll_queue \<lparr>wp_WorkerID = ''w1'', wp_LastSeq = 0, wp_MaxMessages = 0\<rparr>
       (enqueueControl ''w1'' (demo_env 2 None) (snd (nextSeq (snd (nextSeq (NewGatewayServer '''')))))))))))  ''w1'' = []"
proof -
  have "nextSeq (NewGatewayServer '''') = (1, snd (nextSeq (NewGatewayServer '''')))"
    "nextSeq (snd (nextSeq (NewGatewayServer ''''))) = (2, snd (nextSeq (snd (nextSeq (NewGatewayServer '''')))))"
    by (simp_all add: nextSeq_def NewGatewayServer_def)
  from overtaken_dispatch_is_lost [OF this _ _ _ _ _ surjective_pairing surjective_pairing,
      of "''w1''" "demo_env 1 None" "demo_env 2 None"]
  show ?thesis by (simp add: NewGatewayServer_def demo_env_def)
qed

end
