(* ===== verification/Connections.thy ===== *)
theory Connections
  imports GatewayProps
begin

text \<open>
  The gateway with the connections of its workers. Each connection has a goroutine of its own, which registers
  the worker, reads until the connection is gone and then ends (\<^verbatim>\<open>handleWorkerConnect\<close> of
  \<^verbatim>\<open>pkg/server/server.go\<close>). A worker that reconnects has two of them for a while: the gateway
  notices the loss of a connection only when a read of it fails or its deadline passes.
\<close>

subsection \<open>Connections and their goroutines\<close>

text \<open>Connections are numbered as they are opened; \<open>hg_loops\<close> are those that are being read, with the worker each
  has registered.\<close>

record hub =
  hg_gateway :: gateway
  hg_opened :: nat
  hg_loops :: "(nat \<times> string) list"

definition hub_connect ::
    "gateway_env \<Rightarrow> (string \<Rightarrow> string) \<Rightarrow> http_request \<Rightarrow> Envelope option \<Rightarrow> int \<Rightarrow> config_store \<Rightarrow> hub \<Rightarrow> hub" where
  "hub_connect e h r hello now cs s =
     (let (res, g) = handleWorkerConnect e h r (hg_opened s) hello now cs (hg_gateway s)
      in s\<lparr>hg_gateway := g, hg_opened := Suc (hg_opened s),
           hg_loops := (case res of ConnRegistered wid \<Rightarrow> (hg_opened s, wid) # hg_loops s | _ \<Rightarrow> hg_loops s)\<rparr>)"

definition hub_read :: "nat \<Rightarrow> Envelope \<Rightarrow> int \<Rightarrow> hub \<Rightarrow> hub" where
  "hub_read conn env now s =
     (case map_of (hg_loops s) conn of None \<Rightarrow> s
      | Some wid \<Rightarrow> s\<lparr>hg_gateway := worker_message wid conn env now (hg_gateway s)\<rparr>)"

text \<open>A read fails: the loop is left, and the worker is taken off the list.\<close>

definition hub_end :: "nat \<Rightarrow> hub \<Rightarrow> hub" where
  "hub_end conn s =
     (case map_of (hg_loops s) conn of None \<Rightarrow> s
      | Some wid \<Rightarrow> s\<lparr>hg_gateway := worker_disconnect wid (hg_gateway s), hg_loops := AList.delete conn (hg_loops s)\<rparr>)"

text \<open>The other steps of the gateway do not touch its list of workers.\<close>

inductive hub_step :: "gateway_env \<Rightarrow> (string \<Rightarrow> string) \<Rightarrow> hub \<Rightarrow> hub \<Rightarrow> bool" for e h where
  hub_connects: "hub_step e h s (hub_connect e h r hello now cs s)"
| hub_reads: "hub_step e h s (hub_read conn env now s)"
| hub_ends: "hub_step e h s (hub_end conn s)"
| hub_others: "gw_step (hg_gateway s) g \<Longrightarrow> gw_workers g = gw_workers (hg_gateway s) \<Longrightarrow> hub_step e h s (s\<lparr>hg_gateway := g\<rparr>)"

inductive hub_reach :: "gateway_env \<Rightarrow> (string \<Rightarrow> string) \<Rightarrow> string \<Rightarrow> hub \<Rightarrow> bool" for e h token where
  hub_start: "hub_reach e h token \<lparr>hg_gateway = (NewGatewayServer token)\<lparr>gw_faults := fs\<rparr>, hg_opened = 0, hg_loops = []\<rparr>"
| hub_next: "hub_reach e h token s \<Longrightarrow> hub_step e h s s' \<Longrightarrow> hub_reach e h token s'"

subsection \<open>What registration and the read loop do to the list\<close>

lemma flush_workers: "gw_workers (flushWorkerQueue wid w g) = gw_workers g"
proof -
  define t where "t = g\<lparr>gw_queue := (gw_queue g)(wid := [])\<rparr>"
  have "gw_queue t wid = []" by (simp add: t_def)
  then obtain written left fs where "flush_loop wid w (gw_queue g wid) t = t\<lparr>gw_faults := fs,
      gw_sent := gw_sent t @ map (Pair (sess_Conn w)) written, gw_queue := (gw_queue t)(wid := fold push_control left [])\<rparr>"
    using flush_loop_split by metis
  then show ?thesis by (simp add: flushWorkerQueue_def t_def)
qed

lemma register_workers:
  "gw_workers (register_worker wid conn hello now g) = AList.update wid
     \<lparr>sess_ID = wid, sess_Conn = conn, sess_Hello = Some hello, sess_LastHeartbeat = now\<rparr> (gw_workers g)"
  by (simp add: register_worker_def flush_workers Let_def)

lemma connect_workers:
  assumes "handleWorkerConnect e h r conn hello now cs g = (res, g')"
  shows "(\<exists>wid w. res = ConnRegistered wid \<and> gw_workers g' = AList.update wid w (gw_workers g) \<and> sess_Conn w = conn)
    \<or> ((\<forall>wid. res \<noteq> ConnRegistered wid) \<and> g' = g)"
proof -
  have "(\<exists>wid hl. res = ConnRegistered wid \<and> g' = register_worker wid conn hl now g) \<or> ((\<forall>wid. res \<noteq> ConnRegistered wid) \<and> g' = g)"
    using assms by (auto simp: handleWorkerConnect_def split: sum.splits option.splits)
  then show ?thesis using register_workers by force
qed

lemma map_of_message:
  "map_of (gw_workers (worker_message wid conn env now g)) k
    = (if k = wid \<and> GetWorkerHeartbeat env \<noteq> None then map_option (beat conn now) (map_of (gw_workers g) k)
       else map_of (gw_workers g) k)"
proof -
  have "map_of (map (\<lambda>(k, w). (k, if k = wid then f w else w)) ws) k
      = (if k = wid then map_option f (map_of ws k) else map_of ws k)" for f k and ws :: "(string \<times> WorkerSession) list"
    by (induction ws) auto
  then show ?thesis by (cases "GetWorkerHeartbeat env") (simp_all add: worker_message_def appendStreamEvent_other)
qed

lemma beat_conn [simp]: "sess_Conn (beat conn now w) = sess_Conn w"
  by (simp add: beat_def)

lemma auth_disconnect: "connect_auth e h r (worker_disconnect wid g) cs = connect_auth e h r g cs"
  by (simp add: connect_auth_def worker_disconnect_def)

subsection \<open>A listed worker is connected\<close>

definition hub_ok :: "hub \<Rightarrow> bool" where
  "hub_ok s \<longleftrightarrow> (\<forall>conn \<in> fst ` set (hg_loops s). conn < hg_opened s)
     \<and> (\<forall>wid w. map_of (gw_workers (hg_gateway s)) wid = Some w \<longrightarrow> map_of (hg_loops s) (sess_Conn w) = Some wid)"

lemma hub_okD:
  "hub_ok s \<Longrightarrow> map_of (hg_loops s) conn = Some wid \<Longrightarrow> conn < hg_opened s"
  "hub_ok s \<Longrightarrow> map_of (gw_workers (hg_gateway s)) wid = Some w \<Longrightarrow> map_of (hg_loops s) (sess_Conn w) = Some wid"
  unfolding hub_ok_def using map_of_SomeD [of "hg_loops s" conn wid] by force blast

lemma connect_ok:
  assumes "hub_ok s"
  shows "hub_ok (hub_connect e h r hello now cs s)"
proof -
  obtain res g where c: "handleWorkerConnect e h r (hg_opened s) hello now cs (hg_gateway s) = (res, g)" by fastforce
  from connect_workers [OF c] show ?thesis
  proof (elim disjE exE conjE)
    fix wid w
    assume w: "res = ConnRegistered wid" "gw_workers g = AList.update wid w (gw_workers (hg_gateway s))" "sess_Conn w = hg_opened s"
    have "map_of (hg_loops s) (sess_Conn v) = Some k \<and> sess_Conn v \<noteq> hg_opened s"
      if "map_of (gw_workers (hg_gateway s)) k = Some v" for k v
      using hub_okD(2) [OF assms that] hub_okD(1) [OF assms] by fastforce
    then show ?thesis
      using assms c w by (auto simp: hub_connect_def hub_ok_def AList.update_conv' less_Suc_eq split: if_splits)
  next
    assume "\<forall>wid. res \<noteq> ConnRegistered wid" "g = hg_gateway s"
    then show ?thesis
      using assms c by (cases res) (auto simp: hub_connect_def hub_ok_def less_Suc_eq)
  qed
qed

lemma set_delete_subset: "set (AList.delete k al) \<subseteq> set al"
  by (auto simp: AList.delete_eq)

lemma end_ok: "hub_ok s \<Longrightarrow> hub_ok (hub_end conn s)"
proof (cases "map_of (hg_loops s) conn")
  case (Some wid)
  assume s: "hub_ok s"
  have "map_of (hg_loops s) (sess_Conn v) = Some k \<and> sess_Conn v \<noteq> conn"
    if "map_of (gw_workers (hg_gateway s)) k = Some v" "k \<noteq> wid" for k v
    using hub_okD(2) [OF s that(1)] Some that(2) by auto
  then show ?thesis
    using s Some unfolding hub_ok_def hub_end_def
    by (auto simp: worker_disconnect_def delete_conv' split: if_splits dest: set_mp [OF set_delete_subset])
qed (simp add: hub_end_def)

lemma read_ok: "hub_ok s \<Longrightarrow> hub_ok (hub_read conn env now s)"
  by (auto simp: hub_ok_def hub_read_def map_of_message split: option.split)

lemma hub_reach_ok: "hub_reach e h token s \<Longrightarrow> hub_ok s"
proof (induction rule: hub_reach.induct)
  case (hub_start fs)
  then show ?case by (simp add: hub_ok_def NewGatewayServer_def)
next
  case (hub_next s s')
  from hub_next.hyps(2) hub_next.IH show ?case
    by (induction rule: hub_step.induct) (auto simp: connect_ok end_ok read_ok, simp add: hub_ok_def)
qed

text \<open>So a control message is written only to a connection that is still being read.\<close>

theorem listed_worker_is_connected:
  assumes "hub_reach e h token s" "map_of (gw_workers (hg_gateway s)) wid = Some w"
  shows "map_of (hg_loops s) (sess_Conn w) = Some wid"
  using hub_okD(2) [OF hub_reach_ok [OF assms(1)] assms(2)] .

subsection \<open>A connected worker need not be listed\<close>

lemma dispatch_unlisted:
  assumes "map_of (gw_workers g) wid = None"
  shows "fst (DispatchRun wid rid rr g) \<and> gw_sent (snd (DispatchRun wid rid rr g)) = gw_sent g
    \<and> gw_queue (snd (DispatchRun wid rid rr g)) wid
        = keep_last maxWorkerQueuePerWorker (gw_queue g wid @ [dispatched wid rid (Envelope_RunRequest rr) g])"
  using assms
  by (simp add: DispatchRun_def dispatch_def nextSeq_def enqueueControl_def dispatched_def control_log.push_newest)

lemma reads_unlisted:
  "map_of (gw_workers (hg_gateway s)) wid = None
    \<Longrightarrow> map_of (gw_workers (hg_gateway (fold (\<lambda>(env, t). hub_read conn env t) msgs s))) wid = None"
  by (induction msgs arbitrary: s) (auto simp: hub_read_def map_of_message split: option.splits)

text \<open>C40: When a worker reconnects before its old connection is noticed to be gone, it is listed with the new
  connection until the read of the old one fails. That end takes the new session off the list although
  the new connection is still read: however many messages, heartbeats among them, come on it, the worker stays off the
  list, and a run dispatched to it is queued and written to nothing. Had the old connection ended
  first, the worker would be listed with the new one.\<close>

theorem stale_end_drops_new_session:
  assumes "hub_reach e h token s" "map_of (hg_loops s) old = Some wid"
    and "handleWorkerConnect e h r (hg_opened s) hello now cs (hg_gateway s) = (ConnRegistered wid, g)"
    and "s1 = hub_connect e h r hello now cs s" "s2 = fold (\<lambda>(env, t). hub_read (hg_opened s) env t) msgs (hub_end old s1)"
  shows "(\<exists>w. map_of (gw_workers (hg_gateway s1)) wid = Some w \<and> sess_Conn w = hg_opened s)
    \<and> map_of (hg_loops s2) (hg_opened s) = Some wid
    \<and> map_of (gw_workers (hg_gateway s2)) wid = None
    \<and> gw_sent (snd (DispatchRun wid rid rr (hg_gateway s2))) = gw_sent (hg_gateway s2)
    \<and> gw_queue (snd (DispatchRun wid rid rr (hg_gateway s2))) wid
        = keep_last maxWorkerQueuePerWorker (gw_queue (hg_gateway s2) wid @ [dispatched wid rid (Envelope_RunRequest rr) (hg_gateway s2)])
    \<and> (\<exists>w. map_of (gw_workers (hg_gateway (hub_connect e h r hello now cs (hub_end old s)))) wid = Some w
          \<and> sess_Conn w = hg_opened s)"
proof -
  have old: "old \<noteq> hg_opened s" using hub_okD(1) [OF hub_reach_ok [OF assms(1)] assms(2)] by simp
  have s1: "s1 = s\<lparr>hg_gateway := g, hg_opened := Suc (hg_opened s), hg_loops := (hg_opened s, wid) # hg_loops s\<rparr>"
    using assms(3,4) by (simp add: hub_connect_def)
  have listed: "\<exists>w. map_of (gw_workers (hg_gateway s1)) wid = Some w \<and> sess_Conn w = hg_opened s"
    using connect_workers [OF assms(3)] by (auto simp: s1)
  have e1: "hub_end old s1 = s1\<lparr>hg_gateway := worker_disconnect wid g, hg_loops := AList.delete old (hg_loops s1)\<rparr>"
    using assms(2) old by (simp add: hub_end_def s1)
  have unlisted: "map_of (gw_workers (hg_gateway s2)) wid = None"
    unfolding assms(5) by (rule reads_unlisted) (simp add: e1 worker_disconnect_def)
  have keep: "hg_loops (fold (\<lambda>(env, t). hub_read c env t) ms u) = hg_loops u" for c ms u
    by (induction ms arbitrary: u) (auto simp: hub_read_def split: option.split)
  have loops: "map_of (hg_loops s2) (hg_opened s) = Some wid"
    unfolding assms(5) keep e1 using old by (simp add: s1)
  have "fst (handleWorkerConnect e h r (hg_opened s) hello now cs (worker_disconnect wid (hg_gateway s))) = ConnRegistered wid"
    using assms(3) by (auto simp: handleWorkerConnect_def auth_disconnect split: sum.splits option.splits)
  then obtain g' where "handleWorkerConnect e h r (hg_opened s) hello now cs (worker_disconnect wid (hg_gateway s)) = (ConnRegistered wid, g')"
    by (metis prod.collapse)
  with connect_workers [OF this]
  have "\<exists>w. map_of (gw_workers (hg_gateway (hub_connect e h r hello now cs (hub_end old s)))) wid = Some w \<and> sess_Conn w = hg_opened s"
    using assms(2) by (auto simp: hub_connect_def hub_end_def)
  with listed loops unlisted dispatch_unlisted [OF unlisted] show ?thesis by blast
qed

definition demo_hub :: hub where
  "demo_hub = \<lparr>hg_gateway = (NewGatewayServer ''tok'')\<lparr>gw_faults := []\<rparr>, hg_opened = 0, hg_loops = []\<rparr>"

abbreviation demo_dial :: "hub \<Rightarrow> hub" where
  "demo_dial \<equiv> hub_connect demo_genv demo_hash (demo_http ''Bearer tok'') (Some (demo_env 0 (Some (Envelope_WorkerHello demo_hello)))) 7 (demo_store [])"

lemma stale_end_drops_new_session_witness:
  "map_of (gw_workers (hg_gateway (demo_dial (demo_dial demo_hub)))) ''w1'' \<noteq> None
   \<and> map_of (hg_loops (hub_end 0 (demo_dial (demo_dial demo_hub)))) 1 = Some ''w1''
   \<and> map_of (gw_workers (hg_gateway (hub_end 0 (demo_dial (demo_dial demo_hub))))) ''w1'' = None"
proof -
  have t: "checkToken demo_genv ''tok'' (demo_http ''Bearer tok'')" by code_simp
  have c: "gw_token g = ''tok'' \<Longrightarrow> handleWorkerConnect demo_genv demo_hash (demo_http ''Bearer tok'') n
      (Some (demo_env 0 (Some (Envelope_WorkerHello demo_hello)))) 7 (demo_store []) g
      = (ConnRegistered ''w1'', register_worker ''w1'' n demo_hello 7 g)" for n g
    using t by (simp add: handleWorkerConnect_def connect_auth_def hello_worker_id_def demo_env_def GetWorkerHello_def)
  define s where "s = demo_dial demo_hub"
  have s: "s = \<lparr>hg_gateway = register_worker ''w1'' 0 demo_hello 7 ((NewGatewayServer ''tok'')\<lparr>gw_faults := []\<rparr>),
      hg_opened = 1, hg_loops = [(0, ''w1'')]\<rparr>"
    using c [of "(NewGatewayServer ''tok'')\<lparr>gw_faults := []\<rparr>" 0]
    by (simp add: s_def hub_connect_def demo_hub_def NewGatewayServer_def)
  have r: "hub_reach demo_genv demo_hash ''tok'' s"
    unfolding s_def by (rule hub_next [OF _ hub_connects]) (simp add: demo_hub_def hub_start)
  have tok: "gw_token (hg_gateway s) = ''tok''" unfolding s by code_simp
  have l: "map_of (hg_loops s) 0 = Some ''w1''" "hg_opened s = 1" by (simp_all add: s)
  from stale_end_drops_new_session [OF r l(1) _ refl refl, where msgs = "[]"] c [OF tok, of 1] l(2)
  show ?thesis unfolding s_def [symmetric] by fastforce
qed

end
