(* ===== verification/NetAddr.thy ===== *)
theory NetAddr
  imports GoStrings "HOL-Library.Word"
begin

unbundle bit_operations_syntax

text \<open>
  The parts of Go's \<^verbatim>\<open>net/netip\<close> and \<^verbatim>\<open>net\<close> packages the egress filter calls:
  parsing of IPv4 and IPv6 addresses and of CIDR prefixes, prefix containment, and splitting a
  \<^verbatim>\<open>host:port\<close>. An IPv4 address is a 32-bit word. An IPv6 address is its 16 bytes
  and its zone.
\<close>

datatype addr = V4 "32 word" | V6 "nat list" string

fun Is4 :: "addr \<Rightarrow> bool" where
  "Is4 (V4 _) = True"
| "Is4 (V6 _ _) = False"

subsection \<open>netip.ParseAddr\<close>

text \<open>
  \<^verbatim>\<open>parseIPv4Fields\<close>: the byte before the current one, the value and the number of
  digits of the current field, and the finished fields.
\<close>

fun v4_fields :: "char option \<Rightarrow> nat \<Rightarrow> nat \<Rightarrow> nat list \<Rightarrow> string \<Rightarrow> nat list option" where
  "v4_fields prev val digLen fs [] = (if length fs < 3 then None else Some (fs @ [val]))"
| "v4_fields prev val digLen fs (c # cs) =
     (if is_digit c then
        (if digLen = 1 \<and> val = 0 then None
         else let v = val * 10 + digit_val c
              in if v > 255 then None else v4_fields (Some c) v (digLen + 1) fs cs)
      else if c = CHR ''.'' then
        (if prev = None \<or> cs = [] \<or> prev = Some CHR ''.'' then None
         else if length fs = 3 then None
         else v4_fields (Some c) 0 0 (fs @ [val]) cs)
      else None)"

definition v4_of_fields :: "nat list \<Rightarrow> 32 word" where
  "v4_of_fields fs = foldl (\<lambda>acc b. acc * 256 + of_nat b) 0 fs"

definition parseIPv4 :: "string \<Rightarrow> addr option" where
  "parseIPv4 s = map_option (\<lambda>fs. V4 (v4_of_fields fs)) (v4_fields None 0 0 [] s)"

definition hex_val :: "char \<Rightarrow> nat option" where
  "hex_val c =
     (if is_digit c then Some (digit_val c)
      else if CHR ''a'' \<le> c \<and> c \<le> CHR ''f'' then Some (of_char c - 87)
      else if CHR ''A'' \<le> c \<and> c \<le> CHR ''F'' then Some (of_char c - 55)
      else None)"

text \<open>The digits of one group: their number, their value and what follows; a fifth digit fails.\<close>

fun hex_group :: "nat \<Rightarrow> nat \<Rightarrow> string \<Rightarrow> (nat \<times> nat \<times> string) option" where
  "hex_group off acc [] = Some (off, acc, [])"
| "hex_group off acc (c # cs) =
     (case hex_val c of None \<Rightarrow> Some (off, acc, c # cs)
      | Some d \<Rightarrow> if off > 3 then None else hex_group (off + 1) (acc * 16 + d) cs)"

lemma hex_group_length: "hex_group off acc s = Some (off', acc', t) \<Longrightarrow> off' + length t = off + length s"
  by (induction off acc s rule: hex_group.induct) (auto split: option.splits if_splits)

text \<open>
  The main loop of \<^verbatim>\<open>parseIPv6\<close>: the bytes read so far, the position of the ellipsis,
  and the rest of the string; the result is the bytes, the ellipsis and the unread rest.
\<close>

function v6_loop :: "nat list \<Rightarrow> nat option \<Rightarrow> string \<Rightarrow> (nat list \<times> nat option \<times> string) option" where
  "v6_loop ip ell s =
     (if \<not> length ip < 16 then Some (ip, ell, s)
      else case hex_group 0 0 s of None \<Rightarrow> None
      | Some (off, acc, t) \<Rightarrow>
          if off = 0 then None
          else if take 1 t = ''.'' then
            (if ell = None \<and> length ip \<noteq> 12 then None
             else if length ip + 4 > 16 then None
             else (case v4_fields None 0 0 [] s of None \<Rightarrow> None
                   | Some fs \<Rightarrow> Some (ip @ fs, ell, [])))
          else
            (let ip' = ip @ [acc div 256, acc mod 256] in
             case t of [] \<Rightarrow> Some (ip', ell, [])
             | c # u \<Rightarrow>
                 if c \<noteq> CHR '':'' then None
                 else (case u of [] \<Rightarrow> None
                       | d # w \<Rightarrow>
                           if d = CHR '':'' then
                             (if ell \<noteq> None then None
                              else if w = [] then Some (ip', Some (length ip'), [])
                              else v6_loop ip' (Some (length ip')) w)
                           else v6_loop ip' ell u)))"
  by pat_completeness auto
termination
  by (relation "measure (\<lambda>(ip, ell, s). length s)") (auto dest!: hex_group_length)

declare v6_loop.simps [simp del]

definition v6_expand :: "nat list \<Rightarrow> nat option \<Rightarrow> nat list option" where
  "v6_expand ip ell =
     (if length ip < 16 then
        (case ell of None \<Rightarrow> None
         | Some e \<Rightarrow> Some (take e ip @ replicate (16 - length ip) 0 @ drop e ip))
      else if ell \<noteq> None then None else Some ip)"

definition v6_body :: "string \<Rightarrow> nat list option" where
  "v6_body s =
     (if take 2 s = ''::'' then
        (if drop 2 s = [] then Some (replicate 16 0)
         else (case v6_loop [] (Some 0) (drop 2 s) of None \<Rightarrow> None
               | Some (ip, ell, rest) \<Rightarrow> if rest \<noteq> [] then None else v6_expand ip ell))
      else (case v6_loop [] None s of None \<Rightarrow> None
            | Some (ip, ell, rest) \<Rightarrow> if rest \<noteq> [] then None else v6_expand ip ell))"

definition parseIPv6 :: "string \<Rightarrow> addr option" where
  "parseIPv6 s =
     (case find_index (\<lambda>c. c = CHR ''%'') s of
        None \<Rightarrow> map_option (\<lambda>b. V6 b []) (v6_body s)
      | Some i \<Rightarrow> if drop (Suc i) s = [] then None
                  else map_option (\<lambda>b. V6 b (drop (Suc i) s)) (v6_body (take i s)))"

fun parse_addr_scan :: "string \<Rightarrow> string \<Rightarrow> addr option" where
  "parse_addr_scan s [] = None"
| "parse_addr_scan s (c # cs) =
     (if c = CHR ''.'' then parseIPv4 s
      else if c = CHR '':'' then parseIPv6 s
      else if c = CHR ''%'' then None
      else parse_addr_scan s cs)"

definition ParseAddr :: "string \<Rightarrow> addr option" where
  "ParseAddr s = parse_addr_scan s s"

text \<open>\<^verbatim>\<open>netip.AddrFromSlice\<close>: 4 bytes give an IPv4 address, 16 bytes an IPv6
  address (an IPv4-mapped one included), any other length none.\<close>

definition AddrFromSlice :: "nat list \<Rightarrow> addr option" where
  "AddrFromSlice bs =
     (if length bs = 4 then Some (V4 (v4_of_fields bs))
      else if length bs = 16 then Some (V6 bs []) else None)"

text \<open>Parsing a printed dotted quad gives its bytes back.\<close>

definition show_v4 :: "nat \<Rightarrow> nat \<Rightarrow> nat \<Rightarrow> nat \<Rightarrow> string" where
  "show_v4 a b c d = dec_of_nat a @ ''.'' @ dec_of_nat b @ ''.'' @ dec_of_nat c @ ''.'' @ dec_of_nat d"

lemma dec_of_nat_lt_256:
  assumes "n < 256"
  shows "n < 10 \<and> dec_of_nat n = [digit_char n]
    \<or> 10 \<le> n \<and> n < 100 \<and> dec_of_nat n = [digit_char (n div 10), digit_char (n mod 10)]
    \<or> 100 \<le> n \<and> dec_of_nat n = [digit_char (n div 100), digit_char (n div 10 mod 10), digit_char (n mod 10)]"
proof -
  consider "n < 10" | "10 \<le> n" "n < 100" | "100 \<le> n" by linarith
  then show ?thesis
  proof cases
    case 1
    then show ?thesis by (subst dec_of_nat.simps) simp
  next
    case 2
    then have "dec_of_nat (n div 10) = [digit_char (n div 10)]" by (subst dec_of_nat.simps) auto
    with 2 show ?thesis by (subst (2) dec_of_nat.simps) auto
  next
    case 3
    with assms have "n div 10 \<ge> 10" "n div 10 div 10 < 10" by auto
    then have "dec_of_nat (n div 10 div 10) = [digit_char (n div 10 div 10)]"
      by (subst dec_of_nat.simps) auto
    with \<open>n div 10 \<ge> 10\<close> have "dec_of_nat (n div 10) = [digit_char (n div 10 div 10), digit_char (n div 10 mod 10)]"
      by (subst dec_of_nat.simps) auto
    with 3 have "dec_of_nat n = [digit_char (n div 10 div 10), digit_char (n div 10 mod 10), digit_char (n mod 10)]"
      by (subst dec_of_nat.simps) auto
    with 3 show ?thesis by (simp add: div_mult2_eq [symmetric])
  qed
qed

lemma v4_fields_dec:
  assumes "n < 256"
  obtains p k where "is_digit p" "v4_fields prev 0 0 fs (dec_of_nat n @ rest) = v4_fields (Some p) n k fs rest"
proof -
  have step: "v4_fields pr v l fs (digit_char d # r) = v4_fields (Some (digit_char d)) (v * 10 + d) (l + 1) fs r"
    if "d < 10" "v * 10 + d \<le> 255" "l = 1 \<longrightarrow> v \<noteq> 0" for pr v l d r
    using that by (auto simp: Let_def)
  have m: "n mod 10 < 10" "n div 10 mod 10 < 10" by simp_all
  from dec_of_nat_lt_256 [OF assms] consider
      (one) "n < 10" "dec_of_nat n = [digit_char n]"
    | (two) "10 \<le> n" "n < 100" "dec_of_nat n = [digit_char (n div 10), digit_char (n mod 10)]"
    | (three) "100 \<le> n" "dec_of_nat n = [digit_char (n div 100), digit_char (n div 10 mod 10), digit_char (n mod 10)]"
    by blast
  then show thesis
  proof cases
    case one
    then show thesis using step [of n 0 0 prev rest] that [of "digit_char n" 1] by simp
  next
    case two
    have "n div 10 < 10" "n div 10 \<noteq> 0" "n div 10 * 10 + n mod 10 = n" using two by auto
    then show thesis
      using two assms m step [of "n div 10" 0 0 prev] step [of "n mod 10" "n div 10" 1]
        that [of "digit_char (n mod 10)" 2] by (simp add: numeral_2_eq_2 del: v4_fields.simps)
  next
    case three
    have d: "n div 100 < 10" "n div 100 \<noteq> 0" using three assms by auto
    have h: "n div 100 = n div 10 div 10" by (simp add: div_mult2_eq [symmetric])
    have e: "n div 100 * 10 + n div 10 mod 10 = n div 10"
      unfolding h by (rule div_mult_mod_eq)
    have f: "n div 10 * 10 + n mod 10 = n" "n div 10 \<le> 255" using assms by auto
    show thesis
      using three assms m d e f step [of "n div 100" 0 0 prev] step [of "n div 10 mod 10" "n div 100" 1]
        step [of "n mod 10" "n div 10" 2] that [of "digit_char (n mod 10)" 3]
      by (simp add: numeral_2_eq_2 numeral_3_eq_3 del: v4_fields.simps)
  qed
qed

lemma v4_fields_dot:
  assumes "is_digit p" "length fs < 3" "rest \<noteq> []"
  shows "v4_fields (Some p) v k fs (CHR ''.'' # rest) = v4_fields (Some CHR ''.'') 0 0 (fs @ [v]) rest"
proof -
  have "\<not> is_digit CHR ''.''" using digit_head(3) by blast
  then show ?thesis using assms digit_head(3) [OF assms(1)] by simp
qed

lemma v4_fields_show:
  assumes "a < 256" "b < 256" "c < 256" "d < 256"
  shows "v4_fields None 0 0 [] (show_v4 a b c d) = Some [a, b, c, d]"
proof -
  obtain p1 k1 where 1: "is_digit p1" "v4_fields None 0 0 [] (dec_of_nat a @ CHR ''.'' # dec_of_nat b @ CHR ''.'' # dec_of_nat c @ CHR ''.'' # dec_of_nat d)
      = v4_fields (Some p1) a k1 [] (CHR ''.'' # dec_of_nat b @ CHR ''.'' # dec_of_nat c @ CHR ''.'' # dec_of_nat d)"
    by (rule v4_fields_dec [OF assms(1)])
  obtain p2 k2 where 2: "is_digit p2" "v4_fields (Some CHR ''.'') 0 0 [a] (dec_of_nat b @ CHR ''.'' # dec_of_nat c @ CHR ''.'' # dec_of_nat d)
      = v4_fields (Some p2) b k2 [a] (CHR ''.'' # dec_of_nat c @ CHR ''.'' # dec_of_nat d)"
    by (rule v4_fields_dec [OF assms(2)])
  obtain p3 k3 where 3: "is_digit p3" "v4_fields (Some CHR ''.'') 0 0 [a, b] (dec_of_nat c @ CHR ''.'' # dec_of_nat d)
      = v4_fields (Some p3) c k3 [a, b] (CHR ''.'' # dec_of_nat d)"
    by (rule v4_fields_dec [OF assms(3)])
  obtain p4 k4 where 4: "v4_fields (Some CHR ''.'') 0 0 [a, b, c] (dec_of_nat d @ [])
      = v4_fields (Some p4) d k4 [a, b, c] []"
    by (rule v4_fields_dec [OF assms(4)])
  show ?thesis
    using 1 2 3 4 by (simp add: show_v4_def v4_fields_dot del: v4_fields.simps(2))
qed

lemma parse_addr_scan_digits:
  "list_all is_digit ds \<Longrightarrow> parse_addr_scan s (ds @ CHR ''.'' # rest) = parseIPv4 s"
  by (induction ds) (auto dest: digit_head(3-5))

lemma ParseAddr_show_v4:
  assumes "a < 256" "b < 256" "c < 256" "d < 256"
  shows "ParseAddr (show_v4 a b c d) = Some (V4 (v4_of_fields [a, b, c, d]))"
proof -
  have "parse_addr_scan s (show_v4 a b c d) = parseIPv4 s" for s
    using parse_addr_scan_digits [OF dec_of_nat_digits [of a]] by (simp add: show_v4_def)
  then show ?thesis by (simp add: ParseAddr_def parseIPv4_def v4_fields_show [OF assms])
qed

subsection \<open>netip.ParsePrefix and Prefix.Contains\<close>

datatype netip_prefix = Prefix (prefix_addr: addr) (prefix_bits: nat)

definition last_index :: "char \<Rightarrow> string \<Rightarrow> nat option" where
  "last_index c s = map_option (\<lambda>i. length s - 1 - i) (find_index (\<lambda>x. x = c) (rev s))"

definition parse_bits :: "nat \<Rightarrow> string \<Rightarrow> nat option" where
  "parse_bits maxBits b =
     (if length b > 1 \<and> \<not> (CHR ''1'' \<le> hd b \<and> hd b \<le> CHR ''9'') then None
      else (case atoi b of None \<Rightarrow> None
            | Some n \<Rightarrow> if n < 0 \<or> n > int maxBits then None else Some (nat n)))"

definition ParsePrefix :: "string \<Rightarrow> netip_prefix option" where
  "ParsePrefix s =
     (case last_index CHR ''/'' s of None \<Rightarrow> None
      | Some i \<Rightarrow>
          (case ParseAddr (take i s) of None \<Rightarrow> None
           | Some (V4 a) \<Rightarrow> map_option (Prefix (V4 a)) (parse_bits 32 (drop (Suc i) s))
           | Some (V6 b zone) \<Rightarrow>
               if zone \<noteq> [] then None
               else map_option (Prefix (V6 b zone)) (parse_bits 128 (drop (Suc i) s))))"

text \<open>Only the IPv4 case of \<^verbatim>\<open>Contains\<close> is used: the filter drops the others.\<close>

definition contains4 :: "32 word \<Rightarrow> nat \<Rightarrow> 32 word \<Rightarrow> bool" where
  "contains4 p bits ip \<longleftrightarrow> drop_bit (32 - bits) (ip XOR p) = 0"

text \<open>Containment compares the leading bits.\<close>

lemma contains4_iff: "contains4 p bits ip \<longleftrightarrow> drop_bit (32 - bits) ip = drop_bit (32 - bits) p"
proof -
  have "drop_bit (32 - bits) (ip XOR p) = drop_bit (32 - bits) ip XOR drop_bit (32 - bits) p"
    by (rule drop_bit_xor)
  moreover have "a XOR b = 0 \<longleftrightarrow> a = b" for a b :: "32 word"
    by (simp add: bit_eq_iff bit_xor_iff)
  ultimately show ?thesis by (simp add: contains4_def)
qed

text \<open>On numbers: the network part, the quotient by the size of the block.\<close>

lemma contains4_div:
  "contains4 p bits ip \<longleftrightarrow> unat ip div 2 ^ (32 - bits) = unat p div 2 ^ (32 - bits)"
proof -
  have "unat (drop_bit n w) = unat w div 2 ^ n" for w :: "32 word" and n
    by (subst unat_drop_bit_eq) (rule drop_bit_eq_div)
  then show ?thesis
    unfolding contains4_iff by (simp add: word_unat_eq_iff)
qed

lemma contains4_0 [simp]: "contains4 p 0 ip"
proof -
  have "unat ip < 2 ^ 32" "unat p < 2 ^ 32" using unsigned_less [of ip] unsigned_less [of p] by simp_all
  then show ?thesis by (simp add: contains4_div)
qed

lemma contains4_32 [simp]: "contains4 p 32 ip \<longleftrightarrow> ip = p"
  by (simp add: contains4_iff)

lemma contains4_refl [simp]: "contains4 p bits p"
  by (simp add: contains4_iff)

lemma contains4_mono:
  assumes "contains4 p bits ip" "bits' \<le> bits" "bits \<le> 32"
  shows "contains4 p bits' ip"
proof -
  have "32 - bits' = (bits - bits') + (32 - bits)" using assms(2,3) by simp
  then show ?thesis using assms(1) unfolding contains4_iff
    by (metis drop_bit_drop_bit)
qed

text \<open>
  \<^verbatim>\<open>Prefix.Contains\<close>: an address with a zone or of the other family is never in
  the block.
\<close>

definition v6_value :: "nat list \<Rightarrow> nat" where
  "v6_value bs = foldl (\<lambda>acc b. acc * 256 + b) 0 bs"

fun Contains :: "netip_prefix \<Rightarrow> addr \<Rightarrow> bool" where
  "Contains (Prefix (V4 p) n) (V4 ip) = contains4 p n ip"
| "Contains (Prefix (V6 p zp) n) (V6 ip z) =
     (z = [] \<and> v6_value ip div 2 ^ (128 - n) = v6_value p div 2 ^ (128 - n))"
| "Contains (Prefix (V4 p) n) (V6 ip z) = False"
| "Contains (Prefix (V6 p zp) n) (V4 ip) = False"

subsection \<open>net.SplitHostPort and net.JoinHostPort\<close>

definition index_char :: "char \<Rightarrow> string \<Rightarrow> nat option" where
  "index_char c s = find_index (\<lambda>x. x = c) s"

lemma index_char_None [simp]: "index_char c s = None \<longleftrightarrow> c \<notin> set s"
  by (auto simp: index_char_def)

lemma last_index_None [simp]: "last_index c s = None \<longleftrightarrow> c \<notin> set s"
  by (auto simp: last_index_def)

text \<open>The last occurrence is where the string after it holds no other.\<close>

lemma find_index_append:
  "(\<forall>x \<in> set xs. \<not> p x) \<Longrightarrow> p y \<Longrightarrow> find_index p (xs @ y # ys) = Some (length xs)"
  by (induction xs) auto

lemma last_index_snoc [simp]:
  assumes "c \<notin> set t"
  shows "last_index c (s @ c # t) = Some (length s)"
proof -
  have "find_index (\<lambda>x. x = c) (rev t @ c # rev s) = Some (length (rev t))"
    using assms by (intro find_index_append) auto
  then show ?thesis by (simp add: last_index_def)
qed

definition SplitHostPort :: "string \<Rightarrow> (string \<times> string) option" where
  "SplitHostPort hostport =
     (case last_index CHR '':'' hostport of None \<Rightarrow> None
      | Some i \<Rightarrow>
          if hd hostport = CHR ''['' then
            (case index_char CHR '']'' hostport of None \<Rightarrow> None
             | Some e \<Rightarrow>
                 if e + 1 \<noteq> i then None
                 else if CHR ''['' \<in> set (drop 1 hostport) then None
                 else if CHR '']'' \<in> set (drop (e + 1) hostport) then None
                 else Some (take (e - 1) (drop 1 hostport), drop (Suc i) hostport))
          else if CHR '':'' \<in> set (take i hostport) then None
          else if CHR ''['' \<in> set hostport then None
          else if CHR '']'' \<in> set hostport then None
          else Some (take i hostport, drop (Suc i) hostport))"

definition JoinHostPort :: "string \<Rightarrow> string \<Rightarrow> string" where
  "JoinHostPort host port =
     (if CHR '':'' \<in> set host then ''['' @ host @ '']:'' @ port else host @ '':'' @ port)"

text \<open>A host without brackets or colons and a port without them split as they were joined.\<close>

lemma SplitHostPort_JoinHostPort:
  assumes "set host \<inter> {CHR ''['', CHR '']''} = {}" "set port \<inter> {CHR '':'', CHR ''['', CHR '']''} = {}"
  shows "SplitHostPort (JoinHostPort host port) = Some (host, port)"
proof (cases "CHR '':'' \<in> set host")
  case True
  have li: "last_index CHR '':'' ((CHR ''['' # host @ '']'') @ CHR '':'' # port) = Some (length (CHR ''['' # host @ '']''))"
    using assms by (intro last_index_snoc) auto
  have ix: "index_char CHR '']'' ((CHR ''['' # host) @ CHR '']'' # CHR '':'' # port) = Some (length (CHR ''['' # host))"
    unfolding index_char_def using assms by (intro find_index_append) auto
  from True li ix assms show ?thesis
    by (simp add: JoinHostPort_def SplitHostPort_def)
next
  case False
  have li: "last_index CHR '':'' (host @ CHR '':'' # port) = Some (length host)"
    using assms by (intro last_index_snoc) auto
  have "hd (host @ CHR '':'' # port) \<noteq> CHR ''[''" using assms by (cases host) auto
  with False li assms show ?thesis
    by (simp add: JoinHostPort_def SplitHostPort_def)
qed

subsection \<open>Parsing a printed block\<close>

lemma parse_bits_dec:
  assumes "n \<le> 32"
  shows "parse_bits 32 (dec_of_nat n) = Some n"
proof -
  have "CHR ''1'' \<le> digit_char d \<and> digit_char d \<le> CHR ''9''" if "0 < d" "d < 10" for d
    using that by (simp add: less_eq_char_def of_char_digit_char)
  then have "\<not> (length (dec_of_nat n) > 1 \<and> \<not> (CHR ''1'' \<le> hd (dec_of_nat n) \<and> hd (dec_of_nat n) \<le> CHR ''9''))"
    using dec_of_nat_lt_256 [of n] assms by auto
  moreover have "atoi (dec_of_nat n) = Some (int n)" using assms by (intro atoi_dec_of_nat) simp
  ultimately show ?thesis using assms by (auto simp: parse_bits_def)
qed

lemma slash_notin_dec: "CHR ''/'' \<notin> set (dec_of_nat n)"
  using dec_of_nat_digits [of n] digit_head(6) by (auto simp: list_all_iff)

lemma ParsePrefix_show:
  assumes "a < 256" "b < 256" "c < 256" "d < 256" "n \<le> 32"
  shows "ParsePrefix (show_v4 a b c d @ ''/'' @ dec_of_nat n) = Some (Prefix (V4 (v4_of_fields [a, b, c, d])) n)"
  using assms slash_notin_dec [of n]
  by (simp add: ParsePrefix_def ParseAddr_show_v4 parse_bits_dec)

end
