(* ===== verification/Allowlist.thy ===== *)
theory Allowlist
  imports NetAddr
begin

text \<open>
  Network egress control: the rule check of the worker
  (\<^verbatim>\<open>pkg/worker/net_allowlist.go\<close>) and the proxy that enforces the rules
  (\<^verbatim>\<open>cmd/net-policy-proxy/main.go\<close>). The two check the same rules with code of
  their own; the first group of lemmas shows that they agree, the second what the proxy lets
  through, the third that its two handlers contact nothing else. Name resolution, dialling and the
  round trip to the upstream server are arguments.
\<close>

subsection \<open>Rules and their check\<close>

text \<open>
  \<^verbatim>\<open>NetworkAllowRule\<close> of the worker's configuration and \<^verbatim>\<open>rule\<close> of the
  proxy have the same fields; the worker hands the list over as a JSON file.
\<close>

record NetworkAllowRule =
  nar_Host :: string
  nar_CIDR :: string
  nar_Protocol :: string
  nar_Ports :: "int list"

datatype rule_error =
    InvalidProtocol string
  | InvalidPort int
  | RequiresHostOrCidr
  | BothHostAndCidr
  | InvalidCidr string

text \<open>The worker: \<^verbatim>\<open>None\<close> is a nil error.\<close>

fun check_ports :: "int list \<Rightarrow> rule_error option" where
  "check_ports [] = None"
| "check_ports (p # ps) = (if p \<le> 0 \<or> p > 65535 then Some (InvalidPort p) else check_ports ps)"

fun ValidateNetworkAllowlist :: "NetworkAllowRule list \<Rightarrow> rule_error option" where
  "ValidateNetworkAllowlist [] = None"
| "ValidateNetworkAllowlist (r # rules) =
     (let proto = (let p = to_lower (trim_space (nar_Protocol r)) in if p = '''' then ''tcp'' else p);
          ports = (if nar_Ports r = [] then [443] else nar_Ports r);
          host = trim_space (nar_Host r);
          cidr = trim_space (nar_CIDR r)
      in if proto \<noteq> ''tcp'' then Some (InvalidProtocol (nar_Protocol r))
         else (case check_ports ports of Some e \<Rightarrow> Some e
         | None \<Rightarrow>
             if host = '''' \<and> cidr = '''' then Some RequiresHostOrCidr
             else if host \<noteq> '''' \<and> cidr \<noteq> '''' then Some BothHostAndCidr
             else if cidr \<noteq> '''' then
               (case ParsePrefix cidr of None \<Rightarrow> Some (InvalidCidr cidr)
                | Some pfx \<Rightarrow> ValidateNetworkAllowlist rules)
             else ValidateNetworkAllowlist rules))"

text \<open>
  The proxy: a loaded rule. A prefix is present exactly where \<^verbatim>\<open>hasPrefix\<close> is set; the
  port set is a set of integers.
\<close>

record allowRule =
  exactHost :: string
  wildcardBase :: string
  prefix_of :: "netip_prefix option"
  ports_of :: "int set"

record allowlist =
  hostRules :: "allowRule list"
  cidrRules :: "allowRule list"

fun port_set :: "int set \<Rightarrow> int list \<Rightarrow> rule_error + int set" where
  "port_set acc [] = Inr acc"
| "port_set acc (p # ps) =
     (if p \<le> 0 \<or> p > 65535 then Inl (InvalidPort p) else port_set (insert p acc) ps)"

fun load_rules :: "allowlist \<Rightarrow> NetworkAllowRule list \<Rightarrow> rule_error + allowlist" where
  "load_rules al [] = Inr al"
| "load_rules al (r # rules) =
     (let proto = (let p = to_lower (trim_space (nar_Protocol r)) in if p = '''' then ''tcp'' else p);
          ports = (if nar_Ports r = [] then [443] else nar_Ports r);
          host = to_lower (trim_space (nar_Host r));
          cidr = trim_space (nar_CIDR r)
      in if proto \<noteq> ''tcp'' then Inl (InvalidProtocol (nar_Protocol r))
         else (case port_set {} ports of Inl e \<Rightarrow> Inl e
         | Inr ps \<Rightarrow>
             if host = '''' \<and> cidr = '''' then Inl RequiresHostOrCidr
             else if host \<noteq> '''' \<and> cidr \<noteq> '''' then Inl BothHostAndCidr
             else
               (let ar = \<lparr>exactHost = '''', wildcardBase = '''', prefix_of = None, ports_of = ps\<rparr>
                in if host \<noteq> '''' then
                     (let ar' = (if prefix ''*.'' host
                                 then ar\<lparr>wildcardBase := trim_prefix ''*.'' host\<rparr>
                                 else ar\<lparr>exactHost := host\<rparr>)
                      in load_rules (al\<lparr>hostRules := hostRules al @ [ar']\<rparr>) rules)
                   else
                     (case ParsePrefix cidr of None \<Rightarrow> Inl (InvalidCidr cidr)
                      | Some p \<Rightarrow>
                          if \<not> Is4 (prefix_addr p) then load_rules al rules
                          else load_rules
                            (al\<lparr>cidrRules := cidrRules al @ [ar\<lparr>prefix_of := Some p\<rparr>]\<rparr>) rules))))"

datatype load_error = AllowlistUnreadable | AllowlistNotJson | BadRule rule_error

text \<open>The file as the proxy finds it: reading and JSON decoding may fail.\<close>

datatype allow_file = Unreadable | NotJson | Rules "NetworkAllowRule list"

fun loadAllowlist :: "allow_file \<Rightarrow> load_error + allowlist" where
  "loadAllowlist Unreadable = Inl AllowlistUnreadable"
| "loadAllowlist NotJson = Inl AllowlistNotJson"
| "loadAllowlist (Rules rules) =
     (case load_rules \<lparr>hostRules = [], cidrRules = []\<rparr> rules of
        Inl e \<Rightarrow> Inl (BadRule e) | Inr al \<Rightarrow> Inr al)"

subsection \<open>What the proxy lets through\<close>

definition portAllowed :: "int set \<Rightarrow> int \<Rightarrow> bool" where
  "portAllowed ps port \<longleftrightarrow> port \<in> ps"

fun ip_scan :: "allowRule list \<Rightarrow> addr \<Rightarrow> int \<Rightarrow> bool" where
  "ip_scan [] ip port = False"
| "ip_scan (r # rs) ip port =
     (case prefix_of r of None \<Rightarrow> ip_scan rs ip port
      | Some p \<Rightarrow>
          if \<not> portAllowed (ports_of r) port then ip_scan rs ip port
          else if Contains p ip then True else ip_scan rs ip port)"

definition allowedIP :: "allowlist \<Rightarrow> addr \<Rightarrow> int \<Rightarrow> bool" where
  "allowedIP al ip port = ip_scan (cidrRules al) ip port"

fun host_scan :: "allowRule list \<Rightarrow> string \<Rightarrow> int \<Rightarrow> bool" where
  "host_scan [] h port = False"
| "host_scan (r # rs) h port =
     (if \<not> portAllowed (ports_of r) port then host_scan rs h port
      else if exactHost r \<noteq> '''' \<and> h = exactHost r then True
      else if wildcardBase r \<noteq> '''' \<and>
              (h = wildcardBase r \<or> suffix (''.'' @ wildcardBase r) h) then True
      else host_scan rs h port)"

fun addr_scan :: "allowlist \<Rightarrow> nat list list \<Rightarrow> int \<Rightarrow> bool" where
  "addr_scan al [] port = False"
| "addr_scan al (a # as) port =
     (case AddrFromSlice a of None \<Rightarrow> addr_scan al as port
      | Some ip \<Rightarrow>
          if \<not> Is4 ip then addr_scan al as port
          else if allowedIP al ip port then True else addr_scan al as port)"

text \<open>
  \<open>resolve\<close> is the resolver: the byte slices of the addresses of a name, or an error.
\<close>

definition allowed :: "allowlist \<Rightarrow> (string \<Rightarrow> nat list list option) \<Rightarrow> string \<Rightarrow> int \<Rightarrow> bool" where
  "allowed al resolve host port =
     (let h = to_lower (trim_space host) in
      if h = '''' \<or> port \<le> 0 \<or> port > 65535 then False
      else (case ParseAddr h of
        Some (V4 w) \<Rightarrow> allowedIP al (V4 w) port
      | _ \<Rightarrow>
          if host_scan (hostRules al) h port then True
          else (case resolve h of None \<Rightarrow> False
                | Some addrs \<Rightarrow> addr_scan al addrs port)))"

subsection \<open>The two rule checks agree\<close>

text \<open>
  A rule list grants by some rule, each on its own: the contract of the scans above.
  Clients of a permit list get that an empty list grants nothing, that order and repetition
  do not matter and that a rule more never takes a permission away.
\<close>

locale permit_list =
  fixes permits :: "'r list \<Rightarrow> 'q \<Rightarrow> bool"
    and grants :: "'r \<Rightarrow> 'q \<Rightarrow> bool"
  assumes permits_some: "permits rs q \<longleftrightarrow> (\<exists>r \<in> set rs. grants r q)"
begin

lemma permits_none: "\<not> permits [] q"
  by (simp add: permits_some)

lemma permits_append: "permits (rs @ rs') q \<longleftrightarrow> permits rs q \<or> permits rs' q"
  by (auto simp: permits_some)

lemma permits_grow: "permits rs q \<Longrightarrow> set rs \<subseteq> set rs' \<Longrightarrow> permits rs' q"
  by (auto simp: permits_some)

end

definition grants_ip :: "allowRule \<Rightarrow> addr \<times> int \<Rightarrow> bool" where
  "grants_ip r q \<longleftrightarrow>
     (\<exists>p. prefix_of r = Some p \<and> snd q \<in> ports_of r \<and> Contains p (fst q))"

definition matches_host :: "allowRule \<Rightarrow> string \<Rightarrow> bool" where
  "matches_host r h \<longleftrightarrow>
     exactHost r \<noteq> '''' \<and> h = exactHost r \<or>
     wildcardBase r \<noteq> '''' \<and> (h = wildcardBase r \<or> suffix (''.'' @ wildcardBase r) h)"

definition grants_host :: "allowRule \<Rightarrow> string \<times> int \<Rightarrow> bool" where
  "grants_host r q \<longleftrightarrow> snd q \<in> ports_of r \<and> matches_host r (fst q)"

lemma ip_scan_some: "ip_scan rs ip port \<longleftrightarrow> (\<exists>r \<in> set rs. grants_ip r (ip, port))"
  by (induction rs) (auto simp: grants_ip_def portAllowed_def split: option.splits)

lemma host_scan_some: "host_scan rs h port \<longleftrightarrow> (\<exists>r \<in> set rs. grants_host r (h, port))"
  by (induction rs) (auto simp: grants_host_def matches_host_def portAllowed_def)

interpretation cidr: permit_list "\<lambda>rs q. ip_scan rs (fst q) (snd q)" grants_ip
  by unfold_locales (simp add: ip_scan_some)

interpretation host: permit_list "\<lambda>rs q. host_scan rs (fst q) (snd q)" grants_host
  by unfold_locales (simp add: host_scan_some)

lemma addr_scan_some:
  "addr_scan al as port \<longleftrightarrow> (\<exists>a \<in> set as. \<exists>w. AddrFromSlice a = Some (V4 w) \<and> allowedIP al (V4 w) port)"
proof (induction as)
  case Nil
  then show ?case by simp
next
  case (Cons a as)
  show ?case
  proof (cases "AddrFromSlice a")
    case None
    with Cons show ?thesis by simp
  next
    case (Some ip)
    with Cons show ?thesis by (cases ip) auto
  qed
qed

lemma port_set_check:
  "port_set acc ps = (case check_ports ps of Some e \<Rightarrow> Inl e | None \<Rightarrow> Inr (acc \<union> set ps))"
  by (induction ps arbitrary: acc) (auto split: option.splits)

lemma load_rules_check:
  "(case load_rules al rules of Inl e \<Rightarrow> Some e | Inr al' \<Rightarrow> None) = ValidateNetworkAllowlist rules"
proof (induction rules arbitrary: al)
  case Nil
  then show ?case by simp
next
  case (Cons r rules)
  show ?case
    by (simp add: Let_def port_set_check Cons.IH split: option.split)
qed

text \<open>C1: The worker's check and the proxy's loader agree on every rule list: the loader fails
  exactly where the check fails and with the same error, so a run whose rules passed the check
  never leaves its proxy without rules.\<close>

theorem validate_agrees_with_load:
  "loadAllowlist (Rules rules) = Inl e \<longleftrightarrow>
     (\<exists>re. ValidateNetworkAllowlist rules = Some re \<and> e = BadRule re)"
  using load_rules_check [of "\<lparr>hostRules = [], cidrRules = []\<rparr>" rules]
  by (cases "load_rules \<lparr>hostRules = [], cidrRules = []\<rparr> rules") auto

subsection \<open>What a rule list permits\<close>

text \<open>The specification: what a rule means, read off the configuration alone.\<close>

definition rule_ports :: "NetworkAllowRule \<Rightarrow> int set" where
  "rule_ports r = (if nar_Ports r = [] then {443} else set (nar_Ports r))"

definition rule_host :: "NetworkAllowRule \<Rightarrow> string" where
  "rule_host r = to_lower (trim_space (nar_Host r))"

definition grants_name :: "NetworkAllowRule \<Rightarrow> string \<Rightarrow> int \<Rightarrow> bool" where
  "grants_name r h port \<longleftrightarrow> port \<in> rule_ports r \<and> rule_host r \<noteq> '''' \<and>
     (if prefix ''*.'' (rule_host r)
      then (let base = drop 2 (rule_host r) in base \<noteq> '''' \<and> (h = base \<or> suffix (''.'' @ base) h))
      else h = rule_host r)"

definition grants_addr :: "NetworkAllowRule \<Rightarrow> 32 word \<Rightarrow> int \<Rightarrow> bool" where
  "grants_addr r w port \<longleftrightarrow> port \<in> rule_ports r \<and> rule_host r = '''' \<and>
     (case ParsePrefix (trim_space (nar_CIDR r)) of
        Some (Prefix (V4 p) n) \<Rightarrow> contains4 p n w | _ \<Rightarrow> False)"

definition permitted :: "NetworkAllowRule list \<Rightarrow> (string \<Rightarrow> nat list list option) \<Rightarrow> string \<Rightarrow> int \<Rightarrow> bool" where
  "permitted rules resolve h port \<longleftrightarrow>
     (case ParseAddr h of Some (V4 w) \<Rightarrow> \<exists>r \<in> set rules. grants_addr r w port
      | _ \<Rightarrow> (\<exists>r \<in> set rules. grants_name r h port) \<or>
          (\<exists>addrs a w. resolve h = Some addrs \<and> a \<in> set addrs \<and> AddrFromSlice a = Some (V4 w)
             \<and> (\<exists>r \<in> set rules. grants_addr r w port)))"

lemma port_set_rule:
  "port_set {} (if nar_Ports r = [] then [443] else nar_Ports r) = Inr ps \<Longrightarrow> ps = rule_ports r"
  by (auto simp: port_set_check rule_ports_def split: option.splits if_splits)

lemma check_ports_None: "check_ports ps = None \<longleftrightarrow> (\<forall>p \<in> set ps. 0 < p \<and> p \<le> 65535)"
  by (induction ps) auto

lemma load_host_rules:
  "load_rules al rules = Inr al' \<Longrightarrow>
     host_scan (hostRules al') h port \<longleftrightarrow>
       host_scan (hostRules al) h port \<or> (\<exists>r \<in> set rules. grants_name r h port)"
proof (induction rules arbitrary: al)
  case Nil
  then show ?case by simp
next
  case (Cons r rules)
  obtain ps where ps: "port_set {} (if nar_Ports r = [] then [443] else nar_Ports r) = Inr ps"
    using Cons.prems by (auto simp: Let_def split: if_splits sum.splits)
  note P = port_set_rule [OF ps]
  show ?case
  proof (cases "rule_host r = ''''")
    case True
    obtain al1 where "load_rules al1 rules = Inr al'" "hostRules al1 = hostRules al"
      using Cons.prems True ps
      by (auto simp: Let_def rule_host_def split: if_splits option.splits sum.splits)
    moreover have "\<not> grants_name r h port" using True by (simp add: grants_name_def)
    ultimately show ?thesis using Cons.IH [of al1] by simp
  next
    case False
    define e where "e = (if prefix ''*.'' (rule_host r)
        then \<lparr>exactHost = '''', wildcardBase = trim_prefix ''*.'' (rule_host r), prefix_of = None, ports_of = ps\<rparr>
        else \<lparr>exactHost = rule_host r, wildcardBase = '''', prefix_of = None, ports_of = ps\<rparr>)"
    have "load_rules (al\<lparr>hostRules := hostRules al @ [e]\<rparr>) rules = Inr al'"
      using Cons.prems False ps
      by (simp add: Let_def rule_host_def e_def split: if_splits)
    from Cons.IH [OF this] have "host_scan (hostRules al') h port \<longleftrightarrow>
        host_scan (hostRules al) h port \<or> grants_host e (h, port) \<or> (\<exists>r \<in> set rules. grants_name r h port)"
      using host.permits_append [of "hostRules al" "[e]" "(h, port)"] by (auto simp: host_scan_some)
    moreover have "grants_host e (h, port) \<longleftrightarrow> grants_name r h port"
      using False by (auto simp: e_def grants_host_def matches_host_def grants_name_def P trim_prefix_def Let_def numeral_2_eq_2)
    ultimately show ?thesis by simp
  qed
qed

lemma load_cidr_rules:
  "load_rules al rules = Inr al' \<Longrightarrow>
     ip_scan (cidrRules al') (V4 w) port \<longleftrightarrow>
       ip_scan (cidrRules al) (V4 w) port \<or> (\<exists>r \<in> set rules. grants_addr r w port)"
proof (induction rules arbitrary: al)
  case Nil
  then show ?case by simp
next
  case (Cons r rules)
  obtain ps where ps: "port_set {} (if nar_Ports r = [] then [443] else nar_Ports r) = Inr ps"
    using Cons.prems by (auto simp: Let_def split: if_splits sum.splits)
  note P = port_set_rule [OF ps]
  show ?case
  proof (cases "rule_host r = ''''")
    case False
    obtain al1 where "load_rules al1 rules = Inr al'" "cidrRules al1 = cidrRules al"
      using Cons.prems False ps
      by (auto simp: Let_def rule_host_def split: if_splits option.splits sum.splits)
    moreover have "\<not> grants_addr r w port" using False by (simp add: grants_addr_def)
    ultimately show ?thesis using Cons.IH [of al1] by simp
  next
    case True
    obtain pfx where "ParsePrefix (trim_space (nar_CIDR r)) = Some pfx"
      using Cons.prems True ps
      by (auto simp: Let_def rule_host_def split: if_splits option.splits)
    then obtain a n where pp: "ParsePrefix (trim_space (nar_CIDR r)) = Some (Prefix a n)"
      by (cases pfx) simp
    show ?thesis
    proof (cases a)
      case (V6 b z)
      then have "load_rules al rules = Inr al'"
        using Cons.prems True ps pp by (simp add: Let_def rule_host_def split: if_splits)
      moreover have "\<not> grants_addr r w port" using V6 pp by (simp add: grants_addr_def)
      ultimately show ?thesis using Cons.IH [of al] by simp
    next
      case (V4 p)
      define e where "e = \<lparr>exactHost = '''', wildcardBase = '''', prefix_of = Some (Prefix a n), ports_of = ps\<rparr>"
      have "load_rules (al\<lparr>cidrRules := cidrRules al @ [e]\<rparr>) rules = Inr al'"
        using Cons.prems True ps pp V4 by (simp add: Let_def rule_host_def e_def split: if_splits)
      from Cons.IH [OF this] have "ip_scan (cidrRules al') (V4 w) port \<longleftrightarrow>
          ip_scan (cidrRules al) (V4 w) port \<or> grants_ip e (V4 w, port) \<or> (\<exists>r \<in> set rules. grants_addr r w port)"
        using cidr.permits_append [of "cidrRules al" "[e]" "(V4 w, port)"] by (auto simp: ip_scan_some)
      moreover have "grants_ip e (V4 w, port) \<longleftrightarrow> grants_addr r w port"
        using True V4 pp by (auto simp: e_def grants_ip_def grants_addr_def P)
      ultimately show ?thesis by simp
    qed
  qed
qed

lemma loaded_scans:
  assumes "loadAllowlist (Rules rules) = Inr al"
  shows "host_scan (hostRules al) h port \<longleftrightarrow> (\<exists>r \<in> set rules. grants_name r h port)"
    and "allowedIP al (V4 w) port \<longleftrightarrow> (\<exists>r \<in> set rules. grants_addr r w port)"
proof -
  have L: "load_rules \<lparr>hostRules = [], cidrRules = []\<rparr> rules = Inr al"
    using assms by (auto split: sum.splits)
  show "host_scan (hostRules al) h port \<longleftrightarrow> (\<exists>r \<in> set rules. grants_name r h port)"
    using load_host_rules [OF L] by simp
  show "allowedIP al (V4 w) port \<longleftrightarrow> (\<exists>r \<in> set rules. grants_addr r w port)"
    using load_cidr_rules [OF L] by (simp add: allowedIP_def)
qed

text \<open>C2: The proxy lets a host and a port through exactly where the configured rules permit
  the trimmed, lower-cased name: a dotted quad only through an IPv4 block that holds it, any other
  name through a host rule (exact, or a wildcard for the base itself and the names below it) or
  through a block that holds one of the IPv4 addresses the name resolves to; every rule only
  for its own ports.\<close>

theorem allowed_iff_permitted:
  assumes "loadAllowlist (Rules rules) = Inr al"
  shows "allowed al resolve host port \<longleftrightarrow>
    0 < port \<and> port \<le> 65535 \<and> to_lower (trim_space host) \<noteq> ''''
    \<and> permitted rules resolve (to_lower (trim_space host)) port"
proof (cases "ParseAddr (to_lower (trim_space host))")
  case None
  then show ?thesis
    using loaded_scans [OF assms]
    by (auto simp: allowed_def permitted_def Let_def addr_scan_some split: option.splits)
next
  case (Some a)
  then show ?thesis
    using loaded_scans [OF assms]
    by (cases a) (auto simp: allowed_def permitted_def Let_def addr_scan_some split: option.splits)
qed

text \<open>An empty list: the default of a run without rules is to reach nothing.\<close>

lemma empty_allowlist_denies:
  assumes "loadAllowlist (Rules []) = Inr al"
  shows "\<not> allowed al resolve host port"
  using allowed_iff_permitted [OF assms] by (auto simp: permitted_def split: option.splits addr.splits)

subsection \<open>The handlers\<close>

text \<open>
  A handler is the list of what it does to the outside, in order. \<open>Respond\<close> carries the
  status, the body and whether the policy header is set; \<open>Tunnel\<close> is the copying in both
  directions.
\<close>

datatype proxy_effect =
    Dial string
  | CloseDst
  | Respond nat string bool
  | Established
  | Tunnel
  | Forward string string
  | Relay nat

definition parsePort :: "string \<Rightarrow> int option" where
  "parsePort s =
     (case sscanf_d s of None \<Rightarrow> None
      | Some p \<Rightarrow> if p \<le> 0 \<or> p > 65535 then None else Some p)"

datatype hijack = HijackOk | HijackUnsupported | HijackFails

definition handleConnect :: "allowlist \<Rightarrow> (string \<Rightarrow> nat list list option) \<Rightarrow> (string \<Rightarrow> bool) \<Rightarrow> hijack \<Rightarrow> string \<Rightarrow> proxy_effect list" where
  "handleConnect al resolve dials hj reqHost =
     (case SplitHostPort reqHost of
        None \<Rightarrow> [Respond 400 ''bad connect host'' False]
      | Some (host, portStr) \<Rightarrow>
          (case parsePort portStr of
             None \<Rightarrow> [Respond 400 ''bad connect port'' False]
           | Some port \<Rightarrow>
               if \<not> allowed al resolve host port then [Respond 403 ''blocked by allowlist'' True]
               else if \<not> dials (JoinHostPort host portStr)
               then [Dial (JoinHostPort host portStr), Respond 502 ''dial failed'' False]
               else Dial (JoinHostPort host portStr) #
                 (case hj of
                    HijackUnsupported \<Rightarrow> [CloseDst, Respond 500 ''hijack unsupported'' False]
                  | HijackFails \<Rightarrow> [CloseDst]
                  | HijackOk \<Rightarrow> [Established, Tunnel, CloseDst])))"

definition splitHostPortDefault :: "string \<Rightarrow> string \<Rightarrow> string \<times> int" where
  "splitHostPortDefault hostport scheme =
     (case (if CHR '':'' \<in> set hostport then SplitHostPort hostport else None) of
        Some (host, portStr) \<Rightarrow>
          (host, case parsePort portStr of None \<Rightarrow> 0 | Some p \<Rightarrow> p)
      | None \<Rightarrow> if scheme = ''https'' then (hostport, 443) else (hostport, 80))"

text \<open>
  A plain request: the URL is absolute or is completed with the scheme \<^verbatim>\<open>http\<close> and the
  request's host. \<open>upstream\<close> is the round trip: the status of the answer, or an error.
\<close>

record proxy_url =
  url_Scheme :: string
  url_Host :: string

definition IsAbs :: "proxy_url \<Rightarrow> bool" where
  "IsAbs u \<longleftrightarrow> url_Scheme u \<noteq> ''''"

definition handleHTTP :: "allowlist \<Rightarrow> (string \<Rightarrow> nat list list option) \<Rightarrow> (string \<Rightarrow> string \<Rightarrow> nat option) \<Rightarrow> proxy_url \<Rightarrow> string \<Rightarrow> proxy_effect list" where
  "handleHTTP al resolve upstream u reqHost =
     (let target = (if IsAbs u then u else u\<lparr>url_Scheme := ''http'', url_Host := reqHost\<rparr>);
          (host, port) = splitHostPortDefault (url_Host target) (url_Scheme target)
      in if \<not> allowed al resolve host port then [Respond 403 ''blocked by allowlist'' True]
         else Forward (url_Scheme target) (url_Host target) #
           (case upstream (url_Scheme target) (url_Host target) of
              None \<Rightarrow> [Respond 502 ''upstream error'' False]
            | Some status \<Rightarrow> [Relay status]))"

definition ServeHTTP :: "allowlist \<Rightarrow> (string \<Rightarrow> nat list list option) \<Rightarrow> (string \<Rightarrow> bool) \<Rightarrow> hijack \<Rightarrow>
    (string \<Rightarrow> string \<Rightarrow> nat option) \<Rightarrow> string \<Rightarrow> proxy_url \<Rightarrow> string \<Rightarrow> proxy_effect list" where
  "ServeHTTP al resolve dials hj upstream meth u reqHost =
     (if meth = ''CONNECT'' then handleConnect al resolve dials hj reqHost
      else handleHTTP al resolve upstream u reqHost)"

lemma handleConnect_dials:
  assumes "Dial a \<in> set (handleConnect al resolve dials hj reqHost)"
  obtains host portStr port where "SplitHostPort reqHost = Some (host, portStr)"
    "parsePort portStr = Some port" "allowed al resolve host port" "a = JoinHostPort host portStr"
  using assms by (auto simp: handleConnect_def split: option.splits if_splits hijack.splits)

lemma handleHTTP_forwards:
  assumes "Forward s h \<in> set (handleHTTP al resolve upstream u reqHost)"
  shows "allowed al resolve (fst (splitHostPortDefault h s)) (snd (splitHostPortDefault h s))"
  using assms by (auto simp: handleHTTP_def Let_def case_prod_beta split: option.splits if_splits)

lemma handler_kinds:
  "Forward s h \<notin> set (handleConnect al resolve dials hj reqHost)"
  "Dial a \<notin> set (handleHTTP al resolve upstream u reqHost)"
  by (auto simp: handleConnect_def handleHTTP_def Let_def split: option.splits if_splits hijack.splits prod.splits)

text \<open>C3: No request makes the proxy contact a destination the rules do not permit: a tunnel is
  dialled only to a host and port that passed the filter, a plain request is forwarded only to one
  that did, and a blocked request contacts nothing and is answered 403 with the policy header.\<close>

theorem proxy_contacts_only_allowed:
  "(\<forall>a. Dial a \<in> set (ServeHTTP al resolve dials hj upstream meth u reqHost) \<longrightarrow>
      (\<exists>host portStr port. SplitHostPort reqHost = Some (host, portStr) \<and> parsePort portStr = Some port
         \<and> allowed al resolve host port \<and> a = JoinHostPort host portStr))
   \<and> (\<forall>s h. Forward s h \<in> set (ServeHTTP al resolve dials hj upstream meth u reqHost) \<longrightarrow>
      allowed al resolve (fst (splitHostPortDefault h s)) (snd (splitHostPortDefault h s)))
   \<and> (Respond 403 ''blocked by allowlist'' True \<in> set (ServeHTTP al resolve dials hj upstream meth u reqHost)
      \<longrightarrow> ServeHTTP al resolve dials hj upstream meth u reqHost = [Respond 403 ''blocked by allowlist'' True])"
proof (intro conjI allI impI)
  fix a assume "Dial a \<in> set (ServeHTTP al resolve dials hj upstream meth u reqHost)"
  then have "Dial a \<in> set (handleConnect al resolve dials hj reqHost)"
    using handler_kinds(2) by (auto simp: ServeHTTP_def split: if_splits)
  then show "\<exists>host portStr port. SplitHostPort reqHost = Some (host, portStr) \<and> parsePort portStr = Some port
         \<and> allowed al resolve host port \<and> a = JoinHostPort host portStr"
    by (rule handleConnect_dials) blast
next
  fix s h assume "Forward s h \<in> set (ServeHTTP al resolve dials hj upstream meth u reqHost)"
  then show "allowed al resolve (fst (splitHostPortDefault h s)) (snd (splitHostPortDefault h s))"
    using handler_kinds(1) by (auto simp: ServeHTTP_def split: if_splits dest: handleHTTP_forwards)
next
  assume "Respond 403 ''blocked by allowlist'' True \<in> set (ServeHTTP al resolve dials hj upstream meth u reqHost)"
  then show "ServeHTTP al resolve dials hj upstream meth u reqHost = [Respond 403 ''blocked by allowlist'' True]"
    by (auto simp: ServeHTTP_def handleConnect_def handleHTTP_def Let_def
        split: option.splits if_splits hijack.splits prod.splits)
qed

text \<open>A rule list for the witnesses: one host, one wildcard, one block.\<close>

definition demo_rules :: "NetworkAllowRule list" where
  "demo_rules =
     [\<lparr>nar_Host = '' API.example.com '', nar_CIDR = '''', nar_Protocol = '''', nar_Ports = []\<rparr>,
      \<lparr>nar_Host = ''*.example.org'', nar_CIDR = '''', nar_Protocol = ''tcp'', nar_Ports = [443, 8443]\<rparr>,
      \<lparr>nar_Host = '''', nar_CIDR = ''10.1.0.0/16'', nar_Protocol = ''TCP'', nar_Ports = [80]\<rparr>]"

definition demo_allowlist :: allowlist where
  "demo_allowlist = \<lparr>
     hostRules = [\<lparr>exactHost = ''api.example.com'', wildcardBase = '''', prefix_of = None, ports_of = {443}\<rparr>,
       \<lparr>exactHost = '''', wildcardBase = ''example.org'', prefix_of = None, ports_of = {443, 8443}\<rparr>],
     cidrRules = [\<lparr>exactHost = '''', wildcardBase = '''', prefix_of = Some (Prefix (V4 0x0A010000) 16), ports_of = {80}\<rparr>]\<rparr>"

lemma demo_loads: "loadAllowlist (Rules demo_rules) = Inr demo_allowlist"
  by code_simp

lemma allowed_iff_permitted_witness:
  "(allowed demo_allowlist (\<lambda>_. None) ''10.1.2.3'' 80 \<longleftrightarrow>
     0 < (80 :: int) \<and> (80 :: int) \<le> 65535 \<and> to_lower (trim_space ''10.1.2.3'') \<noteq> ''''
     \<and> permitted demo_rules (\<lambda>_. None) (to_lower (trim_space ''10.1.2.3'')) 80)
   \<and> allowed demo_allowlist (\<lambda>_. None) ''10.1.2.3'' 80
   \<and> \<not> allowed demo_allowlist (\<lambda>_. None) ''evil-example.org'' 443"
  by (intro conjI allowed_iff_permitted demo_loads) code_simp+

lemma proxy_contacts_only_allowed_witness:
  "Dial ''a.example.org:8443'' \<in> set (ServeHTTP demo_allowlist (\<lambda>_. None) (\<lambda>_. True) HijackOk (\<lambda>_ _. None)
      ''CONNECT'' \<lparr>url_Scheme = '''', url_Host = ''''\<rparr> ''a.example.org:8443'')
   \<and> (\<exists>host portStr port. SplitHostPort ''a.example.org:8443'' = Some (host, portStr) \<and> parsePort portStr = Some port
         \<and> allowed demo_allowlist (\<lambda>_. None) host port \<and> ''a.example.org:8443'' = JoinHostPort host portStr)"
proof -
  have D: "Dial ''a.example.org:8443'' \<in> set (ServeHTTP demo_allowlist (\<lambda>_. None) (\<lambda>_. True) HijackOk (\<lambda>_ _. None)
      ''CONNECT'' \<lparr>url_Scheme = '''', url_Host = ''''\<rparr> ''a.example.org:8443'')"
    by code_simp
  show ?thesis
    using D proxy_contacts_only_allowed [of demo_allowlist "\<lambda>_. None" "\<lambda>_. True" HijackOk "\<lambda>_ _. None"
      "''CONNECT''" "\<lparr>url_Scheme = '''', url_Host = ''''\<rparr>" "''a.example.org:8443''"] by blast
qed

subsection \<open>Blocks end to end\<close>

definition v4_value :: "nat \<Rightarrow> nat \<Rightarrow> nat \<Rightarrow> nat \<Rightarrow> nat" where
  "v4_value a b c d = ((a * 256 + b) * 256 + c) * 256 + d"

lemma unat_v4_of_fields:
  assumes "a < 256" "b < 256" "c < 256" "d < 256"
  shows "unat (v4_of_fields [a, b, c, d]) = v4_value a b c d"
proof -
  have "v4_of_fields [a, b, c, d] = of_nat (v4_value a b c d)"
    by (simp add: v4_of_fields_def v4_value_def)
  moreover have "v4_value a b c d < 2 ^ 32" using assms by (simp add: v4_value_def)
  ultimately show ?thesis by (simp add: unat_of_nat take_bit_nat_eq_self)
qed

definition addr_char :: "char \<Rightarrow> bool" where
  "addr_char c \<longleftrightarrow> is_digit c \<or> c = CHR ''.'' \<or> c = CHR ''/''"

lemma addr_char_plain: "addr_char c \<Longrightarrow> plain c \<and> lower_stable c"
  by (auto simp: addr_char_def digit_plain plain_def lower_stable_def is_digit_iff less_eq_char_def)

lemma show_v4_chars: "list_all addr_char (show_v4 a b c d)"
  using dec_of_nat_digits by (auto simp: show_v4_def list_all_iff addr_char_def)

lemma addr_string_id: "list_all addr_char s \<Longrightarrow> trim_space s = s \<and> to_lower s = s"
  using addr_char_plain by (auto intro!: trim_space_all_plain to_lower_id simp: list_all_iff)

text \<open>A rule for a printed IPv4 block \<open>a.b.c.d/n\<close> lets exactly the addresses of that
  block through, on its port alone: a request for the dotted quad \<open>w.x.y.z\<close> passes where the
  two addresses have the same quotient by the block's size.\<close>

theorem cidr_rule_is_the_block:
  assumes "a < 256" "b < 256" "c < 256" "d < 256" "n \<le> 32"
    and "w < 256" "x < 256" "y < 256" "z < 256" "0 < q" "q \<le> 65535"
    and "loadAllowlist (Rules [\<lparr>nar_Host = '''', nar_CIDR = show_v4 a b c d @ ''/'' @ dec_of_nat n,
           nar_Protocol = '''', nar_Ports = [q]\<rparr>]) = Inr al"
  shows "allowed al resolve (show_v4 w x y z) port \<longleftrightarrow>
    port = q \<and> v4_value w x y z div 2 ^ (32 - n) = v4_value a b c d div 2 ^ (32 - n)"
proof -
  have cidr: "trim_space (show_v4 a b c d @ ''/'' @ dec_of_nat n) = show_v4 a b c d @ ''/'' @ dec_of_nat n"
    using dec_of_nat_digits [of n] show_v4_chars [of a b c d]
    by (intro conjunct1 [OF addr_string_id]) (auto simp: list_all_iff addr_char_def)
  have host: "to_lower (trim_space (show_v4 w x y z)) = show_v4 w x y z"
    using addr_string_id [OF show_v4_chars] by simp
  have "show_v4 w x y z \<noteq> ''''" by (simp add: show_v4_def)
  then show ?thesis
    using allowed_iff_permitted [OF assms(12), of resolve "show_v4 w x y z" port] assms(10,11)
      contains4_div [of "v4_of_fields [a, b, c, d]" n "v4_of_fields [w, x, y, z]"]
    by (auto simp add: host cidr [simplified] permitted_def grants_addr_def rule_host_def rule_ports_def
        ParseAddr_show_v4 [OF assms(6-9)] ParsePrefix_show [OF assms(1-5), simplified]
        unat_v4_of_fields [OF assms(1-4)] unat_v4_of_fields [OF assms(6-9)])
qed

lemma cidr_rule_is_the_block_witness:
  "allowed \<lparr>hostRules = [], cidrRules = [\<lparr>exactHost = '''', wildcardBase = '''',
       prefix_of = Some (Prefix (V4 0x0A010000) 16), ports_of = {80}\<rparr>]\<rparr> (\<lambda>_. None) (show_v4 10 1 2 3) 80
   \<longleftrightarrow> (80 :: int) = 80 \<and> v4_value 10 1 2 3 div 2 ^ (32 - 16) = v4_value 10 1 0 0 div 2 ^ (32 - 16)"
  by (rule cidr_rule_is_the_block) (simp_all, code_simp)

end
