(* ===== verification/WorkerConfig.thy ===== *)
theory WorkerConfig
  imports Allowlist
begin

text \<open>
  The worker's configuration (\<^verbatim>\<open>pkg/worker/config.go\<close>) and the operations that
  edit it and create it (\<^verbatim>\<open>pkg/worker/config_edit.go\<close>). Reading and writing the
  YAML file is left to the YAML library. A Go map of the configuration is an association list;
  a map that may be nil is an option of one.
\<close>

subsection \<open>The configuration\<close>

record RuntimeConfig =
  rc_Runner :: string
  rc_Image :: string
  rc_Command :: "string list"
  rc_Env :: "(string \<times> string) list option"
  rc_EnvFile :: string
  rc_AgentConfigDest :: string

record Config =
  cfg_RelayURL :: string
  cfg_EnrollToken :: string
  cfg_Token :: string
  cfg_WorkerID :: string
  cfg_Name :: string
  cfg_Version :: string
  cfg_Labels :: "string list"
  cfg_WorkspaceRoot :: string
  cfg_HostWorkspaceRoot :: string
  cfg_HostStateRoot :: string
  cfg_StateDir :: string
  cfg_LogRoot :: string
  cfg_EnvPassthrough :: "string list"
  cfg_AgentConfigPath :: string
  cfg_Runtimes :: "(string \<times> RuntimeConfig) list"
  cfg_ContainerRuntime :: string
  cfg_NetworkPolicyImage :: string
  cfg_NetworkAllowlist :: "NetworkAllowRule list"

definition empty_runtime :: RuntimeConfig where
  "empty_runtime = \<lparr>rc_Runner = '''', rc_Image = '''', rc_Command = [], rc_Env = None,
     rc_EnvFile = '''', rc_AgentConfigDest = ''''\<rparr>"

definition empty_config :: Config where
  "empty_config = \<lparr>cfg_RelayURL = '''', cfg_EnrollToken = '''', cfg_Token = '''', cfg_WorkerID = '''',
     cfg_Name = '''', cfg_Version = '''', cfg_Labels = [], cfg_WorkspaceRoot = '''',
     cfg_HostWorkspaceRoot = '''', cfg_HostStateRoot = '''', cfg_StateDir = '''', cfg_LogRoot = '''',
     cfg_EnvPassthrough = [], cfg_AgentConfigPath = '''', cfg_Runtimes = [], cfg_ContainerRuntime = '''',
     cfg_NetworkPolicyImage = '''', cfg_NetworkAllowlist = []\<rparr>"

definition DefaultConfig :: Config where
  "DefaultConfig = empty_config
     \<lparr>cfg_RelayURL := ''ws://localhost:8081'',
      cfg_Name := ''nano-worker'',
      cfg_Version := ''2.0'',
      cfg_Labels := [''docker-desktop''],
      cfg_WorkspaceRoot := ''/tmp/nano-workspaces'',
      cfg_EnvPassthrough :=
        [''NANO_API_KEY'', ''NANO_BASE_URL'', ''NANO_MODEL'', ''OPENAI_API_KEY'', ''ANTHROPIC_API_KEY'',
         ''HTTP_PROXY'', ''HTTPS_PROXY'', ''NO_PROXY'', ''http_proxy'', ''https_proxy'', ''no_proxy''],
      cfg_Runtimes :=
        [(''nano_agent'', empty_runtime
            \<lparr>rc_Image := ''nano-agent-runtime:local'', rc_AgentConfigDest := ''/root/.config/nano/config.yaml''\<rparr>),
         (''claude_code'', empty_runtime
            \<lparr>rc_Image := ''nano-cli-runtime:local'', rc_Env := Some [(''RUNTIME_BIN'', ''claude'')]\<rparr>),
         (''opencode'', empty_runtime
            \<lparr>rc_Image := ''nano-cli-runtime:local'', rc_Env := Some [(''RUNTIME_BIN'', ''opencode'')]\<rparr>),
         (''custom'', empty_runtime
            \<lparr>rc_Image := ''nano-cli-runtime:local'', rc_Env := Some [(''RUNTIME_BIN'', ''/bin/echo'')]\<rparr>)]\<rparr>"

subsection \<open>Setting a key\<close>

text \<open>\<^verbatim>\<open>strings.Split(value, ",")\<close>, each part trimmed, empty parts left out.\<close>

fun nonempty_parts :: "string list \<Rightarrow> string list" where
  "nonempty_parts [] = []"
| "nonempty_parts (p # parts) =
     (let p = trim_space p in if p \<noteq> '''' then p # nonempty_parts parts else nonempty_parts parts)"

definition ConfigSet :: "Config \<Rightarrow> string \<Rightarrow> string \<Rightarrow> string + Config" where
  "ConfigSet cfg key v =
     (if key = ''relay_url'' then Inr (cfg\<lparr>cfg_RelayURL := v\<rparr>)
      else if key = ''name'' then Inr (cfg\<lparr>cfg_Name := v\<rparr>)
      else if key = ''version'' then Inr (cfg\<lparr>cfg_Version := v\<rparr>)
      else if key = ''workspace_root'' then Inr (cfg\<lparr>cfg_WorkspaceRoot := v\<rparr>)
      else if key = ''host_workspace_root'' then Inr (cfg\<lparr>cfg_HostWorkspaceRoot := v\<rparr>)
      else if key = ''host_state_root'' then Inr (cfg\<lparr>cfg_HostStateRoot := v\<rparr>)
      else if key = ''log_root'' then Inr (cfg\<lparr>cfg_LogRoot := v\<rparr>)
      else if key = ''agent_config_path'' then Inr (cfg\<lparr>cfg_AgentConfigPath := v\<rparr>)
      else if key = ''labels'' then Inr (cfg\<lparr>cfg_Labels := nonempty_parts (split_char CHR '','' v)\<rparr>)
      else if key = ''env_passthrough'' then
        Inr (cfg\<lparr>cfg_EnvPassthrough := nonempty_parts (split_char CHR '','' v)\<rparr>)
      else if key = ''network_policy_image'' then Inr (cfg\<lparr>cfg_NetworkPolicyImage := v\<rparr>)
      else if key = ''container_runtime'' then Inr (cfg\<lparr>cfg_ContainerRuntime := v\<rparr>)
      else Inl (''unknown config key: '' @ key))"

subsection \<open>Quoting\<close>

text \<open>
  \<^verbatim>\<open>%q\<close>: quotes, backslashes and control characters are escaped. Bytes of 128 and
  above, which Go keeps where they encode a printable rune, are kept.
\<close>

definition hex_digit :: "nat \<Rightarrow> char" where
  "hex_digit d = (if d < 10 then char_of (48 + d) else char_of (87 + d))"

definition quote_char :: "char \<Rightarrow> string" where
  "quote_char c =
     (let n = of_char c :: nat in
      if n = 34 \<or> n = 92 then [CHR 0x5C, c]
      else if n = 7 then [CHR 0x5C, CHR ''a''] else if n = 8 then [CHR 0x5C, CHR ''b'']
      else if n = 9 then [CHR 0x5C, CHR ''t''] else if n = 10 then [CHR 0x5C, CHR ''n'']
      else if n = 11 then [CHR 0x5C, CHR ''v''] else if n = 12 then [CHR 0x5C, CHR ''f'']
      else if n = 13 then [CHR 0x5C, CHR ''r'']
      else if n < 32 \<or> n = 127 then [CHR 0x5C, CHR ''x'', hex_digit (n div 16), hex_digit (n mod 16)]
      else [c])"

definition go_quote :: "string \<Rightarrow> string" where
  "go_quote s = [CHR 0x22] @ concat (map quote_char s) @ [CHR 0x22]"

subsection \<open>Quickstart\<close>

record ProviderPreset =
  pp_Name :: string
  pp_EnvKey :: string
  pp_DefaultURL :: string
  pp_Runtime :: string
  pp_Model :: string
  pp_NeedsAPIKey :: bool

definition Providers :: "ProviderPreset list" where
  "Providers =
     [\<lparr>pp_Name = ''OpenAI'', pp_EnvKey = ''OPENAI_API_KEY'', pp_DefaultURL = ''https://api.openai.com/v1'',
       pp_Runtime = ''opencode'', pp_Model = ''gpt-4o'', pp_NeedsAPIKey = True\<rparr>,
      \<lparr>pp_Name = ''Anthropic'', pp_EnvKey = ''ANTHROPIC_API_KEY'', pp_DefaultURL = ''https://api.anthropic.com'',
       pp_Runtime = ''claude_code'', pp_Model = ''claude-sonnet-4-20250514'', pp_NeedsAPIKey = True\<rparr>,
      \<lparr>pp_Name = ''DeepSeek'', pp_EnvKey = ''DEEPSEEK_API_KEY'', pp_DefaultURL = ''https://api.deepseek.com/v1'',
       pp_Runtime = ''opencode'', pp_Model = ''deepseek-chat'', pp_NeedsAPIKey = True\<rparr>,
      \<lparr>pp_Name = ''Ollama (local)'', pp_EnvKey = ''OPENAI_API_KEY'', pp_DefaultURL = ''http://localhost:11434/v1'',
       pp_Runtime = ''opencode'', pp_Model = ''qwen2.5-coder:7b'', pp_NeedsAPIKey = False\<rparr>,
      \<lparr>pp_Name = ''Custom (OpenAI-compatible)'', pp_EnvKey = ''OPENAI_API_KEY'', pp_DefaultURL = '''',
       pp_Runtime = ''opencode'', pp_Model = '''', pp_NeedsAPIKey = True\<rparr>]"

definition WithNanoAgent :: "ProviderPreset \<Rightarrow> ProviderPreset" where
  "WithNanoAgent p = p\<lparr>pp_Runtime := ''nano_agent''\<rparr>"

definition in_quotes :: "string \<Rightarrow> string" where
  "in_quotes s = [CHR 0x22] @ s @ [CHR 0x22]"

definition yaml_text :: "string list \<Rightarrow> string" where
  "yaml_text ls = concat (map (\<lambda>l. l @ [CHR 0x0A]) ls)"

definition args_line :: "string \<Rightarrow> string" where
  "args_line model = ''    args: ['' @ in_quotes ''--model'' @ '', '' @ model @ '']''"

definition claude_lines :: "string \<Rightarrow> string list" where
  "claude_lines model =
     [''cli:'', ''  claude_code:'', ''    env:'',
      ''      ANTHROPIC_API_KEY: '' @ in_quotes ''${ANTHROPIC_API_KEY}'', args_line model,
      ''  opencode:'', ''    env:'']"

definition DefaultAgentConfigYAML :: string where
  "DefaultAgentConfigYAML =
     yaml_text (claude_lines (in_quotes ''claude-sonnet-4-20250514'')
       @ [''      OPENAI_API_KEY: '' @ in_quotes ''${OPENAI_API_KEY}'', args_line (in_quotes ''gpt-4o-mini'')])"

definition agent_yaml :: "ProviderPreset \<Rightarrow> string \<Rightarrow> string \<Rightarrow> string" where
  "agent_yaml preset model baseURL =
     (if pp_Runtime preset = ''nano_agent'' then
        (let apiKeyVal = (if pp_NeedsAPIKey preset then ''${'' @ pp_EnvKey preset @ ''}'' else ''ollama'') in
         yaml_text
           [''api_key: '' @ go_quote apiKeyVal, ''base_url: '' @ go_quote baseURL, ''model: '' @ go_quote model,
            ''verbose: true'', '''', ''# System Limits and Timeouts'',
            ''max_file_size: 10485760  # 10MB in bytes'', ''response_timeout: 300s   # LLM response timeout'',
            ''http_timeout: 60s        # HTTP client timeout'', '''', ''# Context Management'', ''context:'',
            ''  max_tokens: 120000'', ''  compression_ratio: 0.25'', ''  preserve_recent_turns: 8'',
            ''  enable_compression: true''])
      else if pp_Runtime preset = ''claude_code'' then
        yaml_text (claude_lines (go_quote model)
          @ [''      OPENAI_API_KEY: '' @ in_quotes ''${OPENAI_API_KEY}'', args_line (in_quotes ''gpt-4o-mini'')])
      else
        (let keyVal = (if \<not> pp_NeedsAPIKey preset then ''ollama'' else ''${'' @ pp_EnvKey preset @ ''}'') in
         yaml_text (claude_lines (in_quotes ''claude-sonnet-4-20250514'')
           @ [''      '' @ pp_EnvKey preset @ '': '' @ in_quotes keyVal,
              ''      OPENAI_BASE_URL: '' @ go_quote baseURL, args_line (go_quote model)])))"

text \<open>The loop over the default list with its set of keys seen so far.\<close>

fun dedup :: "string set \<Rightarrow> string list \<Rightarrow> string list" where
  "dedup seen [] = []"
| "dedup seen (k # ks) = (if k \<notin> seen then k # dedup (insert k seen) ks else dedup seen ks)"

definition BuildQuickstart ::
  "ProviderPreset \<Rightarrow> string \<Rightarrow> string \<Rightarrow> string \<Rightarrow> string \<Rightarrow> string + Config \<times> string" where
  "BuildQuickstart preset apiKey model0 baseURL0 relayURL =
     (let model = (if model0 = '''' then pp_Model preset else model0);
          baseURL = (if baseURL0 = '''' then pp_DefaultURL preset else baseURL0)
      in if baseURL = '''' \<and> pp_DefaultURL preset = '''' then
           Inl ''base URL must be provided for custom providers''
         else
           (let cfg = DefaultConfig;
                cfg = (if relayURL \<noteq> '''' then cfg\<lparr>cfg_RelayURL := relayURL\<rparr> else cfg);
                cfg = cfg\<lparr>cfg_AgentConfigPath := ''agent-config.yaml''\<rparr>;
                pass = dedup {} (cfg_EnvPassthrough cfg);
                pass = (if pp_EnvKey preset \<notin> set pass then pass @ [pp_EnvKey preset] else pass)
            in Inr (cfg\<lparr>cfg_EnvPassthrough := pass\<rparr>, agent_yaml preset model baseURL)))"

subsection \<open>Lists survive being set\<close>

lemma split_join_char: "ws \<noteq> [] \<Longrightarrow> \<forall>w \<in> set ws. sep \<notin> set w \<Longrightarrow> split_char sep (join [sep] ws) = ws"
proof (induction ws)
  case (Cons w ws)
  have single: "sep \<notin> set v \<Longrightarrow> split_char sep v = [v]" for v by (induction v) auto
  have glue: "sep \<notin> set v \<Longrightarrow> split_char sep (v @ sep # t) = v # split_char sep t" for v t
    by (induction v) auto
  from Cons show ?case by (cases ws) (auto simp: single glue)
qed simp

lemma nonempty_parts_id:
  "\<forall>w \<in> set ws. w \<noteq> '''' \<and> trim_space w = w \<Longrightarrow> nonempty_parts ws = ws"
  by (induction ws) auto

text \<open>A list of labels as \<^verbatim>\<open>config set\<close> accepts them back.\<close>

definition label_list :: "string list \<Rightarrow> bool" where
  "label_list ls \<longleftrightarrow> list_all (\<lambda>l. l \<noteq> '''' \<and> trim_space l = l \<and> CHR '','' \<notin> set l) ls"

lemma nonempty_parts_join: "label_list ls \<Longrightarrow> nonempty_parts (split_char CHR '','' (join '','' ls)) = ls"
proof (cases "ls = []")
  case False
  moreover assume "label_list ls"
  ultimately show ?thesis
    using split_join_char [of ls "CHR '',''"] nonempty_parts_id [of ls] by (auto simp: label_list_def list_all_iff)
qed simp


subsection \<open>Round trip and quickstart\<close>

text \<open>A list of labels or of variables to pass through, joined with commas as the command line takes it,
  is stored as it was, and nothing else of the configuration changes: entries that are trimmed,
  not empty and free of commas survive being set.\<close>

theorem ConfigSet_list_roundtrip:
  assumes "label_list ls"
  shows "ConfigSet cfg ''labels'' (join '','' ls) = Inr (cfg\<lparr>cfg_Labels := ls\<rparr>)
    \<and> ConfigSet cfg ''env_passthrough'' (join '','' ls) = Inr (cfg\<lparr>cfg_EnvPassthrough := ls\<rparr>)"
  using nonempty_parts_join [OF assms] by (simp add: ConfigSet_def)

lemma ConfigSet_list_roundtrip_witness:
  "ConfigSet empty_config ''labels'' ''gpu,eu west'' = Inr (empty_config\<lparr>cfg_Labels := [''gpu'', ''eu west'']\<rparr>)"
proof -
  have "label_list [''gpu'', ''eu west'']" "join '','' [''gpu'', ''eu west''] = ''gpu,eu west''" by code_simp+
  with ConfigSet_list_roundtrip show ?thesis by metis
qed

end
