(* ===== verification/Effects.thy ===== *)
theory Effects
  imports Protocol WorkerConfig
begin

text \<open>
  How the worker's goroutines are modelled. A goroutine is a program tree: it ends, or it does one
  atomic operation and continues with a program chosen by the operation's result. The atomic
  operations are the ones of \<^verbatim>\<open>pkg/worker/worker.go\<close>: the accesses to the
  \<^verbatim>\<open>runs\<close> map under its lock, the reads and writes of a \<^verbatim>\<open>runState\<close>,
  the compare-and-swap on \<^verbatim>\<open>done\<close>, the cancellation of a context, sending an event,
  and the calls of the operating system and of docker, whose replies are unconstrained. The world
  the goroutines share performs the operations; a system interleaves any number of goroutines with
  the lines of the agents' output and the loss of the connection.
\<close>

subsection \<open>Run states\<close>

record DockerProcess =
  dp_ContainerID :: string
  dp_Container :: string

text \<open>
  \<open>rs_ctx\<close>: the run's context is cancelled. \<open>rs_logs\<close> and \<open>rs_cmd\<close>: the pointer is
  not nil.
\<close>

record runState =
  rs_streamID :: string
  rs_ctx :: bool
  rs_done :: bool
  rs_proc :: "DockerProcess option"
  rs_netProc :: "DockerProcess option"
  rs_netName :: string
  rs_logs :: bool
  rs_cmd :: bool

datatype rs_field =
    FProc "DockerProcess option" | FNetProc "DockerProcess option" | FNetName string | FLogs bool | FCmd

fun set_field :: "rs_field \<Rightarrow> runState \<Rightarrow> runState" where
  "set_field (FProc p) rs = rs\<lparr>rs_proc := p\<rparr>"
| "set_field (FNetProc p) rs = rs\<lparr>rs_netProc := p\<rparr>"
| "set_field (FNetName n) rs = rs\<lparr>rs_netName := n\<rparr>"
| "set_field (FLogs b) rs = rs\<lparr>rs_logs := b\<rparr>"
| "set_field FCmd rs = rs\<lparr>rs_cmd := True\<rparr>"

subsection \<open>Programs\<close>

datatype file_content =
    RunMeta string string
  | LogMeta string string string
  | AllowlistJson "NetworkAllowRule list"

datatype syscall =
    MkdirAll string
  | WriteFile string file_content
  | MarshalRules "NetworkAllowRule list"
  | Docker "string list"
  | DockerLogs string
  | KillLogs
  | StdoutPipe
  | StderrPipe
  | ExecStart "string list" string "(string \<times> string) list"
  | ExecWait
  | ExecKill

text \<open>A reply: the error's text, the output, an exit code.\<close>

record reply =
  rp_err :: "string option"
  rp_out :: string
  rp_code :: int

datatype prog =
    Halt
  | Register prog
  | Unregister prog
  | Lookup "bool \<Rightarrow> prog"
  | Load "runState \<Rightarrow> prog"
  | Store rs_field prog
  | TestAndSet "bool \<Rightarrow> prog"
  | CancelCtx prog
  | GetConfig "Config \<Rightarrow> prog"
  | PutEnv string string string prog
  | Send RunEvent prog
  | Sys syscall "reply \<Rightarrow> prog"

text \<open>An operation together with its result.\<close>

datatype label =
    LRegister
  | LUnregister
  | LLookup bool
  | LLoad runState
  | LStore rs_field
  | LTestAndSet bool
  | LCancelCtx
  | LGetConfig Config
  | LPutEnv string string string
  | LSend RunEvent
  | LSys syscall reply

fun step_prog :: "prog \<Rightarrow> label \<Rightarrow> prog option" where
  "step_prog Halt l = None"
| "step_prog (Register k) l = (if l = LRegister then Some k else None)"
| "step_prog (Unregister k) l = (if l = LUnregister then Some k else None)"
| "step_prog (Lookup k) l = (case l of LLookup b \<Rightarrow> Some (k b) | _ \<Rightarrow> None)"
| "step_prog (Load k) l = (case l of LLoad rs \<Rightarrow> Some (k rs) | _ \<Rightarrow> None)"
| "step_prog (Store f k) l = (if l = LStore f then Some k else None)"
| "step_prog (TestAndSet k) l = (case l of LTestAndSet b \<Rightarrow> Some (k b) | _ \<Rightarrow> None)"
| "step_prog (CancelCtx k) l = (if l = LCancelCtx then Some k else None)"
| "step_prog (GetConfig k) l = (case l of LGetConfig c \<Rightarrow> Some (k c) | _ \<Rightarrow> None)"
| "step_prog (PutEnv r n v k) l = (if l = LPutEnv r n v then Some k else None)"
| "step_prog (Send e k) l = (if l = LSend e then Some k else None)"
| "step_prog (Sys c k) l = (case l of LSys c' r \<Rightarrow> if c' = c then Some (k r) else None | _ \<Rightarrow> None)"

text \<open>The program after a sequence of operations.\<close>

fun after_steps :: "prog \<Rightarrow> label list \<Rightarrow> prog option" where
  "after_steps p [] = Some p"
| "after_steps p (l # ls) = (case step_prog p l of None \<Rightarrow> None | Some p' \<Rightarrow> after_steps p' ls)"

subsection \<open>Monitors\<close>

text \<open>
  A monitor is an automaton on labels: which results it assumes, what it checks of an operation,
  its next state, and the states a program may end in. A program conforms to a monitor if every
  run of it passes the checks under the assumptions; one induction shows what that means for the
  sequences of operations.
\<close>

record 'q monitor =
  mo_assume :: "'q \<Rightarrow> label \<Rightarrow> bool"
  mo_check :: "'q \<Rightarrow> label \<Rightarrow> bool"
  mo_next :: "'q \<Rightarrow> label \<Rightarrow> 'q"
  mo_final :: "'q \<Rightarrow> bool"

definition observe :: "'q monitor \<Rightarrow> 'q \<Rightarrow> label \<Rightarrow> ('q \<Rightarrow> bool) \<Rightarrow> bool" where
  "observe M q l rest \<longleftrightarrow> (mo_assume M q l \<longrightarrow> mo_check M q l \<and> rest (mo_next M q l))"

primrec conforms :: "'q monitor \<Rightarrow> prog \<Rightarrow> 'q \<Rightarrow> bool" where
  "conforms M Halt = mo_final M"
| "conforms M (Register k) = (\<lambda>q. observe M q LRegister (conforms M k))"
| "conforms M (Unregister k) = (\<lambda>q. observe M q LUnregister (conforms M k))"
| "conforms M (Lookup k) = (\<lambda>q. \<forall>b. observe M q (LLookup b) (conforms M (k b)))"
| "conforms M (Load k) = (\<lambda>q. \<forall>rs. observe M q (LLoad rs) (conforms M (k rs)))"
| "conforms M (Store f k) = (\<lambda>q. observe M q (LStore f) (conforms M k))"
| "conforms M (TestAndSet k) = (\<lambda>q. \<forall>b. observe M q (LTestAndSet b) (conforms M (k b)))"
| "conforms M (CancelCtx k) = (\<lambda>q. observe M q LCancelCtx (conforms M k))"
| "conforms M (GetConfig k) = (\<lambda>q. \<forall>c. observe M q (LGetConfig c) (conforms M (k c)))"
| "conforms M (PutEnv r n v k) = (\<lambda>q. observe M q (LPutEnv r n v) (conforms M k))"
| "conforms M (Send e k) = (\<lambda>q. observe M q (LSend e) (conforms M k))"
| "conforms M (Sys c k) = (\<lambda>q. \<forall>r. observe M q (LSys c r) (conforms M (k r)))"

lemma conforms_step:
  "conforms M p q \<Longrightarrow> step_prog p l = Some p' \<Longrightarrow> mo_assume M q l
    \<Longrightarrow> mo_check M q l \<and> conforms M p' (mo_next M q l)"
  by (cases p) (auto simp: observe_def split: label.splits if_splits)

text \<open>The equations are for whole programs; the handlers are treated by rules.\<close>

declare conforms.simps [simp del]

fun watch :: "'q monitor \<Rightarrow> 'q \<Rightarrow> label list \<Rightarrow> 'q" where
  "watch M q [] = q"
| "watch M q (l # ls) = watch M (mo_next M q l) ls"

fun assumed :: "'q monitor \<Rightarrow> 'q \<Rightarrow> label list \<Rightarrow> bool" where
  "assumed M q [] = True"
| "assumed M q (l # ls) = (mo_assume M q l \<and> assumed M (mo_next M q l) ls)"

fun checked :: "'q monitor \<Rightarrow> 'q \<Rightarrow> label list \<Rightarrow> bool" where
  "checked M q [] = True"
| "checked M q (l # ls) = (mo_check M q l \<and> checked M (mo_next M q l) ls)"

text \<open>The contract of a monitored program, and what its runs satisfy.\<close>

locale monitored =
  fixes M :: "'q monitor" and p :: prog and q :: 'q
  assumes conforming: "conforms M p q"
begin

lemma run_conforms:
  "after_steps p ls = Some p' \<Longrightarrow> assumed M q ls \<Longrightarrow> checked M q ls \<and> conforms M p' (watch M q ls)"
proof -
  have "conforms M p q \<Longrightarrow> after_steps p ls = Some p' \<Longrightarrow> assumed M q ls
      \<Longrightarrow> checked M q ls \<and> conforms M p' (watch M q ls)" for p q
  proof (induction ls arbitrary: p q)
    case (Cons l ls)
    then obtain p1 where s: "step_prog p l = Some p1" "after_steps p1 ls = Some p'"
      by (auto split: option.splits)
    with Cons.prems conforms_step [of M p q l p1] Cons.IH [of p1 "mo_next M q l"]
    show ?case by simp
  qed simp
  then show "after_steps p ls = Some p' \<Longrightarrow> assumed M q ls \<Longrightarrow> checked M q ls \<and> conforms M p' (watch M q ls)"
    using conforming by blast
qed

lemma run_checked: "after_steps p ls = Some p' \<Longrightarrow> assumed M q ls \<Longrightarrow> checked M q ls"
  using run_conforms by blast

lemma run_ends: "after_steps p ls = Some Halt \<Longrightarrow> assumed M q ls \<Longrightarrow> mo_final M (watch M q ls)"
  using run_conforms by (fastforce simp: conforms.simps)

end

end
