(* ===== verification/RuntimeSpec.thy ===== *)
theory RuntimeSpec
  imports Protocol Prelude
begin

text \<open>
  From a run request to a container's command line: the adapters of
  \<^verbatim>\<open>pkg/worker/runtime\<close> and the argument builders of
  \<^verbatim>\<open>pkg/worker/docker_runner.go\<close>. Environments and mounts, Go maps, are association
  lists; their order is the order in which the map is ranged over.
\<close>

subsection \<open>Names\<close>

text \<open>Bytes that are not in the name alphabet go; a multi-byte rune is such bytes.\<close>

definition name_char :: "char \<Rightarrow> bool" where
  "name_char c \<longleftrightarrow> (CHR ''a'' \<le> c \<and> c \<le> CHR ''z'') \<or> is_digit c \<or> c = CHR ''-'' \<or> c = CHR ''_''"

definition Sanitize :: "string \<Rightarrow> string" where
  "Sanitize s0 =
     (let s = to_lower s0;
          s = replace_char CHR '' '' CHR ''-'' s;
          s = replace_char CHR ''/'' CHR ''-'' s;
          s = replace_char CHR '':'' CHR ''-'' s;
          s = replace_char CHR ''.'' CHR ''-'' s;
          out = filter name_char s
      in if out = '''' then ''x'' else out)"

subsection \<open>Adapters\<close>

record DockerRunSpec =
  ds_Image :: string
  ds_Name :: string
  ds_Workdir :: string
  ds_Mounts :: "(string \<times> string) list"
  ds_Env :: "(string \<times> string) list"
  ds_Command :: "string list"
  ds_Detach :: bool
  ds_Remove :: bool
  ds_ExtraArgs :: "string list"

record ContextInfo =
  ci_StreamID :: string
  ci_WorkspaceDir :: string
  ci_HostWorkspacePath :: string
  ci_AgentConfigPath :: string
  ci_AgentConfigDest :: string
  ci_WorkerID :: string

record BaseAdapter =
  ba_Image :: string
  ba_Command :: "string list"
  ba_Env :: "(string \<times> string) list"

text \<open>The last user message, else the last message, else nothing.\<close>

fun last_user :: "Message list \<Rightarrow> string option" where
  "last_user [] = None"
| "last_user (m # ms) =
     (case last_user ms of Some c \<Rightarrow> Some c
      | None \<Rightarrow> if msg_Role m = ROLE_USER then Some (msg_Content m) else None)"

definition extractPrompt :: "Input option \<Rightarrow> string" where
  "extractPrompt i =
     (case i of None \<Rightarrow> ''''
      | Some inp \<Rightarrow>
          (case last_user (in_Messages inp) of Some c \<Rightarrow> c
           | None \<Rightarrow> if in_Messages inp \<noteq> [] then msg_Content (last (in_Messages inp)) else ''''))"

definition policy_env :: "Policy \<Rightarrow> (string \<times> string) list \<Rightarrow> (string \<times> string) list" where
  "policy_env pol env =
     (let env = (if pol_TimeoutSeconds pol > 0
                 then AList.update ''TIMEOUT_SECONDS'' (dec_of_nat (unat (pol_TimeoutSeconds pol))) env else env)
      in case pol_Approval pol of
           APPROVAL_POLICY_AUTO \<Rightarrow> AList.update ''APPROVAL_POLICY'' ''auto'' env
         | APPROVAL_POLICY_DENY \<Rightarrow> AList.update ''APPROVAL_POLICY'' ''deny'' env
         | APPROVAL_POLICY_ASK \<Rightarrow> AList.update ''APPROVAL_POLICY'' ''ask'' env
         | _ \<Rightarrow> env)"

text \<open>An error is the text on the left.\<close>

definition BuildSpec :: "BaseAdapter \<Rightarrow> RunRequest \<Rightarrow> ContextInfo \<Rightarrow> string + DockerRunSpec" where
  "BuildSpec a req info =
     (if ba_Image a = '''' then Inl ''runtime image is required''
      else
        (let env = ba_Env a;
             env = AList.update ''STREAM_ID'' (ci_StreamID info) env;
             env = AList.update ''SESSION_ID'' (rr_SessionId req) env;
             env = AList.update ''PROMPT'' (extractPrompt (rr_Input req)) env;
             env = (case rr_Policy req of None \<Rightarrow> env | Some pol \<Rightarrow> policy_env pol env);
             mounts = [(ci_WorkspaceDir info, ''/workspace'')];
             mounts = (if ci_HostWorkspacePath info \<noteq> ''''
                       then AList.delete (ci_WorkspaceDir info)
                              (AList.update (ci_HostWorkspacePath info) ''/workspace'' mounts)
                       else mounts);
             mounts = (if ci_AgentConfigPath info \<noteq> '''' \<and> ci_AgentConfigDest info \<noteq> ''''
                       then AList.update (ci_AgentConfigPath info) (ci_AgentConfigDest info) mounts
                       else mounts)
         in Inr \<lparr>ds_Image = ba_Image a,
              ds_Name = Sanitize (ci_WorkerID info) @ ''-'' @ Sanitize (ci_StreamID info),
              ds_Workdir = ''/workspace'', ds_Mounts = mounts, ds_Env = env, ds_Command = ba_Command a,
              ds_Detach = True, ds_Remove = False, ds_ExtraArgs = []\<rparr>))"

subsection \<open>Environment files\<close>

definition unquote :: "string \<Rightarrow> string" where
  "unquote v =
     (if prefix [CHR 0x22] v \<and> suffix [CHR 0x22] v
      then trim_right_chars {CHR 0x22} (dropWhile (\<lambda>c. c = CHR 0x22) v) else v)"

text \<open>One line: an assignment, or nothing. \<^verbatim>\<open>SplitN(line, "=", 2)\<close> cuts at the first equals sign.\<close>

definition env_line :: "string \<Rightarrow> (string \<times> string) option" where
  "env_line raw =
     (let line = trim_space raw in
      if line = '''' \<or> prefix ''#'' line then None
      else (case find_index (\<lambda>c. c = CHR ''='') line of None \<Rightarrow> None
            | Some i \<Rightarrow>
                (let key = trim_space (take i line); val = unquote (trim_space (drop (Suc i) line))
                 in if key \<noteq> '''' then Some (key, val) else None)))"

fun env_lines :: "string list \<Rightarrow> (string \<times> string) list \<Rightarrow> (string \<times> string) list" where
  "env_lines [] envs = envs"
| "env_lines (l # ls) envs =
     (case env_line l of None \<Rightarrow> env_lines ls envs | Some (k, v) \<Rightarrow> env_lines ls (AList.update k v envs))"

text \<open>The file: it does not exist, opening or reading it fails, or its lines.\<close>

datatype env_file = EnvMissing | EnvUnreadable string | EnvLines "string list"

definition loadEnvFile :: "env_file \<Rightarrow> string + (string \<times> string) list" where
  "loadEnvFile f =
     (case f of EnvLines ls \<Rightarrow> Inr (env_lines ls []) | EnvUnreadable e \<Rightarrow> Inl e
      | EnvMissing \<Rightarrow> Inl ''no such file or directory'')"

text \<open>Values of the file do not replace what is set.\<close>

fun add_missing :: "(string \<times> string) list \<Rightarrow> (string \<times> string) list \<Rightarrow> (string \<times> string) list" where
  "add_missing [] env = env"
| "add_missing ((k, v) # kvs) env =
     add_missing kvs (if map_of env k = None then AList.update k v env else env)"

text \<open>A configured file that does not exist is ignored; one that exists and cannot be read is an error.\<close>

definition NanoAgentBuildSpec ::
  "BaseAdapter \<Rightarrow> string \<Rightarrow> (string \<Rightarrow> env_file) \<Rightarrow> RunRequest \<Rightarrow> ContextInfo \<Rightarrow> string + DockerRunSpec" where
  "NanoAgentBuildSpec a envFile readFile req info =
     (case BuildSpec a req info of
        Inl e \<Rightarrow> Inl e
      | Inr spec \<Rightarrow>
          if envFile = '''' then Inr spec
          else (case loadEnvFile (readFile envFile) of
                  Inr envs \<Rightarrow> Inr (spec\<lparr>ds_Env := add_missing envs (ds_Env spec)\<rparr>)
                | Inl e \<Rightarrow>
                    if readFile envFile \<noteq> EnvMissing
                    then Inl (''failed to load env file '' @ envFile @ '': '' @ e) else Inr spec))"

subsection \<open>Names are safe\<close>

lemma replace_char_id: "a \<notin> set s \<Longrightarrow> replace_char a b s = s"
  by (induction s) (auto simp: replace_char_def)

lemma name_char_stable:
  assumes "name_char c"
  shows "lower_stable c" "c \<noteq> CHR '' ''" "c \<noteq> CHR ''/''" "c \<noteq> CHR '':''" "c \<noteq> CHR ''.''" "plain c"
proof -
  have "(97 \<le> (of_char c :: nat) \<and> of_char c \<le> (122 :: nat)) \<or> (48 \<le> (of_char c :: nat) \<and> of_char c \<le> (57 :: nat))
      \<or> of_char c = (45 :: nat) \<or> of_char c = (95 :: nat)"
    using assms by (auto simp: name_char_def is_digit_iff less_eq_char_def)
  then show "lower_stable c" "c \<noteq> CHR '' ''" "c \<noteq> CHR ''/''" "c \<noteq> CHR '':''" "c \<noteq> CHR ''.''" "plain c"
    by (auto simp: lower_stable_def plain_def less_eq_char_def)
qed

lemma not_name_char: "\<not> name_char CHR '' ''" "\<not> name_char CHR ''/''" "\<not> name_char CHR '':''" "\<not> name_char CHR ''.''"
  using name_char_stable(2-5) by blast+

lemma Sanitize_chars: "list_all name_char (Sanitize s) \<and> Sanitize s \<noteq> ''''"
proof -
  have "name_char CHR ''x''" by (simp add: name_char_def less_eq_char_def)
  then show ?thesis by (simp add: Sanitize_def Let_def list_all_iff)
qed

lemma Sanitize_id:
  assumes "list_all name_char s" "s \<noteq> ''''"
  shows "Sanitize s = s"
proof -
  have "to_lower s = s" using assms(1) name_char_stable(1) by (intro to_lower_id) (auto simp: list_all_iff)
  moreover have "CHR '' '' \<notin> set s" "CHR ''/'' \<notin> set s" "CHR '':'' \<notin> set s" "CHR ''.'' \<notin> set s"
    using assms(1) not_name_char unfolding list_all_iff by blast+
  moreover have "filter name_char s = s" using assms(1) by (simp add: list_all_iff)
  ultimately show ?thesis using assms(2) by (simp add: Sanitize_def Let_def replace_char_id)
qed

text \<open>A sanitised name is never empty, consists of lower-case letters, digits, hyphens and underscores
  only, so it has no path separator, no dot and no space, and sanitising it again changes nothing.\<close>

theorem Sanitize_safe:
  "Sanitize s \<noteq> '''' \<and> set (Sanitize s) \<inter> {CHR ''/'', CHR ''.'', CHR '' '', CHR '':''} = {}
   \<and> list_all name_char (Sanitize s) \<and> Sanitize (Sanitize s) = Sanitize s"
proof -
  have "c \<notin> set (Sanitize s)" if "\<not> name_char c" for c
    using Sanitize_chars [of s] that by (auto simp: list_all_iff)
  then show ?thesis
    using Sanitize_chars [of s] Sanitize_id [of "Sanitize s"] not_name_char by blast
qed

end
