(* ===== verification/DockerRunner.thy ===== *)
theory DockerRunner
  imports Effects RuntimeSpec
begin

text \<open>
  \<^verbatim>\<open>pkg/worker/docker_runner.go\<close>: the argument lists of the docker commands
  and the programs that run them. A command's reply holds the text of its error, if it failed, and
  its combined output.
\<close>

subsection \<open>Docker arguments\<close>

definition DockerRuntimeArgs :: "string \<Rightarrow> string list" where
  "DockerRuntimeArgs containerRuntime =
     (let rt = trim_space containerRuntime in if rt = '''' then [] else [''--runtime='' @ rt])"

text \<open>
  \<^verbatim>\<open>%.3f\<close> of a number of thousandths: a float64 holds the quotient of a 32-bit number by
  1000 to far better than half a thousandth, so the three decimals are the digits of the number.
\<close>

definition three_digits :: "nat \<Rightarrow> string" where
  "three_digits n = [digit_char (n div 100 mod 10), digit_char (n div 10 mod 10), digit_char (n mod 10)]"

definition formatDockerCPUs :: "32 word \<Rightarrow> string" where
  "formatDockerCPUs cpuMillis =
     (let n = unat cpuMillis;
          s = dec_of_nat (n div 1000) @ ''.'' @ three_digits (n mod 1000);
          s = trim_right_chars {CHR ''0''} s;
          s = trim_right_chars {CHR ''.''} s
      in if s = '''' then ''0'' else s)"

definition formatDockerMemory :: "64 word \<Rightarrow> string" where
  "formatDockerMemory memoryBytes =
     (let mib = 1024 * 1024;
          m = (memoryBytes + mib - 1) div mib;
          m = (if m = 0 then 1 else m)
      in dec_of_nat (unat m) @ ''m'')"

definition DockerExtraArgsFromPolicy :: "Policy option \<Rightarrow> string list" where
  "DockerExtraArgsFromPolicy pol =
     (case pol of None \<Rightarrow> []
      | Some p \<Rightarrow>
          (let args = (case pol_Network p of NETWORK_POLICY_NONE \<Rightarrow> [''--network'', ''none''] | _ \<Rightarrow> [])
           in case pol_Resources p of None \<Rightarrow> args
              | Some res \<Rightarrow>
                  args
                  @ (if cap_CpuMillis res > 0 then [''--cpus'', formatDockerCPUs (cap_CpuMillis res)] else [])
                  @ (if cap_MemoryBytes res > 0 then [''--memory'', formatDockerMemory (cap_MemoryBytes res)] else [])
                  @ (if cap_Pids res > 0 then [''--pids-limit'', dec_of_nat (unat (cap_Pids res))] else [])))"

definition docker_run_args :: "DockerRunSpec \<Rightarrow> string list" where
  "docker_run_args spec =
     [''run'']
     @ (if ds_Detach spec then [''-d''] else [])
     @ (if ds_Remove spec then [''--rm''] else [])
     @ (if ds_Name spec \<noteq> '''' then [''--name'', ds_Name spec] else [])
     @ (if ds_Workdir spec \<noteq> '''' then [''-w'', ds_Workdir spec] else [])
     @ concat (map (\<lambda>(h, c). [''-v'', h @ '':'' @ c]) (ds_Mounts spec))
     @ concat (map (\<lambda>(k, v). [''-e'', k @ ''='' @ v]) (ds_Env spec))
     @ ds_ExtraArgs spec @ [ds_Image spec] @ ds_Command spec"

text \<open>The hint where a container runtime is configured and the message is about a runtime.\<close>

definition ContainerRuntimeErrorHint :: "string \<Rightarrow> string \<Rightarrow> string" where
  "ContainerRuntimeErrorHint msg containerRuntime =
     (let rt = trim_space containerRuntime in
      if rt = '''' \<or> \<not> contains (to_lower msg) ''runtime'' then msg
      else msg @ '' (hint: worker container_runtime='' @ go_quote rt
        @ '' is configured; make sure this OCI runtime is installed and registered with docker, e.g. runsc for gVisor ''
        @ [CHR 0xE2, CHR 0x80, CHR 0x94] @ '' check the Runtimes section of `docker info`)'')"

subsection \<open>Docker commands\<close>

text \<open>
  Each operation is a program that passes its result on: an error's text or nil, or a value.
  \<open>command_error\<close> is \<^verbatim>\<open>fmt.Errorf("...: %w (%s)", err, msg)\<close>.
\<close>

definition command_error :: "string \<Rightarrow> string \<Rightarrow> string \<Rightarrow> string" where
  "command_error what e msg = what @ '': '' @ e @ '' ('' @ msg @ '')''"

definition DockerNetworkCreateInternal :: "string \<Rightarrow> (string option \<Rightarrow> prog) \<Rightarrow> prog" where
  "DockerNetworkCreateInternal name k =
     (if trim_space name = '''' then k None
      else Sys (Docker [''network'', ''create'', ''--internal'', name]) (\<lambda>r.
        case rp_err r of None \<Rightarrow> k None
        | Some e \<Rightarrow>
            (let msg = trim_space (rp_out r) in
             if contains msg ''already exists'' then k None
             else k (Some (command_error ''docker network create failed'' e msg)))))"

definition DockerNetworkRemove :: "string \<Rightarrow> (string option \<Rightarrow> prog) \<Rightarrow> prog" where
  "DockerNetworkRemove name k =
     (if trim_space name = '''' then k None
      else Sys (Docker [''network'', ''rm'', name]) (\<lambda>r.
        case rp_err r of None \<Rightarrow> k None
        | Some e \<Rightarrow>
            (let msg = trim_space (rp_out r) in
             if contains msg ''No such network'' \<or> contains msg ''not found'' then k None
             else k (Some (command_error ''docker network rm failed'' e msg)))))"

definition DockerNetworkConnect :: "string \<Rightarrow> string \<Rightarrow> (string option \<Rightarrow> prog) \<Rightarrow> prog" where
  "DockerNetworkConnect network container k =
     (if trim_space network = '''' \<or> trim_space container = '''' then k None
      else Sys (Docker [''network'', ''connect'', network, container]) (\<lambda>r.
        case rp_err r of None \<Rightarrow> k None
        | Some e \<Rightarrow>
            (let msg = trim_space (rp_out r) in
             if contains msg ''already exists'' \<or> contains msg ''already connected'' then k None
             else k (Some (command_error ''docker network connect failed'' e msg)))))"

definition DockerRemove :: "string \<Rightarrow> (string option \<Rightarrow> prog) \<Rightarrow> prog" where
  "DockerRemove container k =
     (if trim_space container = '''' then k None
      else Sys (Docker [''rm'', ''-f'', container]) (\<lambda>r.
        case rp_err r of None \<Rightarrow> k None
        | Some e \<Rightarrow> k (Some (command_error ''docker rm failed'' e (trim_space (rp_out r))))))"

definition process_target :: "DockerProcess \<Rightarrow> string" where
  "process_target p = (if dp_ContainerID p = '''' then dp_Container p else dp_ContainerID p)"

definition DockerProcess_Stop :: "DockerProcess \<Rightarrow> (string option \<Rightarrow> prog) \<Rightarrow> prog" where
  "DockerProcess_Stop p k =
     (if dp_ContainerID p = '''' \<and> dp_Container p = '''' then k None
      else Sys (Docker [''stop'', ''-t'', ''1'', process_target p]) (\<lambda>r.
        case rp_err r of None \<Rightarrow> k None
        | Some e \<Rightarrow> k (Some (command_error ''docker stop failed'' e (trim_space (rp_out r))))))"

text \<open>A name that is taken is freed by force, and the command is run once more.\<close>

definition DockerRun :: "DockerRunSpec \<Rightarrow> (string + DockerProcess \<Rightarrow> prog) \<Rightarrow> prog" where
  "DockerRun spec k =
     (let args = docker_run_args spec in
      Sys (Docker args) (\<lambda>r.
        let msg = trim_space (rp_out r) in
        case rp_err r of
          None \<Rightarrow> k (Inr \<lparr>dp_ContainerID = msg, dp_Container = ds_Name spec\<rparr>)
        | Some e \<Rightarrow>
            if ds_Name spec \<noteq> '''' \<and> contains msg ''Conflict. The container name'' then
              DockerRemove (ds_Name spec) (\<lambda>_.
                Sys (Docker args) (\<lambda>r2.
                  case rp_err r2 of
                    None \<Rightarrow> k (Inr \<lparr>dp_ContainerID = trim_space (rp_out r2), dp_Container = ds_Name spec\<rparr>)
                  | Some e2 \<Rightarrow> k (Inl (command_error ''docker run failed'' e2 (trim_space (rp_out r2))))))
            else k (Inl (command_error ''docker run failed'' e msg))))"

definition DockerWait :: "string \<Rightarrow> (string + int \<Rightarrow> prog) \<Rightarrow> prog" where
  "DockerWait container k =
     Sys (Docker [''wait'', container]) (\<lambda>r.
       let s = trim_space (rp_out r) in
       case rp_err r of
         Some e \<Rightarrow> k (Inl (command_error ''docker wait failed'' e s))
       | None \<Rightarrow>
           if s = '''' then k (Inr 0)
           else (case sscanf_d s of
                   None \<Rightarrow> k (Inl (''docker wait invalid output: '' @ s))
                 | Some code \<Rightarrow> k (Inr code)))"

subsection \<open>Resource limits\<close>

text \<open>What docker reads: a decimal number with up to three decimals, in thousandths.\<close>

definition cpu_thousandths :: "string \<Rightarrow> nat" where
  "cpu_thousandths s =
     dec_val (takeWhile (\<lambda>c. c \<noteq> CHR ''.'') s) * 1000
     + dec_val (take 3 (drop 1 (dropWhile (\<lambda>c. c \<noteq> CHR ''.'') s) @ ''000''))"

lemma trim_right_chars_snoc [simp]:
  "trim_right_chars cs (s @ [c]) = (if c \<in> cs then trim_right_chars cs s else s @ [c])"
  "trim_right_chars cs [] = []"
  by (simp_all add: trim_right_chars_def)

lemma digit_char_zero [simp]: "d < 10 \<Longrightarrow> digit_char d = CHR ''0'' \<longleftrightarrow> d = 0"
proof -
  assume d: "d < 10"
  have "digit_char 0 = CHR ''0''" by code_simp
  moreover have "digit_val (digit_char d) = d" "digit_val (digit_char 0) = 0" using d by simp_all
  ultimately show ?thesis by metis
qed

lemma no_dot_dec: "CHR ''.'' \<notin> set (dec_of_nat n)"
  using dec_of_nat_digits [of n] digit_head(3) by (auto simp: list_all_iff)

lemma digits_trimmed:
  assumes "a < 10" "b < 10" "c < 10"
  shows "trim_right_chars {CHR ''.''} (trim_right_chars {CHR ''0''} (dec_of_nat n @ ''.'' @ [digit_char a, digit_char b, digit_char c]))
    = (if c \<noteq> 0 then dec_of_nat n @ ''.'' @ [digit_char a, digit_char b, digit_char c]
       else if b \<noteq> 0 then dec_of_nat n @ ''.'' @ [digit_char a, digit_char b]
       else if a \<noteq> 0 then dec_of_nat n @ ''.'' @ [digit_char a] else dec_of_nat n)"
proof -
  have dots: "digit_char d \<noteq> CHR ''.''" if "d < 10" for d using digit_head(3) is_digit_char that by blast
  have "trim_right_chars {CHR ''.''} (dec_of_nat n) = dec_of_nat n"
    using no_dot_dec [of n] by (cases "dec_of_nat n" rule: rev_cases) auto
  moreover have r: "dec_of_nat n @ ''.'' @ [x, y, z] = ((((dec_of_nat n @ [CHR ''.'']) @ [x]) @ [y]) @ [z])" for x y z by simp
  ultimately show ?thesis using assms dots unfolding r by (simp del: append_assoc add: append_assoc [symmetric])
qed

lemma dec_val_append: "dec_val (s @ [c]) = dec_val s * 10 + digit_val c"
  by (rule dec_val_snoc)

lemma cpu_parts:
  assumes "list_all is_digit f"
  shows "cpu_thousandths (dec_of_nat n @ CHR ''.'' # f) = n * 1000 + dec_val (take 3 (f @ ''000''))"
    and "cpu_thousandths (dec_of_nat n) = n * 1000"
proof -
  have t: "takeWhile (\<lambda>c. c \<noteq> CHR ''.'') (dec_of_nat n @ CHR ''.'' # f) = dec_of_nat n"
    "dropWhile (\<lambda>c. c \<noteq> CHR ''.'') (dec_of_nat n @ CHR ''.'' # f) = CHR ''.'' # f"
    "takeWhile (\<lambda>c. c \<noteq> CHR ''.'') (dec_of_nat n) = dec_of_nat n"
    "dropWhile (\<lambda>c. c \<noteq> CHR ''.'') (dec_of_nat n) = []"
    using no_dot_dec [of n] by (auto simp: takeWhile_append dropWhile_append takeWhile_eq_all_conv dropWhile_eq_Nil_conv)
  then show "cpu_thousandths (dec_of_nat n @ CHR ''.'' # f) = n * 1000 + dec_val (take 3 (f @ ''000''))"
    by (simp add: cpu_thousandths_def)
  have "dec_val ''000'' = 0" by code_simp
  then show "cpu_thousandths (dec_of_nat n) = n * 1000" unfolding cpu_thousandths_def t(3,4) by simp
qed

text \<open>The CPU limit reaches docker exactly: the printed number, read as a decimal number, is the
  requested number of thousandths, for all of the 32-bit range.\<close>

theorem formatDockerCPUs_exact: "cpu_thousandths (formatDockerCPUs m) = unat m"
proof -
  define n where "n = unat m div 1000"
  define a where "a = unat m mod 1000 div 100 mod 10"
  define b where "b = unat m mod 1000 div 10 mod 10"
  define c where "c = unat m mod 1000 mod 10"
  have lt: "a < 10" "b < 10" "c < 10" by (simp_all add: a_def b_def c_def)
  have "unat m mod 1000 = a * 100 + b * 10 + c"
  proof -
    have d3: "x = x div 100 mod 10 * 100 + x div 10 mod 10 * 10 + x mod 10" if "x < 1000" for x :: nat
    proof -
      have "x div 100 = x div 10 div 10" by (simp add: div_mult2_eq [symmetric])
      moreover have "x = x div 10 * 10 + x mod 10" "x div 10 = x div 10 div 10 * 10 + x div 10 mod 10" by simp_all
      moreover have "x div 100 mod 10 = x div 100" using that by (intro mod_less) simp
      ultimately show ?thesis by linarith
    qed
    have "unat m mod 1000 < 1000" by simp
    from d3 [OF this] show ?thesis unfolding a_def b_def c_def .
  qed
  moreover have "unat m = n * 1000 + unat m mod 1000" by (simp add: n_def)
  ultimately have m: "unat m = n * 1000 + (a * 100 + b * 10 + c)" by simp
  have f: "formatDockerCPUs m = (if c \<noteq> 0 then dec_of_nat n @ ''.'' @ [digit_char a, digit_char b, digit_char c]
       else if b \<noteq> 0 then dec_of_nat n @ ''.'' @ [digit_char a, digit_char b]
       else if a \<noteq> 0 then dec_of_nat n @ ''.'' @ [digit_char a] else dec_of_nat n)"
  proof -
    have "three_digits (unat m mod 1000) = [digit_char a, digit_char b, digit_char c]"
      by (simp only: three_digits_def a_def b_def c_def)
    then show ?thesis
      unfolding formatDockerCPUs_def Let_def n_def [symmetric] by (simp only: digits_trimmed [OF lt]) simp
  qed
  have z: "digit_val CHR ''0'' = 0" by code_simp
  have v: "dec_val [x, y, w] = digit_val x * 100 + digit_val y * 10 + digit_val w" for x y w
    by (simp add: dec_val_def)
  show ?thesis
    using lt m cpu_parts(2) [of "[]" n] by (auto simp: f cpu_parts(1) v z)
qed

lemma memory_mib:
  fixes b :: "64 word"
  defines "n \<equiv> unat ((b + 1024 * 1024 - 1) div (1024 * 1024))"
  shows "n = (if unat b \<le> 2 ^ 64 - 2 ^ 20 then (unat b + 2 ^ 20 - 1) div 2 ^ 20 else 0)"
proof -
  have e: "b + 1024 * 1024 - 1 = 1048575 + b" by (simp add: algebra_simps)
  have "unat b < 2 ^ 64" using unsigned_less [of b] by simp
  then have "unat (1048575 + b) = (if unat b \<le> 2 ^ 64 - 2 ^ 20 then 1048575 + unat b else 1048575 + unat b - 2 ^ 64)"
    by (simp add: unat_word_ariths mod_if)
  with \<open>unat b < 2 ^ 64\<close> show ?thesis by (simp add: n_def e unat_div_distrib)
qed

text \<open>The printed memory limit is the requested number of bytes rounded up to whole mebibytes, at
  least one, for every request up to a mebibyte below the range of the integer; a request beyond wraps
  around and limits the container to a single mebibyte.\<close>

theorem formatDockerMemory_bounds:
  "\<exists>n. formatDockerMemory b = dec_of_nat n @ ''m'' \<and> 0 < n
     \<and> (if unat b \<le> 2 ^ 64 - 2 ^ 20
        then unat b \<le> n * 2 ^ 20 \<and> (b = 0 \<or> (n - 1) * 2 ^ 20 < unat b) else n = 1)"
proof -
  define m where "m = (b + 1024 * 1024 - 1) div (1024 * 1024)"
  define n where "n = (if unat m = 0 then 1 else unat m)"
  have "formatDockerMemory b = dec_of_nat n @ ''m''"
    by (simp add: formatDockerMemory_def Let_def m_def n_def unat_eq_zero)
  moreover have "unat b \<le> n * 2 ^ 20 \<and> (b = 0 \<or> (n - 1) * 2 ^ 20 < unat b)" if "unat b \<le> 2 ^ 64 - 2 ^ 20"
  proof -
    have u: "unat m = (unat b + 2 ^ 20 - 1) div 2 ^ 20" using memory_mib [of b] that by (simp add: m_def)
    have "unat b = 0 \<longleftrightarrow> b = 0" by (simp add: unat_eq_zero)
    then show ?thesis using u by (auto simp: n_def)
  qed
  moreover have "n = 1" if "\<not> unat b \<le> 2 ^ 64 - 2 ^ 20"
    using memory_mib [of b] that by (simp add: m_def n_def)
  moreover have "0 < n" by (simp add: n_def)
  ultimately show ?thesis by auto
qed

end
