(* ===== verification/GoPath.thy ===== *)
theory GoPath
  imports GoStrings
begin

text \<open>
  The parts of Go's \<^verbatim>\<open>path/filepath\<close> the worker calls, on Unix:
  \<^verbatim>\<open>Clean\<close>, \<^verbatim>\<open>Join\<close> and \<^verbatim>\<open>Rel\<close>. A path is read as
  whether it is rooted and its list of words; the lemmas show that a cleaned path reads back
  as itself and where a child of a directory lies.
\<close>

definition rooted :: "string \<Rightarrow> bool" where
  "rooted s \<longleftrightarrow> prefix ''/'' s"

definition path_words :: "string \<Rightarrow> string list" where
  "path_words s = filter (\<lambda>w. w \<noteq> '''' \<and> w \<noteq> ''.'') (split_char CHR ''/'' s)"

text \<open>Resolving the parent references; \<open>acc\<close> is what is kept so far, latest first.\<close>

fun norm_words :: "bool \<Rightarrow> string list \<Rightarrow> string list \<Rightarrow> string list" where
  "norm_words r acc [] = rev acc"
| "norm_words r acc (w # ws) =
     (if w \<noteq> ''..'' then norm_words r (w # acc) ws
      else (case acc of
              [] \<Rightarrow> if r then norm_words r [] ws else norm_words r [''..''] ws
            | a # as \<Rightarrow> if a = ''..'' then norm_words r (''..'' # acc) ws else norm_words r as ws))"

definition path_comps :: "string \<Rightarrow> string list" where
  "path_comps s = norm_words (rooted s) [] (path_words s)"

definition path_string :: "bool \<Rightarrow> string list \<Rightarrow> string" where
  "path_string r ws = (if r then ''/'' @ join ''/'' ws else if ws = [] then ''.'' else join ''/'' ws)"

definition Clean :: "string \<Rightarrow> string" where
  "Clean s = path_string (rooted s) (path_comps s)"

definition Join :: "string list \<Rightarrow> string" where
  "Join parts =
     (let ps = filter (\<lambda>p. p \<noteq> '''') parts in if ps = [] then '''' else Clean (join ''/'' ps))"

fun strip_common :: "string list \<Rightarrow> string list \<Rightarrow> string list \<times> string list" where
  "strip_common (b # bs) (t # ts) = (if b = t then strip_common bs ts else (b # bs, t # ts))"
| "strip_common bs ts = (bs, ts)"

text \<open>\<^verbatim>\<open>None\<close> is the error that the target cannot be made relative.\<close>

definition Rel :: "string \<Rightarrow> string \<Rightarrow> string option" where
  "Rel basepath targpath =
     (if Clean basepath = Clean targpath then Some ''.''
      else if rooted basepath \<noteq> rooted targpath then None
      else
        (let (bs, ts) = strip_common (path_comps basepath) (path_comps targpath) in
         if bs \<noteq> [] \<and> hd bs = ''..'' then None
         else Some (join ''/'' (replicate (length bs) ''..'' @ ts))))"

subsection \<open>Cleaned paths\<close>

definition path_word :: "string \<Rightarrow> bool" where
  "path_word w \<longleftrightarrow> w \<noteq> '''' \<and> w \<noteq> ''.'' \<and> CHR ''/'' \<notin> set w"

lemma split_char_append:
  "split_char sep (s @ sep # t) = split_char sep s @ split_char sep t"
proof (induction s)
  case Nil
  then show ?case by simp
next
  case (Cons c cs)
  obtain w ws where "split_char sep cs = w # ws" by (cases "split_char sep cs") auto
  with Cons show ?case by simp
qed

lemma split_char_none: "sep \<notin> set w \<Longrightarrow> split_char sep w = [w]"
  by (induction w) auto

lemma path_words_append: "path_words (s @ ''/'' @ t) = path_words s @ path_words t"
  by (simp add: path_words_def split_char_append)

lemma path_words_word: "path_word w \<Longrightarrow> path_words w = [w]"
  by (simp add: path_words_def path_word_def split_char_none)

lemma path_words_good: "list_all path_word (path_words s)"
  using split_char_no_sep [of _ "CHR ''/''" s] by (auto simp: list_all_iff path_words_def path_word_def)

lemma path_words_Nil [simp]: "path_words '''' = []"
  by (simp add: path_words_def)

lemma path_words_join: "list_all path_word ws \<Longrightarrow> path_words (join ''/'' ws) = ws"
proof (induction ws)
  case Nil
  then show ?case by simp
next
  case (Cons w ws)
  then show ?case
    by (cases ws) (simp_all add: path_words_word path_words_append [simplified])
qed

lemma path_words_rooted: "path_words (''/'' @ s) = path_words s"
  using path_words_append [of "''''" s] by simp

lemma rooted_join: "list_all path_word ws \<Longrightarrow> \<not> rooted (join ''/'' ws)"
proof (cases ws)
  case (Cons w vs)
  moreover assume "list_all path_word ws"
  ultimately obtain c cs where "w = c # cs" "c \<noteq> CHR ''/''"
    by (cases w) (auto simp: path_word_def)
  with Cons show ?thesis by (cases vs) (auto simp: rooted_def)
qed (simp add: rooted_def)

lemma norm_words_append: "norm_words r acc (ws @ vs) = norm_words r (rev (norm_words r acc ws)) vs"
  by (induction r acc ws rule: norm_words.induct) (auto split: list.split)

lemma norm_words_set: "set (norm_words r acc ws) \<subseteq> set acc \<union> set ws"
proof (induction r acc ws rule: norm_words.induct)
  case (2 r acc w ws)
  then show ?case by (cases acc) (auto split: if_splits)
qed simp

text \<open>Resolved words: parent references only in front, and none on a rooted path.\<close>

definition resolved :: "bool \<Rightarrow> string list \<Rightarrow> bool" where
  "resolved r ws \<longleftrightarrow> (\<exists>n us. ws = replicate n ''..'' @ us \<and> ''..'' \<notin> set us \<and> (r \<longrightarrow> n = 0))"

lemma norm_words_plain: "''..'' \<notin> set us \<Longrightarrow> norm_words r acc us = rev acc @ us"
  by (induction us arbitrary: acc) auto

lemma norm_words_ups: "norm_words False (replicate m ''..'') (replicate n ''..'' @ us)
    = norm_words False (replicate (m + n) ''..'') us"
proof (induction n arbitrary: m)
  case (Suc n)
  have "norm_words False (replicate m ''..'') (''..'' # replicate n ''..'' @ us)
      = norm_words False (replicate (Suc m) ''..'') (replicate n ''..'' @ us)"
    by (cases m) auto
  with Suc [of "Suc m"] show ?case by simp
qed simp

lemma resolved_norm: "resolved r ws \<Longrightarrow> norm_words r [] ws = ws"
proof -
  assume "resolved r ws"
  then obtain n us where ws: "ws = replicate n ''..'' @ us" "''..'' \<notin> set us" "r \<longrightarrow> n = 0"
    by (auto simp: resolved_def)
  show ?thesis
  proof (cases r)
    case True
    with ws show ?thesis by (simp add: norm_words_plain)
  next
    case False
    with ws(1,2) show ?thesis using norm_words_ups [of 0 n us] by (simp add: norm_words_plain)
  qed
qed

lemma norm_resolved_acc: "resolved r (rev acc) \<Longrightarrow> resolved r (norm_words r acc ws)"
proof (induction r acc ws rule: norm_words.induct)
  case (1 r acc)
  then show ?case by simp
next
  case (2 r acc w ws)
  obtain n us where acc: "rev acc = replicate n ''..'' @ us" "''..'' \<notin> set us" "r \<longrightarrow> n = 0"
    using "2.prems" by (auto simp: resolved_def)
  have push: "resolved r (rev (w # acc))" if "w \<noteq> ''..''"
    unfolding resolved_def using acc that by (intro exI [of _ n] exI [of _ "us @ [w]"]) auto
  show ?case
  proof (cases "w = ''..''")
    case False
    with "2.IH"(1) push show ?thesis by simp
  next
    case True
    show ?thesis
    proof (cases acc)
      case Nil
      have "resolved True []" "resolved False [''..'']"
        unfolding resolved_def by (auto intro: exI [of _ 0] exI [of _ 1])
      with True Nil "2.IH"(2,3) show ?thesis by (cases r) auto
    next
      case (Cons a as)
      show ?thesis
      proof (cases "a = ''..''")
        case True
        have us: "us = []"
          using acc(1,2) Cons True by (cases us rule: rev_cases) auto
        have n: "rev acc = replicate n ''..''" using acc(1) us by simp
        then have "r \<longrightarrow> False" using acc(3) Cons by auto
        moreover have "rev (''..'' # acc) = replicate (Suc n) ''..''"
          using n by (simp add: replicate_append_same)
        ultimately have "resolved r (rev (''..'' # acc))"
          unfolding resolved_def by (intro exI [of _ "Suc n"] exI [of _ "[]"]) auto
        with \<open>w = ''..''\<close> Cons True "2.IH"(4) show ?thesis by simp
      next
        case False
        then obtain vs where "us = vs @ [a]"
          using acc(1) Cons by (cases us rule: rev_cases) (auto, metis in_set_replicate last_in_set last_snoc snoc_eq_iff_butlast)
        then have "resolved r (rev as)"
          using acc Cons unfolding resolved_def by (intro exI [of _ n] exI [of _ vs]) auto
        with \<open>w = ''..''\<close> Cons False "2.IH"(5) show ?thesis by simp
      qed
    qed
  qed
qed

lemma resolved_comps: "resolved (rooted s) (path_comps s)"
  unfolding path_comps_def by (rule norm_resolved_acc) (auto simp: resolved_def)

lemma comps_good: "list_all path_word (path_comps s)"
  using norm_words_set [of "rooted s" "[]" "path_words s"] path_words_good [of s]
  by (auto simp: path_comps_def list_all_iff)

lemma path_string_reads:
  assumes "list_all path_word ws" "resolved r ws"
  shows "rooted (path_string r ws) = r" "path_comps (path_string r ws) = ws"
proof -
  have dot: "\<not> rooted ''.''" "path_words ''.'' = []" by (simp_all add: rooted_def path_words_def)
  show r: "rooted (path_string r ws) = r"
    using rooted_join [OF assms(1)] dot(1) by (auto simp: path_string_def rooted_def)
  have "path_words (path_string r ws) = ws"
    using path_words_join [OF assms(1)] path_words_rooted [of "join ''/'' ws"] dot(2)
    by (auto simp: path_string_def)
  then show "path_comps (path_string r ws) = ws"
    using resolved_norm [OF assms(2)] by (simp add: path_comps_def r)
qed

lemma Clean_reads [simp]: "rooted (Clean s) = rooted s" "path_comps (Clean s) = path_comps s"
  unfolding Clean_def using path_string_reads [OF comps_good resolved_comps] by blast+

lemma Clean_idem [simp]: "Clean (Clean s) = Clean s"
  unfolding Clean_def [of "Clean s"] Clean_reads by (rule Clean_def [symmetric])

lemma Clean_eq_iff: "Clean s = Clean t \<longleftrightarrow> rooted s = rooted t \<and> path_comps s = path_comps t"
proof
  assume "Clean s = Clean t"
  then show "rooted s = rooted t \<and> path_comps s = path_comps t"
    using Clean_reads [of s] Clean_reads [of t] by simp
next
  assume "rooted s = rooted t \<and> path_comps s = path_comps t"
  then show "Clean s = Clean t" unfolding Clean_def by (simp only:)
qed

subsection \<open>Children\<close>

text \<open>A name that is one path word and no parent reference.\<close>

definition child_name :: "string \<Rightarrow> bool" where
  "child_name w \<longleftrightarrow> path_word w \<and> w \<noteq> ''..''"

lemma Join_two: "root \<noteq> '''' \<Longrightarrow> w \<noteq> '''' \<Longrightarrow> Join [root, w] = Clean (root @ ''/'' @ w)"
  by (simp add: Join_def)

text \<open>Joining resolves the words of the second path below the first.\<close>

lemma Join_words:
  assumes "root \<noteq> ''''" "s \<noteq> ''''"
  shows "rooted (Join [root, s]) = rooted root"
    and "path_comps (Join [root, s]) = norm_words (rooted root) (rev (path_comps root)) (path_words s)"
proof -
  have r: "rooted (root @ ''/'' @ s) = rooted root"
    using assms(1) by (cases root) (auto simp: rooted_def)
  show "rooted (Join [root, s]) = rooted root" using assms r by (simp add: Join_two)
  have "path_comps (root @ ''/'' @ s) = norm_words (rooted root) [] (path_words root @ path_words s)"
    unfolding path_comps_def r path_words_append ..
  then show "path_comps (Join [root, s]) = norm_words (rooted root) (rev (path_comps root)) (path_words s)"
    unfolding Join_two [OF assms] Clean_reads by (simp add: path_comps_def [of root] norm_words_append)
qed

lemma Join_child:
  assumes "root \<noteq> ''''" "child_name w"
  shows "rooted (Join [root, w]) = rooted root" "path_comps (Join [root, w]) = path_comps root @ [w]"
proof -
  have w: "w \<noteq> ''''" "path_words w = [w]" "w \<noteq> ''..''"
    using assms(2) by (auto simp: child_name_def path_word_def intro: path_words_word)
  show "rooted (Join [root, w]) = rooted root" "path_comps (Join [root, w]) = path_comps root @ [w]"
    using Join_words [OF assms(1) w(1)] w(2,3) by simp_all
qed

lemma Join_grandchild:
  assumes "root \<noteq> ''''" "child_name w" "child_name f"
  shows "rooted (Join [root, w, f]) = rooted root" "path_comps (Join [root, w, f]) = path_comps root @ [w, f]"
proof -
  have ne: "w \<noteq> ''''" "f \<noteq> ''''" "w \<noteq> ''..''" "f \<noteq> ''..''"
    using assms(2,3) by (auto simp: child_name_def path_word_def)
  have ws: "path_words (w @ ''/'' @ f) = [w, f]"
    using assms(2,3) by (simp only: path_words_append) (simp add: child_name_def path_words_word)
  have "Join [root, w, f] = Join [root, w @ ''/'' @ f]" using assms(1) ne by (simp add: Join_def)
  then show "rooted (Join [root, w, f]) = rooted root" "path_comps (Join [root, w, f]) = path_comps root @ [w, f]"
    using Join_words [OF assms(1), of "w @ ''/'' @ f"] ws ne by simp_all
qed

lemma strip_common_prefix: "strip_common bs (bs @ ts) = ([], ts)"
  by (induction bs) auto

lemma Rel_child:
  assumes "root \<noteq> ''''" "child_name w"
  shows "Rel root (Join [root, w]) = Some w"
proof -
  have "Clean root \<noteq> Clean (Join [root, w])"
    by (simp add: Clean_eq_iff Join_child [OF assms])
  then show ?thesis by (simp add: Rel_def Join_child [OF assms] strip_common_prefix)
qed

end
