(* ===== verification/WorkerRun.thy ===== *)
theory WorkerRun
  imports DockerRunner GoPath
begin

text \<open>
  The two goroutines of a run, \<^verbatim>\<open>handleRunRequest\<close> and \<^verbatim>\<open>handleCancel\<close>
  of \<^verbatim>\<open>pkg/worker/worker.go\<close>, as program trees, with the pure functions they call.
  The environment of the worker process, the env files and the time are arguments. The log files of a
  run, which nothing reads back, are left out.
\<close>

subsection \<open>Events\<close>

definition redactSensitive :: "string \<Rightarrow> string" where
  "redactSensitive s =
     (case index_of ''Incorrect API key provided: '' s of
        None \<Rightarrow> s
      | Some idx \<Rightarrow>
          (let j = idx + length ''Incorrect API key provided: ''
           in take j s @ ''[redacted]''
              @ dropWhile (\<lambda>c. c \<noteq> CHR '' '' \<and> c \<noteq> CHR 0x22 \<and> c \<noteq> CHR '','' \<and> c \<noteq> CHR 0x0A) (drop j s)))"

definition status_event :: "string \<Rightarrow> string \<Rightarrow> RunEvent" where
  "status_event status detail = \<lparr>ev_Kind = EVENT_KIND_STATUS, ev_Payload = Some (RunEvent_Status status detail)\<rparr>"

definition delta_event :: "string \<Rightarrow> RunEvent" where
  "delta_event txt = \<lparr>ev_Kind = EVENT_KIND_ASSISTANT_DELTA, ev_Payload = Some (RunEvent_AssistantDelta txt)\<rparr>"

definition completed_event :: "bool \<Rightarrow> 32 word \<Rightarrow> string \<Rightarrow> RunEvent" where
  "completed_event success exitCode statsJSON =
     \<lparr>ev_Kind = EVENT_KIND_COMPLETED,
      ev_Payload = Some (RunEvent_Completed
        \<lparr>ce_Success = success, ce_ExitCode = exitCode, ce_StatsJson = statsJSON\<rparr>)\<rparr>"

definition error_event :: "string \<Rightarrow> string \<Rightarrow> RunEvent" where
  "error_event code msg =
     \<lparr>ev_Kind = EVENT_KIND_ERROR,
      ev_Payload = Some (RunEvent_Error \<lparr>err_Code = code, err_Message = msg, err_DetailsJson = ''''\<rparr>)\<rparr>"

definition sendStatus :: "string \<Rightarrow> string \<Rightarrow> prog \<Rightarrow> prog" where
  "sendStatus status detail = Send (status_event status detail)"

definition sendCompleted :: "bool \<Rightarrow> int \<Rightarrow> string \<Rightarrow> prog \<Rightarrow> prog" where
  "sendCompleted success exitCode statsJSON = Send (completed_event success (word_of_int exitCode) statsJSON)"

text \<open>The agent's own error output is logged and not sent.\<close>

definition sendError :: "string \<Rightarrow> string \<Rightarrow> prog \<Rightarrow> prog" where
  "sendError code msg k = (if code = ''STDERR'' then k else Send (error_event code msg) k)"

subsection \<open>Ends of a run\<close>

text \<open>The deferred removal from the map of runs comes last on every path.\<close>

definition finish :: prog where
  "finish = Unregister Halt"

definition aborted :: "runState \<Rightarrow> bool" where
  "aborted rs \<longleftrightarrow> rs_ctx rs \<or> rs_done rs"

text \<open>An error, then the completion unless another goroutine has completed the run.\<close>

definition fail_run :: "string \<Rightarrow> string \<Rightarrow> int \<Rightarrow> prog" where
  "fail_run code msg exitCode =
     sendError code msg (TestAndSet (\<lambda>won. if won then sendCompleted False exitCode '''' finish else finish))"

definition complete_run :: "int \<Rightarrow> prog" where
  "complete_run exitCode =
     TestAndSet (\<lambda>won. if won then sendCompleted (exitCode = 0) exitCode '''' finish else finish)"

text \<open>
  Nothing is reported where the context is cancelled or the run is done. The error is
  \<^verbatim>\<open>context.Canceled\<close> only if the context is cancelled.
\<close>

definition unless_aborted :: "prog \<Rightarrow> prog" where
  "unless_aborted k = Load (\<lambda>rs. if aborted rs then finish else k)"

subsection \<open>Paths and runtimes\<close>

definition resolveHostBindPath :: "string \<Rightarrow> string \<Rightarrow> string \<Rightarrow> string + string" where
  "resolveHostBindPath hostRoot containerRoot containerPath =
     (if hostRoot = '''' \<or> containerRoot = '''' \<or> containerPath = '''' then Inr ''''
      else (case Rel containerRoot containerPath of
              None \<Rightarrow> Inl (''Rel: can't make '' @ containerPath @ '' relative to '' @ containerRoot)
            | Some rel \<Rightarrow>
                if prefix ''../'' rel \<or> rel = ''..''
                then Inl (''path '' @ containerPath @ '' is outside container root '' @ containerRoot)
                else Inr (Join [hostRoot, rel])))"

definition log_dir :: "string \<Rightarrow> string \<Rightarrow> string option" where
  "log_dir root streamID =
     (let logRoot = Clean root; logDir = Clean (Join [logRoot, Sanitize streamID])
      in if prefix (logRoot @ ''/'') (logDir @ ''/'') then Some logDir else None)"

definition normalizeKey :: "string \<Rightarrow> string" where
  "normalizeKey k = replace_char CHR ''-'' CHR ''_'' (to_lower (trim_space k))"

definition supportedRuntimes :: "Config \<Rightarrow> Runtime list" where
  "supportedRuntimes cfg =
     (if cfg_Runtimes cfg = [] then [RUNTIME_CUSTOM]
      else
        (let available = remdups (map (normalizeKey \<circ> fst) (cfg_Runtimes cfg));
             priority = [(''nano_agent'', RUNTIME_NANO_AGENT), (''claude_code'', RUNTIME_CLAUDE_CODE),
                         (''opencode'', RUNTIME_OPENCODE)];
             known = filter (\<lambda>(key, rt). key \<in> set available) priority;
             unknownKeys = sort (filter (\<lambda>k. k \<notin> set (map fst known)) available);
             runtimes = map snd known @ (if length unknownKeys > 0 then [RUNTIME_CUSTOM] else [])
         in if runtimes = [] then [RUNTIME_CUSTOM] else runtimes))"

definition runtime_key :: "Runtime \<Rightarrow> string" where
  "runtime_key rt = to_lower (trim_prefix ''RUNTIME_'' (Runtime_String rt))"

text \<open>The configured runtime of a key, with the name it is configured under.\<close>

definition lookup_runtime :: "Config \<Rightarrow> string \<Rightarrow> (string \<times> RuntimeConfig) option" where
  "lookup_runtime cfg runtimeKey =
     (case map_of (cfg_Runtimes cfg) runtimeKey of
        Some rc \<Rightarrow> Some (runtimeKey, rc)
      | None \<Rightarrow>
          (let dashed = replace_char CHR ''_'' CHR ''-'' runtimeKey in
           map_option (Pair dashed) (map_of (cfg_Runtimes cfg) dashed)))"

text \<open>The texts of the rule errors; what the address parser says of a prefix is left out.\<close>

fun rule_error_text :: "rule_error \<Rightarrow> string" where
  "rule_error_text (InvalidProtocol p) = ''invalid protocol: '' @ go_quote p"
| "rule_error_text (InvalidPort p) = ''invalid port: '' @ dec_of_int p"
| "rule_error_text RequiresHostOrCidr = ''allowlist rule requires host or cidr''"
| "rule_error_text BothHostAndCidr = ''allowlist rule cannot set both host and cidr''"
| "rule_error_text (InvalidCidr c) = ''invalid cidr '' @ go_quote c"

definition container_name :: "Config \<Rightarrow> string \<Rightarrow> string" where
  "container_name cfg streamID = Sanitize (cfg_WorkerID cfg) @ ''-'' @ Sanitize streamID"

subsection \<open>The exec runner\<close>

text \<open>The environment of \<open>ExecStart\<close> is what the run adds to the environment of the worker's own process,
  \<^verbatim>\<open>os.Environ()\<close>, which the command has before it.\<close>

definition exec_exit_code :: "reply \<Rightarrow> int" where
  "exec_exit_code r = (if rp_err r \<noteq> None \<and> rp_code r = 0 then 1 else rp_code r)"

definition run_exec :: "string \<Rightarrow> string list \<Rightarrow> string \<Rightarrow> (string \<times> string) list \<Rightarrow> prog" where
  "run_exec runtimeKey cmd workspaceDir env =
     (if cmd = [] then fail_run ''EXEC_COMMAND_EMPTY'' (''runtime='' @ runtimeKey) 3
      else unless_aborted
        (Sys StdoutPipe (\<lambda>r. case rp_err r of
           Some e \<Rightarrow> fail_run ''EXEC_STDOUT_PIPE_FAILED'' e 3
         | None \<Rightarrow>
             Sys StderrPipe (\<lambda>r. case rp_err r of
               Some e \<Rightarrow> fail_run ''EXEC_STDERR_PIPE_FAILED'' e 3
             | None \<Rightarrow>
                 Sys (ExecStart cmd workspaceDir env) (\<lambda>r. case rp_err r of
                   Some e \<Rightarrow> unless_aborted (fail_run ''EXEC_START_FAILED'' e 3)
                 | None \<Rightarrow>
                     Store FCmd
                       (sendStatus ''running'' ''exec''
                         (Sys ExecWait (\<lambda>r. complete_run (exec_exit_code r)))))))))"

subsection \<open>The docker runner\<close>

text \<open>The container of the agent, common to the two docker paths.\<close>

definition agent_spec ::
  "string \<Rightarrow> string \<Rightarrow> (string \<times> string) list \<Rightarrow> (string \<times> string) list \<Rightarrow> string list \<Rightarrow> string list \<Rightarrow> DockerRunSpec" where
  "agent_spec img containerName mounts env cmd extraArgs =
     \<lparr>ds_Image = img, ds_Name = containerName, ds_Workdir = ''/workspace'', ds_Mounts = mounts,
      ds_Env = env, ds_Command = cmd, ds_Detach = True, ds_Remove = False, ds_ExtraArgs = extraArgs\<rparr>"

definition run_docker ::
  "Config \<Rightarrow> Policy option \<Rightarrow> string \<Rightarrow> string \<Rightarrow> (string \<times> string) list \<Rightarrow> (string \<times> string) list
    \<Rightarrow> string list \<Rightarrow> prog" where
  "run_docker cfg pol img containerName mounts env cmd =
     (let extraArgs = DockerRuntimeArgs (cfg_ContainerRuntime cfg) @ DockerExtraArgsFromPolicy pol in
      DockerRun (agent_spec img containerName mounts env cmd extraArgs) (\<lambda>res. case res of
        Inl e \<Rightarrow>
          Store (FProc None)
            (unless_aborted
              (fail_run ''DOCKER_RUN_FAILED'' (ContainerRuntimeErrorHint e (cfg_ContainerRuntime cfg)) 3))
      | Inr proc \<Rightarrow>
          Store (FProc (Some proc))
            (sendStatus ''running'' containerName
              (Sys (DockerLogs containerName) (\<lambda>r.
                Store (FLogs (rp_err r = None))
                  (DockerWait containerName (\<lambda>res. case res of
                    Inl e \<Rightarrow> unless_aborted (fail_run ''DOCKER_WAIT_FAILED'' e 4)
                  | Inr exitCode \<Rightarrow>
                      DockerRemove containerName (\<lambda>_. complete_run exitCode))))))))"

subsection \<open>The docker runner behind the policy proxy\<close>

definition remove_proxy :: "string \<Rightarrow> string \<Rightarrow> prog \<Rightarrow> prog" where
  "remove_proxy proxyName netName k =
     DockerRemove proxyName (\<lambda>_. DockerNetworkRemove netName (\<lambda>_. k))"

definition proxy_env :: "(string \<times> string) list \<Rightarrow> (string \<times> string) list" where
  "proxy_env env =
     (let proxyURL = ''http://proxy:3128'';
          env = AList.update ''HTTP_PROXY'' proxyURL env;
          env = AList.update ''HTTPS_PROXY'' proxyURL env;
          env = AList.update ''http_proxy'' proxyURL env;
          env = AList.update ''https_proxy'' proxyURL env;
          env = AList.update ''NO_PROXY'' ''localhost,127.0.0.1'' env
      in AList.update ''no_proxy'' ''localhost,127.0.0.1'' env)"

definition proxy_spec :: "string \<Rightarrow> string \<Rightarrow> string \<Rightarrow> string \<Rightarrow> DockerRunSpec" where
  "proxy_spec img proxyName netName allowlistPath =
     \<lparr>ds_Image = img, ds_Name = proxyName, ds_Workdir = '''',
      ds_Mounts = [(allowlistPath, ''/etc/nano/allowlist.json'')], ds_Env = [],
      ds_Command = [''-listen'', '':3128'', ''-allowlist'', ''/etc/nano/allowlist.json''],
      ds_Detach = True, ds_Remove = False,
      ds_ExtraArgs = [''--network'', netName, ''--network-alias'', ''proxy'']\<rparr>"

definition run_proxied_agent ::
  "Config \<Rightarrow> Policy option \<Rightarrow> string \<Rightarrow> string \<Rightarrow> (string \<times> string) list \<Rightarrow> (string \<times> string) list
    \<Rightarrow> string list \<Rightarrow> string \<Rightarrow> string \<Rightarrow> prog" where
  "run_proxied_agent cfg pol img containerName mounts env cmd proxyName netName =
     (let extraArgs = DockerRuntimeArgs (cfg_ContainerRuntime cfg) @ DockerExtraArgsFromPolicy pol
                      @ [''--network'', netName] in
      DockerRun (agent_spec img containerName mounts (proxy_env env) cmd extraArgs) (\<lambda>res. case res of
        Inl e \<Rightarrow>
          Store (FProc None)
            (unless_aborted
              (remove_proxy proxyName netName
                (fail_run ''DOCKER_RUN_FAILED'' (ContainerRuntimeErrorHint e (cfg_ContainerRuntime cfg)) 3)))
      | Inr proc \<Rightarrow>
          Store (FProc (Some proc))
            (sendStatus ''running'' containerName
              (Sys (DockerLogs containerName) (\<lambda>r.
                Store (FLogs (rp_err r = None))
                  (DockerWait containerName (\<lambda>res. case res of
                    Inl e \<Rightarrow>
                      unless_aborted (remove_proxy proxyName netName (fail_run ''DOCKER_WAIT_FAILED'' e 4))
                  | Inr exitCode \<Rightarrow>
                      DockerRemove containerName (\<lambda>_.
                        remove_proxy proxyName netName (complete_run exitCode)))))))))"

definition run_proxied ::
  "Policy option \<Rightarrow> string \<Rightarrow> string \<Rightarrow> string \<Rightarrow> (string \<times> string) list \<Rightarrow> (string \<times> string) list
    \<Rightarrow> string list \<Rightarrow> prog" where
  "run_proxied pol img containerName workspaceDir mounts env cmd =
     GetConfig (\<lambda>cfg.
       if cfg_NetworkAllowlist cfg = [] then
         fail_run ''NETWORK_ALLOWLIST_EMPTY'' ''no allowlist rules configured'' 2
       else (case ValidateNetworkAllowlist (cfg_NetworkAllowlist cfg) of
         Some e \<Rightarrow> fail_run ''NETWORK_ALLOWLIST_INVALID'' (rule_error_text e) 2
       | None \<Rightarrow>
           (let policyImage = (let i = trim_space (cfg_NetworkPolicyImage cfg) in
                               if i = '''' then ''nano-net-policy-runtime:local'' else i);
                netName = containerName @ ''-allow'';
                hostPath = Join [workspaceDir, ''.nano-allowlist.json''];
                mountPath =
                  (if cfg_HostWorkspaceRoot cfg = '''' then hostPath
                   else (case Rel (cfg_WorkspaceRoot cfg) workspaceDir of
                           Some rel \<Rightarrow> Join [cfg_HostWorkspaceRoot cfg, rel, ''.nano-allowlist.json'']
                         | None \<Rightarrow> hostPath));
                proxyName = containerName @ ''-proxy'' in
            DockerNetworkCreateInternal netName (\<lambda>err. case err of
              Some e \<Rightarrow> fail_run ''DOCKER_NETWORK_CREATE_FAILED'' e 3
            | None \<Rightarrow>
                Store (FNetName netName)
                  (Sys (MarshalRules (cfg_NetworkAllowlist cfg)) (\<lambda>r. case rp_err r of
                     Some e \<Rightarrow> fail_run ''NETWORK_ALLOWLIST_INVALID'' e 2
                   | None \<Rightarrow>
                       Sys (WriteFile hostPath (AllowlistJson (cfg_NetworkAllowlist cfg))) (\<lambda>r. case rp_err r of
                         Some e \<Rightarrow> fail_run ''WORKSPACE_WRITE_FAILED'' e 1
                       | None \<Rightarrow>
                           DockerRun (proxy_spec policyImage proxyName netName mountPath) (\<lambda>res. case res of
                             Inl e \<Rightarrow>
                               Store (FNetProc None)
                                 (DockerNetworkRemove netName (\<lambda>_. fail_run ''DOCKER_NET_POLICY_FAILED'' e 3))
                           | Inr proc \<Rightarrow>
                               Store (FNetProc (Some proc))
                                 (DockerNetworkConnect ''bridge'' proxyName (\<lambda>err. case err of
                                    Some e \<Rightarrow>
                                      remove_proxy proxyName netName (fail_run ''DOCKER_NET_POLICY_FAILED'' e 3)
                                  | None \<Rightarrow>
                                      run_proxied_agent cfg pol img containerName mounts env cmd
                                        proxyName netName))))))))))"


subsection \<open>Handling a run request\<close>

text \<open>The log directory, where one is configured. Nothing that fails here ends the run.\<close>

definition make_log_dir :: "Config \<Rightarrow> string \<Rightarrow> string \<Rightarrow> string \<Rightarrow> prog \<Rightarrow> prog" where
  "make_log_dir cfg streamID workspaceID startedAt k =
     (if cfg_LogRoot cfg = '''' then k
      else (case log_dir (cfg_LogRoot cfg) streamID of
              None \<Rightarrow> k
            | Some logDir \<Rightarrow>
                Sys (MkdirAll logDir) (\<lambda>r.
                  if rp_err r \<noteq> None then k
                  else Sys (WriteFile (Join [logDir, ''.nano-run.json'']) (LogMeta streamID workspaceID startedAt))
                         (\<lambda>_. k))))"

text \<open>
  Variables of the worker's environment that are passed through. Where the runtime has a map of its
  own, it is that map, shared by all runs, that is written.
\<close>

fun env_passthrough ::
  "(string \<Rightarrow> string) \<Rightarrow> string \<Rightarrow> bool \<Rightarrow> string list \<Rightarrow> (string \<times> string) list
    \<Rightarrow> ((string \<times> string) list \<Rightarrow> prog) \<Rightarrow> prog" where
  "env_passthrough getenv name shared [] env k = k env"
| "env_passthrough getenv name shared (x # xs) env k =
     (let v = getenv x in
      if v \<noteq> '''' then
        (let rest = env_passthrough getenv name shared xs (AList.update x v env) k
         in if shared then PutEnv name x v rest else rest)
      else env_passthrough getenv name shared xs env k)"

definition run_context :: "Config \<Rightarrow> RuntimeConfig \<Rightarrow> string \<Rightarrow> string \<Rightarrow> ContextInfo" where
  "run_context cfg rc streamID workspaceDir =
     \<lparr>ci_StreamID = streamID, ci_WorkspaceDir = workspaceDir,
      ci_HostWorkspacePath =
        (if cfg_HostWorkspaceRoot cfg = '''' then ''''
         else (case resolveHostBindPath (cfg_HostWorkspaceRoot cfg) (cfg_WorkspaceRoot cfg) workspaceDir of
                 Inr hostPath \<Rightarrow> hostPath | Inl _ \<Rightarrow> '''')),
      ci_AgentConfigPath =
        (if cfg_HostStateRoot cfg \<noteq> '''' \<and> cfg_StateDir cfg \<noteq> '''' \<and> cfg_AgentConfigPath cfg \<noteq> '''' then
           (case resolveHostBindPath (cfg_HostStateRoot cfg) (cfg_StateDir cfg) (cfg_AgentConfigPath cfg) of
              Inr hostCfgPath \<Rightarrow> hostCfgPath | Inl _ \<Rightarrow> cfg_AgentConfigPath cfg)
         else cfg_AgentConfigPath cfg),
      ci_AgentConfigDest = rc_AgentConfigDest rc,
      ci_WorkerID = cfg_WorkerID cfg\<rparr>"

definition is_allowlist :: "Policy option \<Rightarrow> bool" where
  "is_allowlist pol = (case pol of None \<Rightarrow> False | Some p \<Rightarrow> pol_Network p = NETWORK_POLICY_ALLOWLIST)"

text \<open>From the specification of the container to one of the three runners.\<close>

definition run_spec :: "Config \<Rightarrow> RuntimeConfig \<Rightarrow> string \<Rightarrow> string \<Rightarrow> Policy option \<Rightarrow> string \<Rightarrow> DockerRunSpec \<Rightarrow> prog" where
  "run_spec cfg rc runtimeKey streamID pol workspaceDir spec =
     (let runner = (let r = to_lower (trim_space (rc_Runner rc)) in if r = '''' then ''docker'' else r);
          containerName = container_name cfg streamID in
      if runner = ''exec'' then run_exec runtimeKey (ds_Command spec) workspaceDir (ds_Env spec)
      else if rc_Image rc = '''' then fail_run ''RUNTIME_IMAGE_EMPTY'' (''runtime='' @ runtimeKey) 2
      else if is_allowlist pol then
        run_proxied pol (rc_Image rc) containerName workspaceDir (ds_Mounts spec) (ds_Env spec) (ds_Command spec)
      else run_docker cfg pol (rc_Image rc) containerName (ds_Mounts spec) (ds_Env spec) (ds_Command spec))"

definition run_runtime ::
  "(string \<Rightarrow> string) \<Rightarrow> (string \<Rightarrow> env_file) \<Rightarrow> Config \<Rightarrow> string \<Rightarrow> string \<Rightarrow> RunRequest \<Rightarrow> prog" where
  "run_runtime getenv readFile cfg streamID workspaceDir req =
     (let runtimeKey = runtime_key (rr_Runtime req) in
      case lookup_runtime cfg runtimeKey of
        None \<Rightarrow> fail_run ''RUNTIME_NOT_CONFIGURED'' (''runtime='' @ runtimeKey) 2
      | Some (name, rc) \<Rightarrow>
          env_passthrough getenv name (rc_Env rc \<noteq> None) (cfg_EnvPassthrough cfg)
            (case rc_Env rc of None \<Rightarrow> [] | Some env \<Rightarrow> env) (\<lambda>env.
            let base = \<lparr>ba_Image = rc_Image rc, ba_Command = rc_Command rc, ba_Env = env\<rparr>;
                info = run_context cfg rc streamID workspaceDir in
            case (if runtimeKey = ''nano_agent'' then NanoAgentBuildSpec base (rc_EnvFile rc) readFile req info
                  else BuildSpec base req info) of
              Inl e \<Rightarrow> fail_run ''RUNTIME_SPEC_BUILD_FAILED'' e 2
            | Inr spec \<Rightarrow> run_spec cfg rc runtimeKey streamID (rr_Policy req) workspaceDir spec))"

definition workspace_id :: "RunRequest \<Rightarrow> string \<Rightarrow> string" where
  "workspace_id req streamID =
     (let w = (case rr_Workspace req of None \<Rightarrow> '''' | Some ws \<Rightarrow> ws_WorkspaceId ws)
      in if w = '''' then streamID else w)"

definition workspace_dir :: "Config \<Rightarrow> RunRequest \<Rightarrow> string \<Rightarrow> string" where
  "workspace_dir cfg req streamID = Join [cfg_WorkspaceRoot cfg, Sanitize (workspace_id req streamID)]"

definition handleRunRequest ::
  "(string \<Rightarrow> string) \<Rightarrow> (string \<Rightarrow> env_file) \<Rightarrow> string \<Rightarrow> string \<Rightarrow> RunRequest \<Rightarrow> prog" where
  "handleRunRequest getenv readFile startedAt streamID req =
     Register
       (unless_aborted
         (sendStatus ''starting'' ''''
           (GetConfig (\<lambda>cfg.
             let workspaceDir = workspace_dir cfg req streamID in
             Sys (MkdirAll workspaceDir) (\<lambda>r. case rp_err r of
               Some e \<Rightarrow> sendError ''WORKSPACE_CREATE_FAILED'' e (sendCompleted False 1 '''' finish)
             | None \<Rightarrow>
                 Sys (WriteFile (Join [workspaceDir, ''.nano-workspace.json''])
                        (RunMeta streamID (workspace_id req streamID))) (\<lambda>_.
                   make_log_dir cfg streamID (workspace_id req streamID) startedAt
                     (run_runtime getenv readFile cfg streamID workspaceDir req)))))))"

subsection \<open>Handling a cancellation\<close>

text \<open>Stopping a container and removing it, errors ignored.\<close>

definition stop_and_remove :: "DockerProcess option \<Rightarrow> prog \<Rightarrow> prog" where
  "stop_and_remove proc k =
     (case proc of None \<Rightarrow> k
      | Some p \<Rightarrow> DockerProcess_Stop p (\<lambda>_. DockerRemove (process_target p) (\<lambda>_. k)))"

definition kill_logs :: "prog \<Rightarrow> prog" where
  "kill_logs k = Load (\<lambda>rs. if rs_logs rs then Sys KillLogs (\<lambda>_. k) else k)"

definition kill_exec :: "prog \<Rightarrow> prog" where
  "kill_exec k = Load (\<lambda>rs. if rs_cmd rs then Sys ExecKill (\<lambda>_. k) else k)"

definition handleCancel :: "string \<Rightarrow> prog" where
  "handleCancel reason =
     Lookup (\<lambda>found. if \<not> found then Halt else
       TestAndSet (\<lambda>won. if \<not> won then Halt else
         CancelCtx
           (kill_logs
             (Load (\<lambda>rs. stop_and_remove (rs_proc rs)
               (Load (\<lambda>rs. stop_and_remove (rs_netProc rs)
                 (Load (\<lambda>rs. DockerNetworkRemove (rs_netName rs) (\<lambda>_.
                   kill_exec
                     (sendStatus ''cancelled'' reason
                       (sendCompleted False 137
                         (''{'' @ in_quotes ''reason'' @ '':'' @ in_quotes ''cancelled'' @ ''}'') Halt))))))))))))"


subsection \<open>Workspaces\<close>

lemma Sanitize_child: "child_name (Sanitize s)"
proof -
  have "list_all name_char (Sanitize s)" "Sanitize s \<noteq> ''''" using Sanitize_chars by auto
  then have "CHR ''/'' \<notin> set (Sanitize s)" "CHR ''.'' \<notin> set (Sanitize s)"
    using not_name_char by (auto simp: list_all_iff)
  with \<open>Sanitize s \<noteq> ''''\<close> show ?thesis by (auto simp: child_name_def path_word_def)
qed

lemma Sanitize_no_dots: "\<not> prefix ''../'' (Sanitize s)" "Sanitize s \<noteq> ''..''"
proof -
  have "CHR ''.'' \<notin> set (Sanitize s)"
    using Sanitize_chars [of s] not_name_char by (auto simp: list_all_iff)
  then show "\<not> prefix ''../'' (Sanitize s)" "Sanitize s \<noteq> ''..''" by (auto simp: prefix_def)
qed

text \<open>C30: Whatever workspace identifier a request names, its directory is a direct child of the workspace
  root, and the path docker is given for it on the host is the child of the same name of the host's
  root: no identifier escapes either root, through parent references, separators or otherwise.\<close>

theorem workspace_stays_below_root:
  assumes "cfg_WorkspaceRoot cfg \<noteq> ''''" and "cfg_HostWorkspaceRoot cfg \<noteq> ''''"
  shows "path_comps (workspace_dir cfg req s) = path_comps (cfg_WorkspaceRoot cfg) @ [Sanitize (workspace_id req s)]
    \<and> rooted (workspace_dir cfg req s) = rooted (cfg_WorkspaceRoot cfg)
    \<and> resolveHostBindPath (cfg_HostWorkspaceRoot cfg) (cfg_WorkspaceRoot cfg) (workspace_dir cfg req s)
        = Inr (Join [cfg_HostWorkspaceRoot cfg, Sanitize (workspace_id req s)])
    \<and> path_comps (Join [cfg_HostWorkspaceRoot cfg, Sanitize (workspace_id req s)])
        = path_comps (cfg_HostWorkspaceRoot cfg) @ [Sanitize (workspace_id req s)]"
proof -
  let ?w = "Sanitize (workspace_id req s)"
  note root = Join_child [OF assms(1) Sanitize_child, of "workspace_id req s"]
  have "workspace_dir cfg req s \<noteq> ''''"
  proof
    assume "workspace_dir cfg req s = ''''"
    then have "path_comps ('''' :: string) = path_comps (cfg_WorkspaceRoot cfg) @ [?w]"
      using root(2) by (simp add: workspace_dir_def)
    then show False by (simp add: path_comps_def)
  qed
  then show ?thesis
    using assms root Join_child(2) [OF assms(2) Sanitize_child] Rel_child [OF assms(1) Sanitize_child]
      Sanitize_no_dots
    by (simp add: resolveHostBindPath_def workspace_dir_def)
qed

lemma workspace_stays_below_root_witness:
  "path_comps (Join [''/ws'', Sanitize ''../../etc'']) = [''ws'', ''------etc'']"
proof -
  define cfg where "cfg = empty_config\<lparr>cfg_WorkspaceRoot := ''/ws'', cfg_HostWorkspaceRoot := ''/host''\<rparr>"
  define req :: RunRequest where "req = \<lparr>rr_SessionId = '''', rr_Runtime = RUNTIME_CUSTOM, rr_Workspace = None,
    rr_Input = None, rr_Policy = None, rr_SecretsRef = ''''\<rparr>"
  have "path_comps ''/ws'' = [''ws'']" "Sanitize ''../../etc'' = ''------etc''" by code_simp+
  then show ?thesis
    using workspace_stays_below_root [of cfg req "''../../etc''"]
    by (simp add: cfg_def req_def workspace_dir_def workspace_id_def)
qed

end
