(* ===== verification/WorkerSystem.thy ===== *)
theory WorkerSystem
  imports WorkerRun
begin

text \<open>
  The goroutines of the worker running together. The world holds what they share: the
  configuration, the sequence number, the map of runs with the run states it points to, and what has been
  sent. An event is kept with the run it was sent for, because the envelope names only the stream.
  A system is a world with its goroutines; it moves when a request or a cancellation arrives, when a
  goroutine takes a step, when an agent prints a line, and when the connection is lost.
\<close>

subsection \<open>The world\<close>

record world =
  w_cfg :: Config
  w_seq :: "64 word"
  w_out :: "(nat \<times> Envelope) list"
  w_heap :: "nat \<Rightarrow> runState"
  w_runs :: "string \<Rightarrow> nat option"

definition run_envelope :: "Config \<Rightarrow> string \<Rightarrow> 64 word \<Rightarrow> RunEvent \<Rightarrow> Envelope" where
  "run_envelope cfg streamID seq evt =
     \<lparr>env_ProtocolVersion = ''1.0'', env_TunnelId = '''', env_WorkerId = cfg_WorkerID cfg,
      env_StreamId = streamID, env_Seq = seq, env_Message = Some (Envelope_RunEvent evt)\<rparr>"

text \<open>\<^verbatim>\<open>sendRunEvent\<close>: the next sequence number, then the envelope is written.\<close>

definition sendRunEvent :: "nat \<Rightarrow> string \<Rightarrow> RunEvent \<Rightarrow> world \<Rightarrow> world" where
  "sendRunEvent a streamID evt w =
     (let seq = w_seq w + 1
      in w\<lparr>w_seq := seq, w_out := w_out w @ [(a, run_envelope (w_cfg w) streamID seq evt)]\<rparr>)"

definition put_env :: "string \<Rightarrow> string \<Rightarrow> string \<Rightarrow> Config \<Rightarrow> Config" where
  "put_env name k v cfg =
     (case map_of (cfg_Runtimes cfg) name of
        None \<Rightarrow> cfg
      | Some rc \<Rightarrow>
          cfg\<lparr>cfg_Runtimes := AList.update name
                (rc\<lparr>rc_Env := map_option (AList.update k v) (rc_Env rc)\<rparr>) (cfg_Runtimes cfg)\<rparr>)"

definition upd_rs :: "nat \<Rightarrow> (runState \<Rightarrow> runState) \<Rightarrow> world \<Rightarrow> world" where
  "upd_rs a f w = w\<lparr>w_heap := (w_heap w)(a := f (w_heap w a))\<rparr>"

text \<open>
  An operation of the goroutine of a stream whose run state is at \<open>a\<close>; the result is that address,
  or the one it has looked up. An operation is possible with the result it really has.
\<close>

fun perform :: "string \<Rightarrow> nat \<Rightarrow> label \<Rightarrow> world \<Rightarrow> (nat \<times> world) option" where
  "perform s a LRegister w = Some (a, w\<lparr>w_runs := (w_runs w)(s := Some a)\<rparr>)"
| "perform s a LUnregister w = Some (a, w\<lparr>w_runs := (w_runs w)(s := None)\<rparr>)"
| "perform s a (LLookup b) w =
     (case w_runs w s of None \<Rightarrow> if b then None else Some (a, w)
      | Some a' \<Rightarrow> if b then Some (a', w) else None)"
| "perform s a (LLoad rs) w = (if rs = w_heap w a then Some (a, w) else None)"
| "perform s a (LStore f) w = Some (a, upd_rs a (set_field f) w)"
| "perform s a (LTestAndSet b) w =
     (if b \<longleftrightarrow> \<not> rs_done (w_heap w a) then Some (a, upd_rs a (\<lambda>rs. rs\<lparr>rs_done := True\<rparr>) w) else None)"
| "perform s a LCancelCtx w = Some (a, upd_rs a (\<lambda>rs. rs\<lparr>rs_ctx := True\<rparr>) w)"
| "perform s a (LGetConfig c) w = (if c = w_cfg w then Some (a, w) else None)"
| "perform s a (LPutEnv name k v) w = Some (a, w\<lparr>w_cfg := put_env name k v (w_cfg w)\<rparr>)"
| "perform s a (LSend e) w = Some (a, sendRunEvent a s e w)"
| "perform s a (LSys c r) w = Some (a, w)"

subsection \<open>The system\<close>

record thread =
  th_stream :: string
  th_run :: bool
  th_rs :: nat
  th_prog :: prog

record system =
  sy_world :: world
  sy_threads :: "thread list"

datatype act =
    RecvRun string RunRequest
  | RecvCancel string string
  | Step nat label
  | AgentLine nat bool string
  | ConnLost

text \<open>The read loop of \<^verbatim>\<open>connectAndServe\<close>: what an envelope starts.\<close>

definition on_envelope :: "nat \<Rightarrow> Envelope \<Rightarrow> act option" where
  "on_envelope now env =
     (case GetRunRequest env of
        Some req \<Rightarrow>
          Some (RecvRun (if env_StreamId env = '''' then ''run-'' @ dec_of_nat now else env_StreamId env) req)
      | None \<Rightarrow> map_option (RecvCancel (env_StreamId env)) (GetCancelRequest env))"

definition new_rs :: "string \<Rightarrow> runState" where
  "new_rs s = \<lparr>rs_streamID = s, rs_ctx = False, rs_done = False, rs_proc = None, rs_netProc = None,
     rs_netName = '''', rs_logs = False, rs_cmd = False\<rparr>"

definition spawn :: "string \<Rightarrow> bool \<Rightarrow> prog \<Rightarrow> system \<Rightarrow> system" where
  "spawn s isrun p S =
     (let a = length (sy_threads S) in
      S\<lparr>sy_world := upd_rs a (\<lambda>_. new_rs s) (sy_world S),
        sy_threads := sy_threads S @ [\<lparr>th_stream = s, th_run = isrun, th_rs = a, th_prog = p\<rparr>]\<rparr>)"

text \<open>
  The lines of an agent come as long as its output is followed, whether or not the run is done;
  a line of its error output is logged and not sent.
\<close>

definition agent_line :: "nat \<Rightarrow> bool \<Rightarrow> string \<Rightarrow> world \<Rightarrow> world option" where
  "agent_line a isStderr line w =
     (let rs = w_heap w a in
      if \<not> (rs_logs rs \<or> rs_cmd rs) then None
      else if isStderr then Some w
      else Some (sendRunEvent a (rs_streamID rs) (delta_event (line @ [CHR 0x0A])) w))"

text \<open>A new run has the next free address. \<open>handle\<close> is the request handler with its environment.\<close>

fun act_step :: "(string \<Rightarrow> RunRequest \<Rightarrow> prog) \<Rightarrow> act \<Rightarrow> system \<Rightarrow> system option" where
  "act_step handle (RecvRun s req) S = Some (spawn s True (handle s req) S)"
| "act_step handle (RecvCancel s reason) S = Some (spawn s False (handleCancel reason) S)"
| "act_step handle (Step i l) S =
     (if i \<ge> length (sy_threads S) then None
      else
        (let t = sy_threads S ! i in
         case step_prog (th_prog t) l of None \<Rightarrow> None
         | Some p \<Rightarrow>
             (case perform (th_stream t) (th_rs t) l (sy_world S) of None \<Rightarrow> None
              | Some (a, w) \<Rightarrow>
                  Some (S\<lparr>sy_world := w,
                    sy_threads := (sy_threads S)[i := t\<lparr>th_rs := a, th_prog := p\<rparr>]\<rparr>))))"
| "act_step handle (AgentLine a isErr line) S =
     map_option (\<lambda>w. S\<lparr>sy_world := w\<rparr>) (agent_line a isErr line (sy_world S))"
| "act_step handle ConnLost S =
     Some (S\<lparr>sy_world := (sy_world S)\<lparr>w_heap := (\<lambda>a. (w_heap (sy_world S) a)\<lparr>rs_ctx := True\<rparr>)\<rparr>\<rparr>)"

fun acts_run :: "(string \<Rightarrow> RunRequest \<Rightarrow> prog) \<Rightarrow> act list \<Rightarrow> system \<Rightarrow> system option" where
  "acts_run handle [] S = Some S"
| "acts_run handle (x # xs) S =
     (case act_step handle x S of None \<Rightarrow> None | Some S' \<Rightarrow> acts_run handle xs S')"

definition start_system :: "Config \<Rightarrow> system" where
  "start_system cfg =
     \<lparr>sy_world = \<lparr>w_cfg = cfg, w_seq = 0, w_out = [], w_heap = (\<lambda>_. new_rs ''''), w_runs = (\<lambda>_. None)\<rparr>,
      sy_threads = []\<rparr>"

end
