(* ===== verification/RunMonitors.thy ===== *)
theory RunMonitors
  imports WorkerRun
begin

text \<open>
  What every path through a run does, by monitors. The locale \<open>run_monitor\<close> collects what a
  monitor has to say of the pieces of a run: the operations it does not look at, the wait for the agent
  and the state it leaves, the failing ends with their codes, the regular end. Its lemma carries that over to the whole handler. Four monitors are
  interpretations: the one of the single completion, the one of the run that does not stop
  silently, the one of the exit codes, and the one of the steps left.
\<close>

subsection \<open>Pieces of a run\<close>

lemmas prog_defs = fail_run_def complete_run_def finish_def sendError_def sendCompleted_def sendStatus_def
  unless_aborted_def

text \<open>The failures a run reports, with the exit code each is completed with.\<close>

definition exit_table :: "(string \<times> int) list" where
  "exit_table =
     [(''WORKSPACE_CREATE_FAILED'', 1), (''WORKSPACE_WRITE_FAILED'', 1),
      (''RUNTIME_NOT_CONFIGURED'', 2), (''RUNTIME_SPEC_BUILD_FAILED'', 2), (''RUNTIME_IMAGE_EMPTY'', 2),
      (''NETWORK_ALLOWLIST_EMPTY'', 2), (''NETWORK_ALLOWLIST_INVALID'', 2),
      (''EXEC_COMMAND_EMPTY'', 3), (''EXEC_STDOUT_PIPE_FAILED'', 3), (''EXEC_STDERR_PIPE_FAILED'', 3),
      (''EXEC_START_FAILED'', 3), (''DOCKER_NETWORK_CREATE_FAILED'', 3), (''DOCKER_NET_POLICY_FAILED'', 3),
      (''DOCKER_RUN_FAILED'', 3), (''DOCKER_WAIT_FAILED'', 4)]"

definition quiet_label :: "label \<Rightarrow> bool" where
  "quiet_label l =
     (case l of LRegister \<Rightarrow> True | LUnregister \<Rightarrow> True | LStore _ \<Rightarrow> True | LGetConfig _ \<Rightarrow> True
      | LPutEnv _ _ _ \<Rightarrow> True | LSys _ _ \<Rightarrow> True
      | LSend e \<Rightarrow> (\<exists>s d. e = status_event s d)
      | _ \<Rightarrow> False)"

text \<open>Waiting for the agent is apart: a monitor may take its exit code from the reply. \<open>wait_code\<close> is what
  \<^verbatim>\<open>docker wait\<close> has printed, nothing counting as 0; a process that was killed by a failure of waiting has
  the code 1, if it has none.\<close>

definition waits :: "label \<Rightarrow> bool" where
  "waits l = (case l of LSys (Docker (x # _)) r \<Rightarrow> x = ''wait'' | LSys ExecWait r \<Rightarrow> True | _ \<Rightarrow> False)"

definition wait_code :: "reply \<Rightarrow> int option" where
  "wait_code r =
     (if rp_err r \<noteq> None then None
      else if trim_space (rp_out r) = '''' then Some 0 else sscanf_d (trim_space (rp_out r)))"

definition process_code :: "reply \<Rightarrow> int" where
  "process_code r = (if rp_code r \<noteq> 0 then rp_code r else if rp_err r = None then 0 else 1)"

lemma exec_exit_process: "exec_exit_code r = process_code r"
  by (simp add: exec_exit_code_def process_code_def)

lemma waits_simps [simp]:
  "\<not> waits LRegister" "\<not> waits LUnregister" "\<not> waits (LStore f)" "\<not> waits (LGetConfig cf)" "\<not> waits (LPutEnv n x v)"
  "\<not> waits (LSend e)" "x \<noteq> ''wait'' \<Longrightarrow> \<not> waits (LSys (Docker (x # ys)) r)"
  "(\<And>args. c \<noteq> Docker args) \<Longrightarrow> c \<noteq> ExecWait \<Longrightarrow> \<not> waits (LSys c r)"
  by (auto simp: waits_def split: syscall.splits list.splits)

locale blind_monitor =
  fixes M :: "'q monitor" and q :: 'q
  assumes quiet: "quiet_label l \<Longrightarrow> \<not> waits l \<Longrightarrow> mo_check M q l \<and> mo_next M q l = q"
begin

lemma pass [simp]:
  "quiet_label l \<Longrightarrow> \<not> waits l \<Longrightarrow> (mo_assume M q l \<Longrightarrow> rest q) \<Longrightarrow> observe M q l rest"
  using quiet by (simp add: observe_def)

lemma quiet_status [simp]: "quiet_label (LSend (status_event s d))"
  by (auto simp: quiet_label_def)

lemma calls:
  "(\<And>r. \<not> waits (LSys c r)) \<Longrightarrow> (\<And>r. conforms M (k r) q) \<Longrightarrow> conforms M (Sys c k) q"
  "(\<And>c. mo_assume M q (LGetConfig c) \<Longrightarrow> conforms M (k' c) q) \<Longrightarrow> conforms M (GetConfig k') q"
  "conforms M p q \<Longrightarrow> conforms M (Store f p) q"
  "conforms M p q \<Longrightarrow> conforms M (PutEnv n x v p) q"
  "conforms M p q \<Longrightarrow> conforms M (Register p) q"
  "conforms M p q \<Longrightarrow> conforms M (sendStatus s d p) q"
proof -
  have "quiet_label (LSys c r)" "quiet_label (LGetConfig cf)" "quiet_label (LStore f)" "quiet_label (LPutEnv n x v)"
    "quiet_label LRegister" for r cf by (simp_all add: quiet_label_def)
  then show "(\<And>r. \<not> waits (LSys c r)) \<Longrightarrow> (\<And>r. conforms M (k r) q) \<Longrightarrow> conforms M (Sys c k) q"
    "(\<And>c. mo_assume M q (LGetConfig c) \<Longrightarrow> conforms M (k' c) q) \<Longrightarrow> conforms M (GetConfig k') q"
    "conforms M p q \<Longrightarrow> conforms M (Store f p) q"
    "conforms M p q \<Longrightarrow> conforms M (PutEnv n x v p) q"
    "conforms M p q \<Longrightarrow> conforms M (Register p) q"
    "conforms M p q \<Longrightarrow> conforms M (sendStatus s d p) q"
    by (simp_all add: conforms.simps sendStatus_def)
qed

lemma commands:
  "(\<And>e. conforms M (k e) q) \<Longrightarrow> conforms M (DockerNetworkCreateInternal n k) q"
  "(\<And>e. conforms M (k e) q) \<Longrightarrow> conforms M (DockerNetworkRemove n k) q"
  "(\<And>e. conforms M (k e) q) \<Longrightarrow> conforms M (DockerNetworkConnect n c k) q"
  "(\<And>e. conforms M (k e) q) \<Longrightarrow> conforms M (DockerRemove c k) q"
  "(\<And>e. conforms M (k e) q) \<Longrightarrow> conforms M (DockerProcess_Stop pr k) q"
  unfolding DockerNetworkCreateInternal_def DockerNetworkRemove_def DockerNetworkConnect_def DockerRemove_def
    DockerProcess_Stop_def Let_def
  by (auto intro!: calls split: option.split)

lemma run: "(\<And>e. conforms M (k e) q) \<Longrightarrow> conforms M (DockerRun spec k) q"
  unfolding DockerRun_def Let_def docker_run_args_def by (auto intro!: calls commands split: option.split)

lemma removes: "conforms M p q \<Longrightarrow> conforms M (remove_proxy a b p) q"
  unfolding remove_proxy_def by (intro commands) simp

end

text \<open>\<open>after x\<close> is the state once the agent has ended with the exit code \<open>x\<close>; \<open>own\<close> says of a container that it is the
  one of the run.\<close>

locale run_monitor = blind_monitor M q for M :: "'q monitor" and q :: 'q +
  fixes after :: "int \<Rightarrow> 'q" and streamID :: string and own :: "string \<Rightarrow> bool"
  assumes after_blind: "blind_monitor M (after x)"
    and owned: "mo_assume M q (LGetConfig cfg) \<Longrightarrow> own (container_name cfg streamID)"
    and docker_ended: "own c \<Longrightarrow> mo_check M q (LSys (Docker [''wait'', c]) r)
      \<and> mo_next M q (LSys (Docker [''wait'', c]) r) = (case wait_code r of None \<Rightarrow> q | Some x \<Rightarrow> after x)"
    and exec_ended: "mo_check M q (LSys ExecWait r) \<and> mo_next M q (LSys ExecWait r) = after (process_code r)"
    and unless: "conforms M k q \<Longrightarrow> conforms M (unless_aborted k) q"
    and failing: "(code, exitCode) \<in> set exit_table \<Longrightarrow> conforms M (fail_run code msg exitCode) q"
    and completing: "conforms M (complete_run x) (after x)"
    and creating: "conforms M (sendError ''WORKSPACE_CREATE_FAILED'' msg (sendCompleted False 1 '''' finish)) q"
begin

lemma wait:
  assumes "own c" "\<And>e. conforms M (k (Inl e)) q" "\<And>x. conforms M (k (Inr x)) (after x)"
  shows "conforms M (DockerWait c k) q"
  unfolding DockerWait_def Let_def
  using assms docker_ended [OF assms(1)] by (auto simp: conforms.simps observe_def wait_code_def split: option.split)

lemma exec_end: "conforms M (Sys ExecWait (\<lambda>r. complete_run (exec_exit_code r))) q"
  using exec_ended completing by (simp add: conforms.simps observe_def exec_exit_process)

lemma docker_end:
  "conforms M (DockerRemove c (\<lambda>_. complete_run x)) (after x)"
  "conforms M (DockerRemove c (\<lambda>_. remove_proxy a b (complete_run x))) (after x)"
  by (intro blind_monitor.commands [OF after_blind] blind_monitor.removes [OF after_blind] completing)+

lemma codes: "(code, exitCode) \<in> set exit_table \<Longrightarrow> conforms M (unless_aborted (fail_run code msg exitCode)) q"
  by (intro unless failing)

lemmas pieces = calls commands wait run removes unless exec_end docker_end failing

lemma exec: "conforms M (run_exec key cmd dir env) q"
  unfolding run_exec_def by (auto intro!: pieces simp: exit_table_def split: option.split)

lemma docker: "own name \<Longrightarrow> conforms M (run_docker cfg pol img name mounts env cmd) q"
  unfolding run_docker_def Let_def by (auto intro!: pieces simp: exit_table_def split: sum.split)

lemma proxied_agent: "own name \<Longrightarrow> conforms M (run_proxied_agent cfg pol img name mounts env cmd pr net) q"
  unfolding run_proxied_agent_def Let_def by (auto intro!: pieces simp: exit_table_def split: sum.split)

lemma proxied: "own name \<Longrightarrow> conforms M (run_proxied pol img name dir mounts env cmd) q"
  unfolding run_proxied_def Let_def
  by (auto intro!: pieces proxied_agent simp: exit_table_def split: sum.split option.split)

lemma spec: "own (container_name cfg streamID) \<Longrightarrow> conforms M (run_spec cfg rc key streamID pol dir sp) q"
  unfolding run_spec_def Let_def
  by (auto intro!: exec docker proxied failing simp: exit_table_def)

lemma passthrough: "(\<And>env. conforms M (k env) q) \<Longrightarrow> conforms M (env_passthrough g n sh xs env k) q"
  by (induction xs arbitrary: env) (auto simp: Let_def intro: calls)

lemma runtime: "own (container_name cfg streamID) \<Longrightarrow> conforms M (run_runtime g rf cfg streamID dir req) q"
  unfolding run_runtime_def Let_def
  by (auto intro!: passthrough spec failing simp: exit_table_def split: option.split prod.split sum.split)

lemma log_dirs: "conforms M p q \<Longrightarrow> conforms M (make_log_dir cfg s w t p) q"
  unfolding make_log_dir_def by (auto intro!: calls split: option.split)

lemma handler: "conforms M (handleRunRequest g rf t streamID req) q"
  unfolding handleRunRequest_def Let_def
  by (auto intro!: calls unless creating log_dirs runtime owned split: option.split)

end

subsection \<open>One completion\<close>

text \<open>
  A goroutine waits, then owns the completion, then has sent it. Nobody owns it twice: after the
  flag is set a test-and-set fails.
\<close>

datatype phase = Waiting | Owner | Finished

definition is_completed :: "RunEvent \<Rightarrow> bool" where
  "is_completed e \<longleftrightarrow> ev_Kind e = EVENT_KIND_COMPLETED"

definition workspace_error :: "RunEvent \<Rightarrow> bool" where
  "workspace_error e = (case GetError e of None \<Rightarrow> False | Some x \<Rightarrow> err_Code x = ''WORKSPACE_CREATE_FAILED'')"

definition once_monitor :: "phase monitor" where
  "once_monitor =
     \<lparr>mo_assume = (\<lambda>ph l. case l of
          LTestAndSet b \<Rightarrow> ph \<noteq> Waiting \<longrightarrow> \<not> b
        | LSend e \<Rightarrow> \<not> workspace_error e
        | _ \<Rightarrow> True),
      mo_check = (\<lambda>ph l. case l of
          LLookup _ \<Rightarrow> ph = Waiting
        | LCancelCtx \<Rightarrow> ph \<noteq> Waiting
        | LSend e \<Rightarrow> is_completed e \<longrightarrow> ph = Owner
        | _ \<Rightarrow> True),
      mo_next = (\<lambda>ph l. case l of
          LTestAndSet b \<Rightarrow> if b \<and> ph = Waiting then Owner else ph
        | LSend e \<Rightarrow> if is_completed e then Finished else ph
        | _ \<Rightarrow> ph),
      mo_final = (\<lambda>ph. ph \<noteq> Owner)\<rparr>"

lemma event_kinds [simp]:
  "ev_Kind (status_event s d) = EVENT_KIND_STATUS" "ev_Kind (error_event c m) = EVENT_KIND_ERROR"
  "ev_Kind (completed_event b x j) = EVENT_KIND_COMPLETED" "ev_Kind (delta_event t) = EVENT_KIND_ASSISTANT_DELTA"
  "is_completed (status_event s d) = False" "is_completed (error_event c m) = False"
  "is_completed (completed_event b x j)" "is_completed (delta_event t) = False"
  by (simp_all add: status_event_def error_event_def completed_event_def delta_event_def is_completed_def)

lemma event_errors [simp]:
  "workspace_error (status_event s d) = False" "workspace_error (completed_event b x j) = False"
  "workspace_error (delta_event t) = False"
  "workspace_error (error_event c m) \<longleftrightarrow> c = ''WORKSPACE_CREATE_FAILED''"
  by (simp_all add: status_event_def error_event_def completed_event_def delta_event_def
      workspace_error_def GetError_def)

lemma exit_table_stderr: "(code, exitCode) \<in> set exit_table \<Longrightarrow> code \<noteq> ''STDERR''"
  by (auto simp: exit_table_def)

interpretation once_quiet: blind_monitor once_monitor ph for ph
  by unfold_locales (auto simp: quiet_label_def once_monitor_def split: label.splits)

interpretation once: run_monitor once_monitor Waiting "\<lambda>_. Waiting" s "\<lambda>_. True" for s
proof
qed (auto simp: prog_defs conforms.simps observe_def once_monitor_def dest: exit_table_stderr
    split: option.split intro: once_quiet.blind_monitor_axioms)

subsection \<open>No silent end\<close>

text \<open>A run that never finds itself aborted gets to the test-and-set.\<close>

definition answer_monitor :: "bool monitor" where
  "answer_monitor =
     \<lparr>mo_assume = (\<lambda>tested l. case l of
          LLoad rs \<Rightarrow> tested \<or> \<not> aborted rs
        | LSend e \<Rightarrow> \<not> workspace_error e
        | _ \<Rightarrow> True),
      mo_check = (\<lambda>tested l. case l of LLookup _ \<Rightarrow> tested | _ \<Rightarrow> True),
      mo_next = (\<lambda>tested l. case l of LTestAndSet _ \<Rightarrow> True | _ \<Rightarrow> tested),
      mo_final = (\<lambda>tested. tested)\<rparr>"

interpretation answer_quiet: blind_monitor answer_monitor tested for tested
  by unfold_locales (auto simp: quiet_label_def answer_monitor_def split: label.splits)

interpretation answer: run_monitor answer_monitor False "\<lambda>_. False" s "\<lambda>_. True" for s
proof
qed (auto simp: prog_defs conforms.simps observe_def answer_monitor_def dest: exit_table_stderr
    split: option.split intro: answer_quiet.blind_monitor_axioms)

subsection \<open>Exit codes\<close>

text \<open>The state is the code of the last error sent, and the exit code of the agent once it has ended. The
  container's name, which is made from the configuration, is assumed to be \<open>name\<close>.\<close>

definition exit_monitor :: "string \<Rightarrow> string \<Rightarrow> (string option \<times> int option) monitor" where
  "exit_monitor s name =
     \<lparr>mo_assume = (\<lambda>_ l. case l of LGetConfig cfg \<Rightarrow> container_name cfg s = name | _ \<Rightarrow> True),
      mo_check = (\<lambda>(err, agent) l. case l of
          LSend e \<Rightarrow> is_completed e \<longrightarrow>
            (case err of
               None \<Rightarrow> (\<exists>x. agent = Some x \<and> e = completed_event (x = 0) (word_of_int x) '''')
             | Some code \<Rightarrow>
                 (\<exists>x. map_of exit_table code = Some x \<and> e = completed_event False (word_of_int x) ''''))
        | _ \<Rightarrow> True),
      mo_next = (\<lambda>(err, agent) l. case l of
          LSend e \<Rightarrow> (case GetError e of Some x \<Rightarrow> (Some (err_Code x), agent) | None \<Rightarrow> (err, agent))
        | LSys (Docker [w, c]) r \<Rightarrow>
            if w = ''wait'' \<and> c = name then (err, case wait_code r of None \<Rightarrow> agent | Some x \<Rightarrow> Some x) else (err, agent)
        | LSys ExecWait r \<Rightarrow> (err, Some (process_code r))
        | _ \<Rightarrow> (err, agent)),
      mo_final = (\<lambda>_. True)\<rparr>"

lemma exit_table_map: "(code, exitCode) \<in> set exit_table \<Longrightarrow> map_of exit_table code = Some exitCode"
proof -
  have "distinct (map fst exit_table)" by code_simp
  then show "(code, exitCode) \<in> set exit_table \<Longrightarrow> map_of exit_table code = Some exitCode"
    by (rule map_of_is_SomeI)
qed

lemma GetError_events [simp]:
  "GetError (error_event c m) = Some \<lparr>err_Code = c, err_Message = m, err_DetailsJson = ''''\<rparr>"
  "GetError (status_event s d) = None" "GetError (completed_event b x j) = None" "GetError (delta_event t) = None"
  by (simp_all add: GetError_def error_event_def status_event_def completed_event_def delta_event_def)

lemma exit_blind: "blind_monitor (exit_monitor s name) (None, agent)"
  by unfold_locales
    (auto simp: quiet_label_def exit_monitor_def waits_def split: label.splits syscall.splits list.splits)

interpretation exits: run_monitor "exit_monitor s name" "(None, None)" "\<lambda>x. (None, Some x)" s "\<lambda>c. c = name"
  for s name
proof (intro run_monitor.intro run_monitor_axioms.intro exit_blind)
  show "(code, exitCode) \<in> set exit_table \<Longrightarrow> conforms (exit_monitor s name) (fail_run code msg exitCode) (None, None)"
    for code exitCode msg
    using exit_table_map [of code exitCode]
    by (auto simp: prog_defs conforms.simps observe_def exit_monitor_def dest: exit_table_stderr)
  have "map_of exit_table ''WORKSPACE_CREATE_FAILED'' = Some 1" by code_simp
  then show "conforms (exit_monitor s name) (sendError ''WORKSPACE_CREATE_FAILED'' msg (sendCompleted False 1 '''' finish)) (None, None)"
    for msg by (auto simp: prog_defs conforms.simps observe_def exit_monitor_def)
qed (auto simp: prog_defs conforms.simps observe_def exit_monitor_def split: option.split)

subsection \<open>Steps left\<close>

text \<open>The state is the number of operations left; the configuration is assumed to pass at most
  \<open>v\<close> variables through.\<close>

definition budget_monitor :: "nat \<Rightarrow> nat monitor" where
  "budget_monitor v =
     \<lparr>mo_assume = (\<lambda>_ l. case l of LGetConfig cfg \<Rightarrow> length (cfg_EnvPassthrough cfg) \<le> v | _ \<Rightarrow> True),
      mo_check = (\<lambda>n _. 0 < n),
      mo_next = (\<lambda>n _. n - 1),
      mo_final = (\<lambda>_. True)\<rparr>"

lemma budget_observe:
  "observe (budget_monitor v) n l rest
   \<longleftrightarrow> ((case l of LGetConfig cfg \<Rightarrow> length (cfg_EnvPassthrough cfg) \<le> v | _ \<Rightarrow> True) \<longrightarrow> 0 < n \<and> rest (n - 1))"
  by (simp add: observe_def budget_monitor_def)

abbreviation within :: "nat \<Rightarrow> prog \<Rightarrow> nat \<Rightarrow> bool" where
  "within v \<equiv> conforms (budget_monitor v)"

lemma within_Suc: "within v p n \<Longrightarrow> within v p (Suc n)"
proof (induction p arbitrary: n)
  case Halt
  then show ?case by (simp add: conforms.simps budget_monitor_def)
next
  case (Register p)
  then show ?case by (cases n) (auto simp: conforms.simps budget_observe)
next
  case (Unregister p)
  then show ?case by (cases n) (auto simp: conforms.simps budget_observe)
next
  case (Lookup k)
  then show ?case by (cases n) (auto simp: conforms.simps budget_observe)
next
  case (Load k)
  then show ?case by (cases n) (auto simp: conforms.simps budget_observe)
next
  case (Store f p)
  then show ?case by (cases n) (auto simp: conforms.simps budget_observe)
next
  case (TestAndSet k)
  then show ?case by (cases n) (auto simp: conforms.simps budget_observe)
next
  case (CancelCtx p)
  then show ?case by (cases n) (auto simp: conforms.simps budget_observe)
next
  case (GetConfig k)
  then show ?case by (cases n) (auto simp: conforms.simps budget_observe)
next
  case (PutEnv a b c p)
  then show ?case by (cases n) (auto simp: conforms.simps budget_observe)
next
  case (Send e p)
  then show ?case by (cases n) (auto simp: conforms.simps budget_observe)
next
  case (Sys c k)
  then show ?case by (cases n) (auto simp: conforms.simps budget_observe)
qed

lemma within_mono: "within v p m \<Longrightarrow> m \<le> n \<Longrightarrow> within v p n"
  by (induction n) (auto simp: le_Suc_eq intro: within_Suc)

lemma within_calls:
  "0 < n \<Longrightarrow> (\<And>r. within v (k r) (n - 1)) \<Longrightarrow> within v (Sys c k) n"
  "0 < n \<Longrightarrow> (\<And>rs. within v (kl rs) (n - 1)) \<Longrightarrow> within v (Load kl) n"
  "0 < n \<Longrightarrow> (\<And>b. within v (kt b) (n - 1)) \<Longrightarrow> within v (TestAndSet kt) n"
  "0 < n \<Longrightarrow> within v p (n - 1) \<Longrightarrow> within v (Store f p) n"
  "0 < n \<Longrightarrow> within v p (n - 1) \<Longrightarrow> within v (Register p) n"
  "0 < n \<Longrightarrow> within v p (n - 1) \<Longrightarrow> within v (Unregister p) n"
  "0 < n \<Longrightarrow> within v p (n - 1) \<Longrightarrow> within v (PutEnv a b c' p) n"
  "0 < n \<Longrightarrow> within v p (n - 1) \<Longrightarrow> within v (Send e p) n"
  "0 < n \<Longrightarrow> (\<And>cfg. length (cfg_EnvPassthrough cfg) \<le> v \<Longrightarrow> within v (kc cfg) (n - 1)) \<Longrightarrow> within v (GetConfig kc) n"
  by (simp_all add: conforms.simps budget_observe)

lemma within_Halt: "within v Halt n"
  by (simp add: conforms.simps budget_monitor_def)

text \<open>Each piece takes at most so many operations before it goes on.\<close>

lemma within_mono': "within v p (n - m) \<Longrightarrow> m' \<le> m \<Longrightarrow> within v p (n - m')"
  by (erule within_mono) simp

lemma within_commands:
  "0 < n \<Longrightarrow> (\<And>e. within v (k e) (n - 1)) \<Longrightarrow> within v (DockerNetworkCreateInternal nm k) n"
  "0 < n \<Longrightarrow> (\<And>e. within v (k e) (n - 1)) \<Longrightarrow> within v (DockerNetworkRemove nm k) n"
  "0 < n \<Longrightarrow> (\<And>e. within v (k e) (n - 1)) \<Longrightarrow> within v (DockerNetworkConnect nm c k) n"
  "0 < n \<Longrightarrow> (\<And>e. within v (k e) (n - 1)) \<Longrightarrow> within v (DockerRemove c k) n"
  "0 < n \<Longrightarrow> (\<And>e. within v (k e) (n - 1)) \<Longrightarrow> within v (DockerProcess_Stop pr k) n"
  "0 < n \<Longrightarrow> (\<And>e. within v (kw e) (n - 1)) \<Longrightarrow> within v (DockerWait c kw) n"
  unfolding DockerNetworkCreateInternal_def DockerNetworkRemove_def DockerNetworkConnect_def DockerRemove_def
    DockerProcess_Stop_def DockerWait_def Let_def
  using within_mono [of v "k None" "n - 1" n]
  by (auto intro!: within_calls split: option.split)

lemma within_run:
  assumes "3 \<le> n" "\<And>e. within v (k e) (n - 3)"
  shows "within v (DockerRun spec k) n"
proof -
  have "within v (k e) (n - 1)" "within v (k e) (n - 1 - 1 - 1)" for e
    using assms(2) [of e] by (auto intro: within_mono)
  then show ?thesis using assms(1)
    unfolding DockerRun_def Let_def by (auto intro!: within_calls within_commands split: option.split)
qed

lemma within_ends:
  "3 \<le> n \<Longrightarrow> within v (complete_run x) n"
  "4 \<le> n \<Longrightarrow> within v (fail_run c m x) n"
  "2 \<le> n \<Longrightarrow> within v k (n - 1) \<Longrightarrow> within v (unless_aborted k) n"
  "2 \<le> n \<Longrightarrow> within v k (n - 2) \<Longrightarrow> within v (remove_proxy a b k) n"
  unfolding prog_defs remove_proxy_def
  by (auto intro!: within_calls within_commands within_Halt intro: within_mono simp: numeral_2_eq_2)

lemmas within_rules = within_calls within_commands within_run within_ends within_Halt

lemma within_exec: "within v (run_exec key cmd dir env) 10"
  unfolding run_exec_def sendStatus_def by (auto intro!: within_rules split: option.split)

lemma within_docker: "within v (run_docker cfg pol img name mounts env cmd) 13"
  unfolding run_docker_def sendStatus_def Let_def by (auto intro!: within_rules split: sum.split)

lemma within_proxied_agent: "within v (run_proxied_agent cfg pol img name mounts env cmd pr net) 15"
  unfolding run_proxied_agent_def sendStatus_def Let_def by (auto intro!: within_rules split: sum.split)

lemma within_proxied: "within v (run_proxied pol img name dir mounts env cmd) 25"
  unfolding run_proxied_def Let_def
  by (auto intro!: within_rules within_proxied_agent split: sum.split option.split)

lemma within_spec: "within v (run_spec cfg rc key s pol dir sp) 25"
  unfolding run_spec_def Let_def
  by (auto intro!: within_ends within_proxied intro: within_mono [OF within_exec] within_mono [OF within_docker])

lemma within_passthrough:
  "(\<And>env. within v (k env) m) \<Longrightarrow> within v (env_passthrough g n sh xs env k) (length xs + m)"
proof (induction xs arbitrary: env)
  case (Cons x xs)
  have IH: "within v (env_passthrough g n sh xs env k) (length xs + m)" for env
    using Cons.IH Cons.prems by blast
  then have "within v (env_passthrough g n sh xs env k) (Suc (length xs + m))" for env
    by (rule within_Suc)
  with IH show ?case by (auto simp: Let_def intro!: within_calls(7))
qed simp

lemma within_runtime:
  assumes "length (cfg_EnvPassthrough cfg) \<le> v"
  shows "within v (run_runtime g rf cfg s dir req) (v + 25)"
proof -
  have ends: "within v (fail_run c m x) (v + 25)" for c m x by (rule within_ends) simp
  have pass: "within v (env_passthrough g nm sh (cfg_EnvPassthrough cfg) env k) (v + 25)"
    if "\<And>env. within v (k env) 25" for nm sh env k
    using within_passthrough [OF that] by (rule within_mono) (use assms in simp)
  have ends': "within v (fail_run c m x) 25" for c m x by (rule within_ends) simp
  show ?thesis
    unfolding run_runtime_def Let_def
    by (auto intro!: within_spec ends pass ends' split: option.split prod.split sum.split)
qed

lemma within_log_dir: "2 \<le> n \<Longrightarrow> within v p (n - 2) \<Longrightarrow> within v (make_log_dir cfg s w t p) n"
  unfolding make_log_dir_def
  using within_mono [of v p "n - 2" n] within_mono [of v p "n - 2" "n - 1"]
  by (auto intro!: within_calls simp: numeral_2_eq_2 split: option.split)

lemma within_handler: "within v (handleRunRequest g rf t s req) (v + 33)"
proof -
  have "within v (run_runtime g rf cfg s dir req) (v + 25)" if "length (cfg_EnvPassthrough cfg) \<le> v" for cfg dir
    using that by (rule within_runtime)
  then show ?thesis
    unfolding handleRunRequest_def prog_defs Let_def
    by (auto simp: add.commute [of _ v] intro!: within_calls within_log_dir within_Halt split: option.split)
qed

end
