(* ===== verification/WorkerProps.thy ===== *)
theory WorkerProps
  imports WorkerSystem RunMonitors
begin

text \<open>
  The worker's goroutines together. The contract \<open>run_system\<close> says what the interleaving needs of
  the request handler: it conforms to the monitor of the single completion and to the one of the
  run that does not stop silently. From it follow, for every interleaving with cancellations,
  output and lost connections, that a run is completed at most once, and that it is completed
  once nothing is left to do. The handler of the worker satisfies the contract.
\<close>

subsection \<open>The cancellation conforms\<close>

lemma once_load: "(\<And>rs. conforms once_monitor (k rs) ph) \<Longrightarrow> conforms once_monitor (Load k) ph"
  by (simp add: conforms.simps observe_def once_monitor_def)

lemma cancel_pieces:
  "conforms once_monitor k ph \<Longrightarrow> conforms once_monitor (stop_and_remove pr k) ph"
  "conforms once_monitor k ph \<Longrightarrow> conforms once_monitor (kill_logs k) ph"
  "conforms once_monitor k ph \<Longrightarrow> conforms once_monitor (kill_exec k) ph"
  unfolding stop_and_remove_def kill_logs_def kill_exec_def
  by (auto intro!: once_quiet.calls once_quiet.commands once_load split: option.split)

lemma cancel_once: "conforms once_monitor (handleCancel reason) Waiting"
proof -
  have "conforms once_monitor (sendStatus ''cancelled'' reason (sendCompleted False 137 j Halt)) Owner" for j
    by (intro once_quiet.calls) (simp add: conforms.simps sendCompleted_def observe_def once_monitor_def)
  then have "conforms once_monitor
      (kill_logs
        (Load (\<lambda>rs. stop_and_remove (rs_proc rs)
          (Load (\<lambda>rs. stop_and_remove (rs_netProc rs)
            (Load (\<lambda>rs. DockerNetworkRemove (rs_netName rs) (\<lambda>_.
              kill_exec (sendStatus ''cancelled'' reason (sendCompleted False 137 j Halt)))))))))) Owner" for j
    by (intro cancel_pieces once_load once_quiet.commands)
  then show ?thesis
    by (simp add: handleCancel_def conforms.simps observe_def once_monitor_def)
qed

subsection \<open>What an operation changes\<close>

definition completions :: "nat \<Rightarrow> world \<Rightarrow> nat" where
  "completions a w = length (filter (\<lambda>(b, e). b = a \<and> completes e) (w_out w))"

lemma completes_envelope [simp]: "completes (run_envelope cfg s n e) = is_completed e"
  by (simp add: completes_def GetRunEvent_def run_envelope_def is_completed_def)

lemma completions_send:
  "completions b (sendRunEvent a s e w) = completions b w + (if b = a \<and> is_completed e then 1 else 0)"
  by (simp add: completions_def sendRunEvent_def Let_def)

lemma completions_same: "w_out w' = w_out w \<Longrightarrow> completions b w' = completions b w"
  by (simp add: completions_def)

lemma set_field_done [simp]: "rs_done (set_field f rs) = rs_done rs"
  by (cases f) simp_all

lemma perform_facts:
  assumes "perform s a l w = Some (a', w')"
  shows "rs_done (w_heap w' b) \<longleftrightarrow> rs_done (w_heap w b) \<or> (b = a \<and> l = LTestAndSet True)"
    and "completions b w' = completions b w + (if b = a \<and> (\<exists>e. l = LSend e \<and> is_completed e) then 1 else 0)"
    and "l = LTestAndSet c \<Longrightarrow> c \<longleftrightarrow> \<not> rs_done (w_heap w a)"
    and "a' = a \<or> (l = LLookup True \<and> w_runs w s = Some a')"
    and "w_runs w' s' = Some b \<Longrightarrow> b = a \<or> w_runs w s' = Some b"
proof -
  show "rs_done (w_heap w' b) \<longleftrightarrow> rs_done (w_heap w b) \<or> (b = a \<and> l = LTestAndSet True)"
    using assms by (cases l) (auto simp: upd_rs_def sendRunEvent_def Let_def split: option.splits if_splits)
  show "completions b w' = completions b w + (if b = a \<and> (\<exists>e. l = LSend e \<and> is_completed e) then 1 else 0)"
    using assms by (cases l) (auto simp: upd_rs_def completions_def sendRunEvent_def Let_def split: option.splits if_splits)
  show "l = LTestAndSet c \<Longrightarrow> c \<longleftrightarrow> \<not> rs_done (w_heap w a)"
    using assms by (auto split: if_splits)
  show "a' = a \<or> (l = LLookup True \<and> w_runs w s = Some a')"
    using assms by (cases l) (auto split: option.splits if_splits)
  show "w_runs w' s' = Some b \<Longrightarrow> b = a \<or> w_runs w s' = Some b"
    using assms by (cases l) (auto simp: upd_rs_def sendRunEvent_def Let_def split: option.splits if_splits)
qed

lemma perform_ctx:
  assumes "perform s a l w = Some (a', w')"
  shows "rs_ctx (w_heap w b) \<Longrightarrow> rs_ctx (w_heap w' b)"
    and "rs_ctx (w_heap w' b) \<Longrightarrow> rs_ctx (w_heap w b) \<or> (b = a \<and> l = LCancelCtx)"
    and "l = LLoad rs \<Longrightarrow> rs = w_heap w a"
proof -
  have "rs_ctx (set_field f rs) = rs_ctx rs" for f rs by (cases f) simp_all
  then show "rs_ctx (w_heap w b) \<Longrightarrow> rs_ctx (w_heap w' b)"
    "rs_ctx (w_heap w' b) \<Longrightarrow> rs_ctx (w_heap w b) \<or> (b = a \<and> l = LCancelCtx)"
    "l = LLoad rs \<Longrightarrow> rs = w_heap w a"
    using assms
    by (cases l, auto simp: upd_rs_def sendRunEvent_def Let_def split: option.splits if_splits)+
qed

subsection \<open>The invariant\<close>

definition owns :: "phase list \<Rightarrow> system \<Rightarrow> nat \<Rightarrow> nat \<Rightarrow> bool" where
  "owns ph S a i \<longleftrightarrow> i < length ph \<and> ph ! i = Owner \<and> th_rs (sy_threads S ! i) = a"

text \<open>
  The completion of a run that is done is either sent or owned by one goroutine; of a run that
  is not done it is neither.
\<close>

definition settled :: "phase list \<Rightarrow> system \<Rightarrow> nat \<Rightarrow> bool" where
  "settled ph S a \<longleftrightarrow>
     (if rs_done (w_heap (sy_world S) a)
      then ((\<forall>i. \<not> owns ph S a i) \<and> completions a (sy_world S) = 1)
         \<or> ((\<exists>!i. owns ph S a i) \<and> completions a (sy_world S) = 0)
      else (\<forall>i. \<not> owns ph S a i) \<and> completions a (sy_world S) = 0)"

definition thread_ok :: "nat \<Rightarrow> world \<Rightarrow> thread \<Rightarrow> phase \<Rightarrow> bool" where
  "thread_ok n w t ph \<longleftrightarrow>
     conforms once_monitor (th_prog t) ph \<and> th_rs t < n \<and> (ph \<noteq> Waiting \<longrightarrow> rs_done (w_heap w (th_rs t)))"

definition once_state :: "phase list \<Rightarrow> system \<Rightarrow> bool" where
  "once_state ph S \<longleftrightarrow>
     length ph = length (sy_threads S)
     \<and> (\<forall>i < length ph. thread_ok (length ph) (sy_world S) (sy_threads S ! i) (ph ! i))
     \<and> (\<forall>s a. w_runs (sy_world S) s = Some a \<longrightarrow> a < length ph)
     \<and> (\<forall>a \<ge> length ph. \<not> rs_done (w_heap (sy_world S) a) \<and> completions a (sy_world S) = 0)
     \<and> (\<forall>a. settled ph S a)"

lemma thread_ok_world:
  "thread_ok n w t ph \<Longrightarrow> (\<And>b. rs_done (w_heap w b) \<Longrightarrow> rs_done (w_heap w' b)) \<Longrightarrow> thread_ok n w' t ph"
  by (auto simp: thread_ok_def)

lemma settled_cong:
  "rs_done (w_heap (sy_world S') a) = rs_done (w_heap (sy_world S) a)
    \<Longrightarrow> completions a (sy_world S') = completions a (sy_world S)
    \<Longrightarrow> (\<And>i. owns ph' S' a i = owns ph S a i) \<Longrightarrow> settled ph' S' a = settled ph S a"
proof -
  assume "\<And>i. owns ph' S' a i = owns ph S a i"
  then have "owns ph' S' a = owns ph S a" by (rule ext)
  then show "rs_done (w_heap (sy_world S') a) = rs_done (w_heap (sy_world S) a)
    \<Longrightarrow> completions a (sy_world S') = completions a (sy_world S) \<Longrightarrow> settled ph' S' a = settled ph S a"
    by (simp add: settled_def)
qed

text \<open>A new goroutine with a fresh run state.\<close>

lemma once_spawn:
  assumes st: "once_state ph S" and p: "conforms once_monitor p Waiting"
  shows "once_state (ph @ [Waiting]) (spawn s r p S)"
proof -
  let ?n = "length (sy_threads S)" and ?S = "spawn s r p S"
  have n: "length ph = ?n" using st by (simp add: once_state_def)
  have done_eq: "rs_done (w_heap (sy_world ?S) a) = rs_done (w_heap (sy_world S) a)" for a
    using st n by (auto simp: spawn_def Let_def upd_rs_def new_rs_def once_state_def)
  have cnt: "completions a (sy_world ?S) = completions a (sy_world S)" for a
    by (rule completions_same) (simp add: spawn_def Let_def upd_rs_def)
  have runs: "w_runs (sy_world ?S) = w_runs (sy_world S)" by (simp add: spawn_def Let_def upd_rs_def)
  have th: "sy_threads ?S = sy_threads S @ [\<lparr>th_stream = s, th_run = r, th_rs = ?n, th_prog = p\<rparr>]"
    by (simp add: spawn_def Let_def)
  have own: "owns (ph @ [Waiting]) ?S a i = owns ph S a i" for a i
    by (auto simp: owns_def th n nth_append)
  have old: "thread_ok (Suc ?n) (sy_world ?S) (sy_threads S ! i) (ph ! i)" if "i < ?n" for i
  proof -
    have "thread_ok ?n (sy_world S) (sy_threads S ! i) (ph ! i)" using st n that by (simp add: once_state_def)
    then show ?thesis by (simp add: thread_ok_def done_eq)
  qed
  have new: "thread_ok (Suc ?n) (sy_world ?S) \<lparr>th_stream = s, th_run = r, th_rs = ?n, th_prog = p\<rparr> Waiting"
    using p by (simp add: thread_ok_def)
  have "settled (ph @ [Waiting]) ?S a" for a
    using st settled_cong [OF done_eq cnt own] by (simp add: once_state_def)
  moreover have "\<forall>i < Suc ?n. thread_ok (Suc ?n) (sy_world ?S) (sy_threads ?S ! i) ((ph @ [Waiting]) ! i)"
    using old new n by (auto simp: th nth_append less_Suc_eq)
  ultimately show ?thesis
    using st n unfolding once_state_def
    by (auto simp: runs done_eq cnt th dest!: Suc_leD) (meson less_SucI)
qed

subsection \<open>Every step keeps it\<close>

definition reports :: "act \<Rightarrow> RunEvent option" where
  "reports x = (case x of Step i (LSend e) \<Rightarrow> Some e | _ \<Rightarrow> None)"

definition no_workspace_error :: "act list \<Rightarrow> bool" where
  "no_workspace_error xs \<longleftrightarrow>
     list_all (\<lambda>x. case reports x of None \<Rightarrow> True | Some e \<Rightarrow> \<not> workspace_error e) xs"

lemma step_act_cases:
  assumes "act_step handle (Step i l) S = Some S'"
  obtains p a w where "i < length (sy_threads S)"
    "step_prog (th_prog (sy_threads S ! i)) l = Some p"
    "perform (th_stream (sy_threads S ! i)) (th_rs (sy_threads S ! i)) l (sy_world S) = Some (a, w)"
    "sy_world S' = w" "sy_threads S' = (sy_threads S)[i := (sy_threads S ! i)\<lparr>th_rs := a, th_prog := p\<rparr>]"
proof -
  have i: "i < length (sy_threads S)" using assms by (auto split: if_splits)
  with assms obtain p where p: "step_prog (th_prog (sy_threads S ! i)) l = Some p"
    by (auto simp: Let_def split: option.splits)
  with assms i obtain a w where
    "perform (th_stream (sy_threads S ! i)) (th_rs (sy_threads S ! i)) l (sy_world S) = Some (a, w)"
    by (auto simp: Let_def split: option.splits)
  with assms i p show ?thesis by (intro that [of p a w]) (auto simp: Let_def)
qed

text \<open>How the owners of a completion change when one goroutine moves.\<close>

lemma owns_update:
  assumes "sy_threads S' = (sy_threads S)[i := t']" "length ph = length (sy_threads S)" "i < length ph"
  shows "owns (ph[i := x]) S' b j \<longleftrightarrow> (if j = i then x = Owner \<and> th_rs t' = b else owns ph S b j)"
  using assms by (auto simp: owns_def nth_list_update)

text \<open>
  What one goroutine does to the completion of a run: taking it makes the goroutine its owner, sending it ends the
  ownership, and every other operation leaves things as they are. \<open>a\<close> is the run state that the
  goroutine has, \<open>x\<close> its phase.
\<close>

lemma settled_elsewhere:
  assumes "settled ph S b"
    and own: "\<And>j. owns ph' S' b j \<longleftrightarrow> (if j = i then x' = Owner \<and> a' = b else owns ph S b j)"
    and own_i: "owns ph S b i \<longleftrightarrow> x = Owner \<and> a = b"
    and "x' = Owner \<and> a' = b \<longleftrightarrow> x = Owner \<and> a = b"
    and "rs_done (w_heap (sy_world S') b) = rs_done (w_heap (sy_world S) b)"
    and "completions b (sy_world S') = completions b (sy_world S)"
  shows "settled ph' S' b"
proof -
  have "owns ph' S' b j = owns ph S b j" for j using own [of j] own_i assms(4) by (cases "j = i") simp_all
  then show ?thesis using settled_cong assms(1,5,6) by blast
qed

lemma settled_take:
  assumes "settled ph S a" "\<not> rs_done (w_heap (sy_world S) a)"
    and own: "\<And>j. owns ph' S' a j \<longleftrightarrow> j = i \<or> owns ph S a j"
    and "rs_done (w_heap (sy_world S') a)" "completions a (sy_world S') = completions a (sy_world S)"
  shows "settled ph' S' a"
proof -
  have "\<not> owns ph S a j" "completions a (sy_world S) = 0" for j using assms(1,2) by (simp_all add: settled_def)
  then show ?thesis using assms(4,5) own unfolding settled_def by auto
qed

lemma settled_send:
  assumes "settled ph S a" "owns ph S a i" "rs_done (w_heap (sy_world S) a)"
    and own: "\<And>j. owns ph' S' a j \<longleftrightarrow> j \<noteq> i \<and> owns ph S a j"
    and "rs_done (w_heap (sy_world S') a)" "completions a (sy_world S') = Suc (completions a (sy_world S))"
  shows "settled ph' S' a"
proof -
  have u: "\<exists>!j. owns ph S a j" "completions a (sy_world S) = 0" using assms(1-3) by (auto simp: settled_def)
  then have "\<not> owns ph' S' a j" for j using own assms(2) by blast
  then show ?thesis using assms(5,6) u(2) by (simp add: settled_def)
qed

lemma settled_step:
  assumes sett: "\<And>b. settled ph S b"
    and own: "\<And>b j. owns ph' S' b j \<longleftrightarrow> (if j = i then x' = Owner \<and> a' = b else owns ph S b j)"
    and own_i: "\<And>b. owns ph S b i \<longleftrightarrow> x = Owner \<and> a = b"
    and check: "mo_check once_monitor x l" and x': "x' = mo_next once_monitor x l"
    and same: "x' \<noteq> Waiting \<Longrightarrow> a' = a"
    and phase: "x \<noteq> Waiting \<Longrightarrow> rs_done (w_heap (sy_world S) a)"
    and fin: "\<And>b. rs_done (w_heap (sy_world S') b) \<longleftrightarrow> rs_done (w_heap (sy_world S) b) \<or> (b = a \<and> l = LTestAndSet True)"
    and cnt: "\<And>b. completions b (sy_world S')
      = completions b (sy_world S) + (if b = a \<and> (\<exists>e. l = LSend e \<and> is_completed e) then 1 else 0)"
    and test: "l = LTestAndSet True \<Longrightarrow> \<not> rs_done (w_heap (sy_world S) a)"
  shows "settled ph' S' b"
proof (cases "b = a \<and> (l = LTestAndSet True \<or> (\<exists>e. l = LSend e \<and> is_completed e))")
  case False
  then have "x' = Owner \<and> a' = b \<longleftrightarrow> x = Owner \<and> a = b"
    using same x' by (auto simp: once_monitor_def split: label.splits if_splits)
  with False show ?thesis
    by (intro settled_elsewhere [OF sett own own_i]) (auto simp: fin cnt)
next
  case True
  then consider "l = LTestAndSet True" | e where "l = LSend e" "is_completed e" by blast
  then have "settled ph' S' a"
  proof cases
    case 1
    then have "x' = Owner" "a' = a" using x' same test phase by (auto simp: once_monitor_def)
    with 1 show ?thesis by (intro settled_take [OF sett test, of _ _ i]) (auto simp: own fin cnt)
  next
    case 2
    then have "x = Owner" "x' = Finished" using check x' by (simp_all add: once_monitor_def)
    with 2 show ?thesis using phase own_i by (intro settled_send [OF sett, of _ i]) (auto simp: own fin cnt)
  qed
  then show ?thesis using True by simp
qed

lemma once_step:
  assumes st: "once_state ph S" and ok: "act_step handle (Step i l) S = Some S'"
    and nowe: "\<And>e. l = LSend e \<Longrightarrow> \<not> workspace_error e"
  shows "once_state (ph[i := mo_next once_monitor (ph ! i) l]) S'"
proof -
  obtain p a' w' where i: "i < length (sy_threads S)"
    and p: "step_prog (th_prog (sy_threads S ! i)) l = Some p"
    and perf: "perform (th_stream (sy_threads S ! i)) (th_rs (sy_threads S ! i)) l (sy_world S) = Some (a', w')"
    and S': "sy_world S' = w'" "sy_threads S' = (sy_threads S)[i := (sy_threads S ! i)\<lparr>th_rs := a', th_prog := p\<rparr>]"
    using ok by (rule step_act_cases) blast
  define t where "t = sy_threads S ! i"
  define a where "a = th_rs t"
  define x where "x = ph ! i"
  define x' where "x' = mo_next once_monitor x l"
  have n: "length ph = length (sy_threads S)" using st by (simp add: once_state_def)
  have t: "thread_ok (length ph) (sy_world S) t x"
    using st i [folded n] unfolding once_state_def t_def x_def by blast
  have sett: "settled ph S b" for b using st by (simp add: once_state_def)
  note pf = perform_facts [OF perf, folded t_def, folded a_def]
  have admitted: "mo_assume once_monitor x l"
  proof (cases l)
    case (LTestAndSet c)
    with pf(3) t show ?thesis by (auto simp: once_monitor_def thread_ok_def a_def)
  qed (use nowe in \<open>auto simp: once_monitor_def\<close>)
  have checks: "mo_check once_monitor x l" "conforms once_monitor p x'"
    using conforms_step [OF _ p [folded t_def] admitted] t by (auto simp: thread_ok_def x'_def)
  have done_mono: "rs_done (w_heap (sy_world S) b) \<Longrightarrow> rs_done (w_heap w' b)" for b
    using pf(1) by blast
  have a'_same: "a' = a" if "x' \<noteq> Waiting"
    using pf(4) checks(1) that by (auto simp: once_monitor_def x'_def)
  have x'_done: "rs_done (w_heap w' a)" if "x' \<noteq> Waiting"
  proof (cases "x = Waiting")
    case True
    with that checks(1) have "l = LTestAndSet True"
      by (auto simp: once_monitor_def x'_def split: label.splits if_splits)
    then show ?thesis using pf(1) by simp
  next
    case False
    with t show ?thesis by (auto simp: thread_ok_def a_def intro: done_mono)
  qed
  have a'_lt: "a' < length ph" using pf(4) t st by (auto simp: thread_ok_def a_def once_state_def)
  have own: "owns (ph[i := x']) S' b j \<longleftrightarrow> (if j = i then x' = Owner \<and> a' = b else owns ph S b j)" for b j
    using owns_update [OF S'(2) n] i n by simp
  have own_i: "owns ph S b i \<longleftrightarrow> x = Owner \<and> a = b" for b
    using i n by (simp add: owns_def x_def a_def t_def)
  have settled': "settled (ph[i := x']) S' b" for b
    using settled_step [OF sett own own_i checks(1) x'_def a'_same] pf(1-3) t S'(1)
    by (simp add: thread_ok_def a_def)
  have threads: "thread_ok (length ph) w' (sy_threads S' ! j) (ph[i := x'] ! j)" if "j < length ph" for j
  proof (cases "j = i")
    case True
    then show ?thesis
      using checks(2) a'_lt x'_done a'_same i n by (auto simp: S'(2) thread_ok_def t_def)
  next
    case False
    then show ?thesis
      using st that thread_ok_world [OF _ done_mono] by (auto simp: S'(2) once_state_def)
  qed
  have far: "b \<noteq> a" if "b \<ge> length ph" for b using t that by (auto simp: thread_ok_def a_def)
  have runs': "b < length ph" if "w_runs w' s = Some b" for s b
    using pf(5) [OF that] st t by (auto simp: once_state_def thread_ok_def a_def)
  have fresh: "\<not> rs_done (w_heap w' b) \<and> completions b w' = 0" if "length ph \<le> b" for b
    using pf(1,2) [of b] far [OF that] st that by (auto simp: once_state_def)
  have len: "length (ph[i := x']) = length (sy_threads S')" "length (ph[i := x']) = length ph"
    using n by (simp_all add: S'(2))
  show ?thesis
    unfolding x_def [symmetric] x'_def [symmetric] once_state_def len(2)
    using len threads settled' runs' fresh by (auto simp: S'(1))
qed

text \<open>Without a lost connection a context is cancelled only after its run is done.\<close>

definition cancel_state :: "system \<Rightarrow> bool" where
  "cancel_state S \<longleftrightarrow> (\<forall>a. rs_ctx (w_heap (sy_world S) a) \<longrightarrow> rs_done (w_heap (sy_world S) a))"

lemma cancel_step:
  assumes st: "once_state ph S" and cs: "cancel_state S" and ok: "act_step handle (Step i l) S = Some S'"
  shows "cancel_state S'"
proof -
  obtain p a' w' where i: "i < length (sy_threads S)"
    and p: "step_prog (th_prog (sy_threads S ! i)) l = Some p"
    and perf: "perform (th_stream (sy_threads S ! i)) (th_rs (sy_threads S ! i)) l (sy_world S) = Some (a', w')"
    and S': "sy_world S' = w'"
    using ok by (rule step_act_cases) blast
  have n: "length ph = length (sy_threads S)" using st by (simp add: once_state_def)
  have t: "thread_ok (length ph) (sy_world S) (sy_threads S ! i) (ph ! i)"
    using st i [folded n] unfolding once_state_def by blast
  have "rs_done (w_heap (sy_world S) (th_rs (sy_threads S ! i)))" if "l = LCancelCtx"
  proof -
    have "conforms once_monitor (th_prog (sy_threads S ! i)) (ph ! i)" using t by (simp add: thread_ok_def)
    moreover have "mo_assume once_monitor (ph ! i) l" using that by (simp add: once_monitor_def)
    ultimately have "mo_check once_monitor (ph ! i) l" using conforms_step [OF _ p, of once_monitor "ph ! i"] by blast
    then show ?thesis using t that by (auto simp: once_monitor_def thread_ok_def)
  qed
  then show ?thesis
    using cs perform_ctx(2) [OF perf] perform_facts(1) [OF perf] by (auto simp: cancel_state_def S')
qed

text \<open>A run that is neither done nor cancelled still has its goroutine on the way to the completion.\<close>

definition answer_state :: "system \<Rightarrow> bool" where
  "answer_state S \<longleftrightarrow>
     (\<forall>a < length (sy_threads S). th_run (sy_threads S ! a) \<longrightarrow>
        aborted (w_heap (sy_world S) a)
        \<or> (th_rs (sy_threads S ! a) = a \<and> conforms answer_monitor (th_prog (sy_threads S ! a)) False))"

lemma answer_step:
  assumes st: "answer_state S" and ok: "act_step handle (Step i l) S = Some S'"
    and nowe: "\<And>e. l = LSend e \<Longrightarrow> \<not> workspace_error e"
  shows "answer_state S'"
proof -
  obtain p a' w' where i: "i < length (sy_threads S)"
    and p: "step_prog (th_prog (sy_threads S ! i)) l = Some p"
    and perf: "perform (th_stream (sy_threads S ! i)) (th_rs (sy_threads S ! i)) l (sy_world S) = Some (a', w')"
    and S': "sy_world S' = w'" "sy_threads S' = (sy_threads S)[i := (sy_threads S ! i)\<lparr>th_rs := a', th_prog := p\<rparr>]"
    using ok by (rule step_act_cases) blast
  have keep: "aborted (w_heap (sy_world S) b) \<Longrightarrow> aborted (w_heap w' b)" for b
    using perform_facts(1) [OF perf] perform_ctx(1) [OF perf] by (auto simp: aborted_def)
  have moved: "aborted (w_heap w' i) \<or> (a' = i \<and> conforms answer_monitor p False)"
    if "\<not> aborted (w_heap (sy_world S) i)" "th_rs (sy_threads S ! i) = i"
      "conforms answer_monitor (th_prog (sy_threads S ! i)) False"
  proof (cases "\<exists>c. l = LTestAndSet c")
    case True
    then obtain c where l: "l = LTestAndSet c" by blast
    then have "c" using perform_facts(3) [OF perf l] that by (auto simp: aborted_def)
    then show ?thesis using perform_facts(1) [OF perf] l that(2) by (auto simp: aborted_def)
  next
    case False
    have "mo_assume answer_monitor False l"
      using perform_ctx(3) [OF perf] that(1,2) nowe by (cases l) (auto simp: answer_monitor_def)
    from conforms_step [OF that(3) p this]
    have *: "mo_check answer_monitor False l" "conforms answer_monitor p (mo_next answer_monitor False l)" by auto
    have "mo_next answer_monitor False l = False"
      using False by (cases l) (auto simp: answer_monitor_def)
    then have "conforms answer_monitor p False" using *(2) by simp
    moreover have "a' = i"
      using perform_facts(4) [OF perf] *(1) that(2) by (auto simp: answer_monitor_def)
    ultimately show ?thesis by blast
  qed
  show ?thesis
    unfolding answer_state_def
  proof (intro allI impI)
    fix a assume a: "a < length (sy_threads S')" "th_run (sy_threads S' ! a)"
    then have old: "aborted (w_heap (sy_world S) a) \<or>
        (th_rs (sy_threads S ! a) = a \<and> conforms answer_monitor (th_prog (sy_threads S ! a)) False)"
      using st i by (auto simp: answer_state_def S'(2) nth_list_update split: if_splits)
    show "aborted (w_heap (sy_world S') a)
        \<or> (th_rs (sy_threads S' ! a) = a \<and> conforms answer_monitor (th_prog (sy_threads S' ! a)) False)"
      using old keep [of a] moved i by (cases "a = i") (auto simp: S' nth_list_update)
  qed
qed

lemma spawn_simps:
  "length (sy_threads (spawn s r p S)) = Suc (length (sy_threads S))"
  "a < length (sy_threads S) \<Longrightarrow> sy_threads (spawn s r p S) ! a = sy_threads S ! a"
  "sy_threads (spawn s r p S) ! length (sy_threads S)
    = \<lparr>th_stream = s, th_run = r, th_rs = length (sy_threads S), th_prog = p\<rparr>"
  "w_heap (sy_world (spawn s r p S)) a = (if a = length (sy_threads S) then new_rs s else w_heap (sy_world S) a)"
  by (simp_all add: spawn_def Let_def upd_rs_def nth_append)

lemma answer_spawn:
  "answer_state S \<Longrightarrow> (r \<Longrightarrow> conforms answer_monitor p False) \<Longrightarrow> answer_state (spawn s r p S)"
  unfolding answer_state_def by (auto simp: spawn_simps less_Suc_eq)

lemma cancel_spawn: "cancel_state S \<Longrightarrow> cancel_state (spawn s r p S)"
  by (auto simp: cancel_state_def spawn_simps new_rs_def)

text \<open>Output and the loss of the connection touch neither the flags nor the completions.\<close>

lemma once_quiet_world:
  assumes "once_state ph S" and "\<And>a. rs_done (w_heap w a) = rs_done (w_heap (sy_world S) a)"
    and "\<And>a. completions a w = completions a (sy_world S)" and "w_runs w = w_runs (sy_world S)"
  shows "once_state ph (S\<lparr>sy_world := w\<rparr>)"
proof -
  have "settled ph (S\<lparr>sy_world := w\<rparr>) a = settled ph S a" for a
    using assms by (intro settled_cong) (auto simp: owns_def)
  moreover have "thread_ok n w t x = thread_ok n (sy_world S) t x" for n t x
    by (simp add: thread_ok_def assms(2))
  ultimately show ?thesis using assms(1) unfolding once_state_def by (auto simp: assms(2-4))
qed

lemma agent_line_facts:
  assumes "agent_line a isErr line w = Some w'"
  shows "w_heap w' = w_heap w" "w_runs w' = w_runs w" "completions b w' = completions b w"
  using assms by (auto simp: agent_line_def Let_def completions_send sendRunEvent_def completions_def
      split: if_splits)

subsection \<open>All interleavings\<close>

locale run_system =
  fixes handle :: "string \<Rightarrow> RunRequest \<Rightarrow> prog"
  assumes handle_once: "conforms once_monitor (handle s req) Waiting"
    and handle_answers: "conforms answer_monitor (handle s req) False"
begin

definition quiet_act :: "act \<Rightarrow> bool" where
  "quiet_act x \<longleftrightarrow> (\<forall>i e. x = Step i (LSend e) \<longrightarrow> \<not> workspace_error e)"

lemma step_once:
  assumes "once_state ph S" "act_step handle x S = Some S'" "quiet_act x"
  shows "\<exists>ph'. once_state ph' S'"
proof (cases x)
  case (Step i l)
  then show ?thesis using once_step [of ph S handle i l S'] assms by (auto simp: quiet_act_def)
next
  case (AgentLine a isErr line)
  with assms(2) obtain w where w: "agent_line a isErr line (sy_world S) = Some w" "S' = S\<lparr>sy_world := w\<rparr>" by auto
  have "once_state ph (S\<lparr>sy_world := w\<rparr>)"
    by (rule once_quiet_world [OF assms(1)]) (simp_all add: agent_line_facts [OF w(1)])
  then show ?thesis using w(2) by blast
next
  case ConnLost
  have "once_state ph (S\<lparr>sy_world := (sy_world S)
      \<lparr>w_heap := (\<lambda>a. (w_heap (sy_world S) a)\<lparr>rs_ctx := True\<rparr>)\<rparr>\<rparr>)"
    by (rule once_quiet_world [OF assms(1)]) (simp_all add: completions_def)
  with assms(2) ConnLost show ?thesis by auto
next
  case (RecvRun s req)
  with assms(2) have "S' = spawn s True (handle s req) S" by simp
  with once_spawn [OF assms(1) handle_once] show ?thesis by blast
next
  case (RecvCancel s reason)
  with assms(2) have "S' = spawn s False (handleCancel reason) S" by simp
  with once_spawn [OF assms(1) cancel_once] show ?thesis by blast
qed

lemma step_answers:
  assumes "answer_state S" "act_step handle x S = Some S'" "quiet_act x"
  shows "answer_state S'"
proof (cases x)
  case (Step i l)
  then show ?thesis using answer_step [of S handle i l S'] assms by (auto simp: quiet_act_def)
next
  case (AgentLine a isErr line)
  with assms show ?thesis using agent_line_facts(1) by (auto simp: answer_state_def)
next
  case ConnLost
  with assms show ?thesis by (auto simp: answer_state_def aborted_def)
qed (use assms answer_spawn handle_answers in auto)

lemma step_cancel:
  assumes "once_state ph S" "cancel_state S" "act_step handle x S = Some S'" "x \<noteq> ConnLost"
  shows "cancel_state S'"
proof (cases x)
  case (Step i l)
  then show ?thesis using cancel_step assms by blast
next
  case (AgentLine a isErr line)
  with assms show ?thesis using agent_line_facts(1) by (auto simp: cancel_state_def)
qed (use assms cancel_spawn in auto)

lemma run_states:
  assumes "acts_run handle xs S = Some S'" "list_all quiet_act xs" "\<exists>ph. once_state ph S" "answer_state S"
  shows "(\<exists>ph. once_state ph S') \<and> answer_state S'"
  using assms
proof (induction xs arbitrary: S)
  case (Cons x xs)
  then obtain S1 where s: "act_step handle x S = Some S1" "acts_run handle xs S1 = Some S'"
    by (auto split: option.splits)
  with Cons.prems have "\<exists>ph. once_state ph S1" "answer_state S1"
    using step_once step_answers by auto
  with Cons s show ?case by auto
qed simp

lemma run_cancel:
  assumes "acts_run handle xs S = Some S'" "list_all quiet_act xs" "ConnLost \<notin> set xs"
    "\<exists>ph. once_state ph S" "cancel_state S"
  shows "cancel_state S'"
  using assms
proof (induction xs arbitrary: S)
  case (Cons x xs)
  then obtain S1 where s: "act_step handle x S = Some S1" "acts_run handle xs S1 = Some S'"
    by (auto split: option.splits)
  from Cons.prems obtain ph where ph: "once_state ph S" by blast
  have "quiet_act x" "x \<noteq> ConnLost" using Cons.prems by auto
  then have "\<exists>ph. once_state ph S1" "cancel_state S1"
    using step_once [OF ph s(1)] step_cancel [OF ph _ s(1)] Cons.prems by blast+
  with Cons s show ?case by auto
qed simp

lemma start_states:
  "once_state [] (start_system cfg)" "answer_state (start_system cfg)" "cancel_state (start_system cfg)"
  by (simp_all add: once_state_def answer_state_def cancel_state_def start_system_def settled_def owns_def
      new_rs_def completions_def)

lemma no_workspace_quiet: "no_workspace_error xs \<Longrightarrow> list_all quiet_act xs"
  by (auto simp: no_workspace_error_def quiet_act_def reports_def list_all_iff split: option.splits act.splits)

lemma at_most_once:
  assumes "acts_run handle xs (start_system cfg) = Some S" "no_workspace_error xs"
  shows "completions a (sy_world S) \<le> 1"
proof -
  obtain ph where "once_state ph S"
    using run_states [OF assms(1) no_workspace_quiet [OF assms(2)]] start_states by blast
  then have "settled ph S a" by (simp add: once_state_def)
  then show ?thesis by (auto simp: settled_def split: if_splits)
qed

lemma exactly_once_at_rest:
  assumes "acts_run handle xs (start_system cfg) = Some S" "no_workspace_error xs" "ConnLost \<notin> set xs"
    and rest: "\<forall>t \<in> set (sy_threads S). th_prog t = Halt"
    and a: "a < length (sy_threads S)" "th_run (sy_threads S ! a)"
  shows "completions a (sy_world S) = 1"
proof -
  obtain ph where ph: "once_state ph S" and an: "answer_state S"
    using run_states [OF assms(1) no_workspace_quiet [OF assms(2)]] start_states by blast
  have cs: "cancel_state S"
    using run_cancel [OF assms(1) no_workspace_quiet [OF assms(2)] assms(3)] start_states by blast
  have "th_prog (sy_threads S ! a) = Halt" using rest a(1) by simp
  then have "\<not> conforms answer_monitor (th_prog (sy_threads S ! a)) False"
    by (simp add: conforms.simps answer_monitor_def)
  then have "aborted (w_heap (sy_world S) a)" using an a by (auto simp: answer_state_def)
  then have d: "rs_done (w_heap (sy_world S) a)" using cs by (auto simp: aborted_def cancel_state_def)
  have "\<not> owns ph S a i" for i
  proof
    assume o: "owns ph S a i"
    then have i: "i < length ph" "ph ! i = Owner" by (auto simp: owns_def)
    then have "conforms once_monitor (th_prog (sy_threads S ! i)) Owner" "th_prog (sy_threads S ! i) = Halt"
      using ph rest by (auto simp: once_state_def thread_ok_def)
    then show False by (simp add: conforms.simps once_monitor_def)
  qed
  moreover have "settled ph S a" using ph by (simp add: once_state_def)
  ultimately show ?thesis using d by (auto simp: settled_def)
qed

end

interpretation worker: run_system "handleRunRequest getenv readFile startedAt" for getenv readFile startedAt
  by unfold_locales (rule once.handler, rule answer.handler)

subsection \<open>Runs are completed once\<close>

text \<open>C6: As long as no run reports that its workspace could not be created, at most one completion is
  sent for a run, however the goroutines of runs and cancellations, the agents' output and losses of
  the connection are interleaved. (A run that reports it may be completed twice, as is shown below.)\<close>

theorem run_completed_at_most_once:
  assumes "acts_run (handleRunRequest getenv readFile startedAt) xs (start_system cfg) = Some S"
    and "no_workspace_error xs"
  shows "completions a (sy_world S) \<le> 1"
  using assms by (rule worker.at_most_once)

text \<open>C7: While the connection stands, and as long as no run reports that its workspace could not be created,
  once every goroutine has ended each run has been completed exactly once, by itself or by its
  cancellation: no run is forgotten.\<close>

theorem run_completed_exactly_once:
  assumes "acts_run (handleRunRequest getenv readFile startedAt) xs (start_system cfg) = Some S"
    and "no_workspace_error xs" and "ConnLost \<notin> set xs"
    and "\<forall>t \<in> set (sy_threads S). th_prog t = Halt"
    and "a < length (sy_threads S)" and "th_run (sy_threads S ! a)"
  shows "completions a (sy_world S) = 1"
  using assms by (rule worker.exactly_once_at_rest)

text \<open>A run of a worker without runtimes, and a cancellation that comes too late.\<close>

definition demo_config :: Config where
  "demo_config = empty_config\<lparr>cfg_WorkerID := ''w1'', cfg_WorkspaceRoot := ''/ws''\<rparr>"

definition demo_request :: RunRequest where
  "demo_request = \<lparr>rr_SessionId = ''s'', rr_Runtime = RUNTIME_OPENCODE, rr_Workspace = None, rr_Input = None,
     rr_Policy = None, rr_SecretsRef = ''''\<rparr>"

definition fine :: reply where
  "fine = \<lparr>rp_err = None, rp_out = '''', rp_code = 0\<rparr>"

definition demo_run_labels :: "label list" where
  "demo_run_labels =
     [LRegister, LLoad (new_rs ''r1''), LSend (status_event ''starting'' ''''), LGetConfig demo_config,
      LSys (MkdirAll ''/ws/r1'') fine, LSys (WriteFile ''/ws/r1/.nano-workspace.json'' (RunMeta ''r1'' ''r1'')) fine,
      LSend (error_event ''RUNTIME_NOT_CONFIGURED'' ''runtime=opencode''), LTestAndSet True,
      LSend (completed_event False 2 ''''), LUnregister]"

definition demo_acts :: "act list" where
  "demo_acts = [RecvRun ''r1'' demo_request] @ map (Step 0) demo_run_labels
     @ [RecvCancel ''r1'' ''late'', Step 1 (LLookup False)]"

definition demo_handler :: "string \<Rightarrow> RunRequest \<Rightarrow> prog" where
  "demo_handler = handleRunRequest (\<lambda>_. '''') (\<lambda>_. EnvMissing) ''t''"

definition halted :: "prog \<Rightarrow> bool" where
  "halted p = (case p of Halt \<Rightarrow> True | _ \<Rightarrow> False)"

lemma demo_acts_run:
  "(case acts_run demo_handler demo_acts (start_system demo_config) of None \<Rightarrow> False
    | Some S \<Rightarrow> list_all (\<lambda>t. halted (th_prog t)) (sy_threads S) \<and> length (sy_threads S) = 2
        \<and> th_run (sy_threads S ! 0) \<and> completions 0 (sy_world S) = 1)"
  by code_simp

lemma demo_reached:
  obtains S where "acts_run demo_handler demo_acts (start_system demo_config) = Some S"
    "\<forall>t \<in> set (sy_threads S). th_prog t = Halt" "0 < length (sy_threads S)" "th_run (sy_threads S ! 0)"
proof (cases "acts_run demo_handler demo_acts (start_system demo_config)")
  case None
  with demo_acts_run show ?thesis by simp
next
  case (Some S)
  have "halted p \<longleftrightarrow> p = Halt" for p by (cases p) (simp_all add: halted_def)
  with demo_acts_run Some that [of S] show ?thesis by (auto simp: list_all_iff)
qed

lemma demo_acts_ok: "no_workspace_error demo_acts" "ConnLost \<notin> set demo_acts"
  by (auto simp: demo_acts_def demo_run_labels_def no_workspace_error_def reports_def)

lemma run_completed_at_most_once_witness:
  "\<exists>S. acts_run demo_handler demo_acts (start_system demo_config) = Some S \<and> completions 0 (sy_world S) \<le> 1"
proof -
  obtain S where S: "acts_run demo_handler demo_acts (start_system demo_config) = Some S"
    by (rule demo_reached)
  have "completions 0 (sy_world S) \<le> 1"
    using run_completed_at_most_once [OF S [unfolded demo_handler_def] demo_acts_ok(1)] .
  with S show ?thesis by blast
qed

lemma run_completed_exactly_once_witness:
  "\<exists>S. acts_run demo_handler demo_acts (start_system demo_config) = Some S \<and> completions 0 (sy_world S) = 1"
proof -
  obtain S where S: "acts_run demo_handler demo_acts (start_system demo_config) = Some S"
    "\<forall>t \<in> set (sy_threads S). th_prog t = Halt" "0 < length (sy_threads S)" "th_run (sy_threads S ! 0)"
    by (rule demo_reached)
  have "completions 0 (sy_world S) = 1"
    using run_completed_exactly_once [OF S(1) [unfolded demo_handler_def] demo_acts_ok S(2-4)] .
  with S show ?thesis by blast
qed

text \<open>
  The exception: a run whose workspace cannot be created sends its completion without the test on
  the flag, and a cancellation between its error and its completion sends another.
\<close>

definition cancelled_rs :: "string \<Rightarrow> runState" where
  "cancelled_rs s = (new_rs s)\<lparr>rs_done := True, rs_ctx := True\<rparr>"

definition double_acts :: "Config \<Rightarrow> string \<Rightarrow> RunRequest \<Rightarrow> string \<Rightarrow> string \<Rightarrow> act list" where
  "double_acts cfg s req e reason =
     [RecvRun s req] @ map (Step 0)
       [LRegister, LLoad (new_rs s), LSend (status_event ''starting'' ''''), LGetConfig cfg,
        LSys (MkdirAll (workspace_dir cfg req s)) \<lparr>rp_err = Some e, rp_out = '''', rp_code = 0\<rparr>,
        LSend (error_event ''WORKSPACE_CREATE_FAILED'' e)]
     @ [RecvCancel s reason] @ map (Step 1)
       ([LLookup True, LTestAndSet True, LCancelCtx] @ replicate 5 (LLoad (cancelled_rs s))
        @ [LSend (status_event ''cancelled'' reason),
           LSend (completed_event False 137
             (''{'' @ in_quotes ''reason'' @ '':'' @ in_quotes ''cancelled'' @ ''}''))])
     @ map (Step 0) [LSend (completed_event False 1 ''''), LUnregister]"

lemma run_envelope_stream [simp]: "env_StreamId (run_envelope cfg s n e) = s"
  by (simp add: run_envelope_def)

text \<open>C38: A run whose workspace cannot be created can be completed twice: its cancellation reports
  exit code 137, and the run reports exit code 1 after it, with the same stream.\<close>

theorem workspace_failure_completes_twice:
  "\<exists>S. acts_run (handleRunRequest getenv readFile startedAt) (double_acts cfg s req e reason) (start_system cfg)
         = Some S
     \<and> map (\<lambda>(a, env). (a, env_StreamId env)) (filter (\<lambda>(a, env). completes env) (w_out (sy_world S)))
         = [(0, s), (0, s)]
     \<and> completions 0 (sy_world S) = 2"
  by (simp add: double_acts_def handleRunRequest_def prog_defs spawn_def start_system_def upd_rs_def Let_def
      aborted_def new_rs_def cancelled_rs_def handleCancel_def kill_logs_def kill_exec_def stop_and_remove_def
      DockerNetworkRemove_def sendRunEvent_def completions_def numeral_eq_Suc)

subsection \<open>Runs end\<close>

interpretation steps_left: monitored "budget_monitor v" "handleRunRequest getenv readFile startedAt s req" "v + 33"
  for v getenv readFile startedAt s req
  by unfold_locales (rule within_handler)

lemma budget_checked: "checked (budget_monitor v) n ls \<Longrightarrow> length ls \<le> n"
proof (induction ls arbitrary: n)
  case (Cons l ls)
  then have "0 < n" "length ls \<le> n - 1" by (simp_all add: budget_monitor_def)
  then show ?case by simp
qed simp

lemma budget_assumed:
  "(\<And>cfg. LGetConfig cfg \<in> set ls \<Longrightarrow> length (cfg_EnvPassthrough cfg) \<le> v) \<Longrightarrow> assumed (budget_monitor v) n ls"
  by (induction ls arbitrary: n) (auto simp: budget_monitor_def split: label.split)

text \<open>A goroutine that has not ended can always take a step, whatever the replies it gets.\<close>

lemma can_step:
  assumes "p \<noteq> Halt"
  shows "\<exists>l p' a' w'. step_prog p l = Some p' \<and> perform s a l w = Some (a', w')"
proof (cases p)
  case (Lookup k)
  show ?thesis
  proof (cases "w_runs w s")
    case None
    with Lookup show ?thesis by (intro exI [of _ "LLookup False"]) simp
  next
    case (Some a')
    with Lookup show ?thesis by (intro exI [of _ "LLookup True"]) simp
  qed
next
  case (Load k)
  then show ?thesis by (intro exI [of _ "LLoad (w_heap w a)"]) simp
next
  case (TestAndSet k)
  then show ?thesis by (intro exI [of _ "LTestAndSet (\<not> rs_done (w_heap w a))"]) simp
next
  case (GetConfig k)
  then show ?thesis by (intro exI [of _ "LGetConfig (w_cfg w)"]) simp
next
  case (Sys c k)
  then show ?thesis by (intro exI [of _ "LSys c fine"]) simp
next
  case (Register k)
  then show ?thesis by (intro exI [of _ "LRegister"]) simp
next
  case (Unregister k)
  then show ?thesis by (intro exI [of _ "LUnregister"]) simp
next
  case (Store f k)
  then show ?thesis by (intro exI [of _ "LStore f"]) simp
next
  case (CancelCtx k)
  then show ?thesis by (intro exI [of _ "LCancelCtx"]) simp
next
  case (PutEnv r n v k)
  then show ?thesis by (intro exI [of _ "LPutEnv r n v"]) simp
next
  case (Send e k)
  then show ?thesis by (intro exI [of _ "LSend e"]) simp
qed (use assms in simp)

text \<open>C8: Every run ends: whatever docker and the operating system reply and whatever else happens, its
  goroutine takes at most 33 operations and one for each variable passed through, and until it has
  ended it can take its next operation in every state of the worker.\<close>

theorem run_terminates:
  assumes "after_steps (handleRunRequest getenv readFile startedAt s req) ls = Some p"
    and "\<And>cfg. LGetConfig cfg \<in> set ls \<Longrightarrow> length (cfg_EnvPassthrough cfg) \<le> v"
  shows "length ls \<le> v + 33
     \<and> (p = Halt \<or> (\<forall>a w. \<exists>l p' a' w'. step_prog p l = Some p' \<and> perform s a l w = Some (a', w')))"
  using budget_checked [OF steps_left.run_checked [OF assms(1) budget_assumed [OF assms(2)]]] can_step
  by blast

lemma demo_labels_run: "\<exists>p. after_steps (demo_handler ''r1'' demo_request) demo_run_labels = Some p"
proof -
  have "\<not> Option.is_none (after_steps (demo_handler ''r1'' demo_request) demo_run_labels)" by code_simp
  then show ?thesis by (auto simp: Option.is_none_def)
qed

lemma run_terminates_witness:
  "length demo_run_labels \<le> 33 \<and> (\<exists>p. after_steps (demo_handler ''r1'' demo_request) demo_run_labels = Some p)"
proof -
  obtain p where p: "after_steps (demo_handler ''r1'' demo_request) demo_run_labels = Some p"
    using demo_labels_run by blast
  have "LGetConfig cfg \<in> set demo_run_labels \<Longrightarrow> length (cfg_EnvPassthrough cfg) \<le> 0" for cfg
    by (auto simp: demo_run_labels_def demo_config_def empty_config_def)
  from run_terminates [OF p [unfolded demo_handler_def] this] p show ?thesis by auto
qed

subsection \<open>Errors and exit codes\<close>

text \<open>The code of the last error sent.\<close>

fun last_error :: "string option \<Rightarrow> label list \<Rightarrow> string option" where
  "last_error c [] = c"
| "last_error c (l # ls) =
     last_error (case l of LSend e \<Rightarrow> (case GetError e of Some x \<Rightarrow> Some (err_Code x) | None \<Rightarrow> c) | _ \<Rightarrow> c) ls"

text \<open>The exit code of the agent in the container \<open>name\<close>, once it was waited for: what \<^verbatim>\<open>docker wait\<close> has
  printed, or the code of the process.\<close>

fun agent_exit :: "string \<Rightarrow> int option \<Rightarrow> label list \<Rightarrow> int option" where
  "agent_exit name c [] = c"
| "agent_exit name c (l # ls) =
     agent_exit name (case l of
         LSys (Docker [w, container]) r \<Rightarrow>
           if w = ''wait'' \<and> container = name then (case wait_code r of None \<Rightarrow> c | Some x \<Rightarrow> Some x) else c
       | LSys ExecWait r \<Rightarrow> Some (process_code r)
       | _ \<Rightarrow> c) ls"

lemma watch_exit: "watch (exit_monitor s name) (err, agent) ls = (last_error err ls, agent_exit name agent ls)"
proof (induction ls arbitrary: err agent)
  case (Cons l ls)
  then show ?case by (auto simp: exit_monitor_def split: label.split syscall.split list.split option.split)
qed simp

lemma checked_snoc: "checked M q (ls @ [l]) \<Longrightarrow> mo_check M (watch M q ls) l"
  by (induction ls arbitrary: q) auto

lemma exit_assumed:
  "(\<And>cfg. LGetConfig cfg \<in> set ls \<Longrightarrow> container_name cfg s = name) \<Longrightarrow> assumed (exit_monitor s name) q ls"
  by (induction ls arbitrary: q) (auto simp: exit_monitor_def split: label.split)

interpretation exit_codes: monitored "exit_monitor s name" "handleRunRequest getenv readFile startedAt s req" "(None, None)"
  for getenv readFile startedAt s req name
  by unfold_locales (rule exits.handler)

text \<open>C9: The exit code a run's own goroutine completes it with belongs to the last error it has sent: 1
  for the workspace, 2 for the configuration, 3 for starting, 4 for waiting. Without an error the
  agent has ended, and the code is the agent's: the number that docker has printed when waiting for the
  container of the run (the one named after the worker and the run, by whatever configuration is read
  during it), 0 if it has printed nothing, or the exit code of the process, 1 if waiting has failed for one that has
  none; and the run succeeds exactly if that is 0. (A cancellation completes a run from a goroutine of
  its own, always with 137.)\<close>

theorem exit_code_matches_error:
  assumes "after_steps (handleRunRequest getenv readFile startedAt s req) (ls @ [LSend e]) = Some p"
    and "is_completed e" and "\<And>cfg. LGetConfig cfg \<in> set ls \<Longrightarrow> container_name cfg s = name"
  shows "case last_error None ls of
           Some code \<Rightarrow> (\<exists>x. map_of exit_table code = Some x \<and> e = completed_event False (word_of_int x) '''')
         | None \<Rightarrow> (\<exists>x. agent_exit name None ls = Some x \<and> e = completed_event (x = 0) (word_of_int x) '''')"
proof -
  have "assumed (exit_monitor s name) q (ls @ [LSend e])" for q by (rule exit_assumed) (use assms(3) in auto)
  from checked_snoc [OF exit_codes.run_checked [OF assms(1) this]]
  have "mo_check (exit_monitor s name) (last_error None ls, agent_exit name None ls) (LSend e)" by (simp add: watch_exit)
  then show ?thesis using assms(2) by (simp add: exit_monitor_def split: option.splits)
qed

lemma after_steps_append:
  "after_steps p (xs @ ys) = (case after_steps p xs of None \<Rightarrow> None | Some p' \<Rightarrow> after_steps p' ys)"
  by (induction xs arbitrary: p) (auto split: option.split)

text \<open>A process that ends with code 7.\<close>

definition exec_config :: Config where
  "exec_config = demo_config\<lparr>cfg_Runtimes :=
     [(''opencode'', empty_runtime\<lparr>rc_Image := ''img'', rc_Runner := ''exec'', rc_Command := [''agent'']\<rparr>)]\<rparr>"

definition exec_labels :: "label list" where
  "exec_labels =
     [LRegister, LLoad (new_rs ''r1''), LSend (status_event ''starting'' ''''), LGetConfig exec_config,
      LSys (MkdirAll ''/ws/r1'') fine, LSys (WriteFile ''/ws/r1/.nano-workspace.json'' (RunMeta ''r1'' ''r1'')) fine,
      LLoad (new_rs ''r1''), LSys StdoutPipe fine, LSys StderrPipe fine,
      LSys (ExecStart [''agent''] ''/ws/r1'' [(''STREAM_ID'', ''r1''), (''SESSION_ID'', ''s''), (''PROMPT'', '''')]) fine,
      LStore FCmd, LSend (status_event ''running'' ''exec''),
      LSys ExecWait \<lparr>rp_err = Some ''exit status 7'', rp_out = '''', rp_code = 7\<rparr>, LTestAndSet True]"

lemma exit_code_matches_error_witness:
  "(\<exists>x. map_of exit_table ''RUNTIME_NOT_CONFIGURED'' = Some x
     \<and> completed_event False 2 '''' = completed_event False (word_of_int x) '''')
   \<and> (\<exists>x. agent_exit ''w1-r1'' None exec_labels = Some x \<and> completed_event False 7 '''' = completed_event (x = 0) (word_of_int x) '''')"
proof -
  have split: "demo_run_labels = (take 8 demo_run_labels @ [LSend (completed_event False 2 '''')]) @ [LUnregister]"
    by (simp add: demo_run_labels_def)
  obtain p where "after_steps (demo_handler ''r1'' demo_request)
      (take 8 demo_run_labels @ [LSend (completed_event False 2 '''')]) = Some p"
    using demo_labels_run unfolding split [symmetric]
    by (subst (asm) split) (auto simp only: after_steps_append [of _ _ "[LUnregister]"] split: option.splits)
  note failed = exit_code_matches_error [OF this [unfolded demo_handler_def], of "''w1-r1''"]
  have "\<not> Option.is_none (after_steps (demo_handler ''r1'' demo_request)
      (exec_labels @ [LSend (completed_event False 7 '''')]))" by code_simp
  then obtain p' where "after_steps (demo_handler ''r1'' demo_request)
      (exec_labels @ [LSend (completed_event False 7 '''')]) = Some p'"
    by (auto simp: Option.is_none_def)
  note ended = exit_code_matches_error [OF this [unfolded demo_handler_def], of "''w1-r1''"]
  have "container_name demo_config ''r1'' = ''w1-r1''" "container_name exec_config ''r1'' = ''w1-r1''" by code_simp+
  then have named: "cfg = demo_config \<or> cfg = exec_config \<Longrightarrow> container_name cfg ''r1'' = ''w1-r1''" for cfg by blast
  have "LGetConfig cfg \<in> set (take 8 demo_run_labels) \<Longrightarrow> cfg = demo_config"
    "LGetConfig cfg \<in> set exec_labels \<Longrightarrow> cfg = exec_config" for cfg
    by (auto simp: demo_run_labels_def exec_labels_def)
  with failed ended named have
    "case last_error None (take 8 demo_run_labels) of
       Some code \<Rightarrow> (\<exists>x. map_of exit_table code = Some x \<and> completed_event False 2 '''' = completed_event False (word_of_int x) '''')
     | None \<Rightarrow> True"
    "last_error None exec_labels = None \<Longrightarrow>
      \<exists>x. agent_exit ''w1-r1'' None exec_labels = Some x \<and> completed_event False 7 '''' = completed_event (x = 0) (word_of_int x) ''''"
    by (auto split: option.splits)
  moreover have "last_error None exec_labels = None" by code_simp
  moreover have "last_error None (take 8 demo_run_labels) = Some ''RUNTIME_NOT_CONFIGURED''" by code_simp
  ultimately show ?thesis by simp
qed

end
