(* ===== verification/RunConfined.thy ===== *)
theory RunConfined
  imports RunMonitors
begin

text \<open>
  A run whose policy asks for the allowlist: what has happened before any container of it starts.
  The monitor keeps the whole history of a run and looks at each \<^verbatim>\<open>docker run\<close>.
\<close>

definition command_ok :: "string list \<Rightarrow> label list \<Rightarrow> bool" where
  "command_ok args xs \<longleftrightarrow> (\<exists>r. LSys (Docker args) r \<in> set xs \<and> rp_err r = None)"

text \<open>The internal network exists: it was created, or docker said that it is there.\<close>

definition network_created :: "string \<Rightarrow> label list \<Rightarrow> bool" where
  "network_created net xs \<longleftrightarrow>
     (\<exists>r. LSys (Docker [''network'', ''create'', ''--internal'', net]) r \<in> set xs
        \<and> (rp_err r = None \<or> contains (trim_space (rp_out r)) ''already exists''))"

definition bridged :: "string \<Rightarrow> label list \<Rightarrow> bool" where
  "bridged container xs \<longleftrightarrow>
     (\<exists>r. LSys (Docker [''network'', ''connect'', ''bridge'', container]) r \<in> set xs
        \<and> (rp_err r = None \<or> contains (trim_space (rp_out r)) ''already exists''
             \<or> contains (trim_space (rp_out r)) ''already connected''))"

definition rules_written :: "string \<Rightarrow> NetworkAllowRule list \<Rightarrow> label list \<Rightarrow> bool" where
  "rules_written path rules xs \<longleftrightarrow> (\<exists>r. LSys (WriteFile path (AllowlistJson rules)) r \<in> set xs \<and> rp_err r = None)"

text \<open>
  Where docker finds a file the worker has written: under the same path, or, where the workspaces of the
  worker are a directory of the host, at the same place below that directory.
\<close>

definition lies_below :: "string \<Rightarrow> string list \<Rightarrow> string \<Rightarrow> bool" where
  "lies_below root rel path \<longleftrightarrow> rooted path = rooted root \<and> path_comps path = path_comps root @ rel"

definition mounted_from :: "Config \<Rightarrow> string \<Rightarrow> string \<Rightarrow> bool" where
  "mounted_from cfg path host \<longleftrightarrow>
     (if cfg_HostWorkspaceRoot cfg = '''' then host = path
      else \<exists>rel. lies_below (cfg_WorkspaceRoot cfg) rel path \<and> lies_below (cfg_HostWorkspaceRoot cfg) rel host)"

text \<open>
  The two containers such a run may start, by their whole command lines. The proxy is on the
  internal network and has the file mounted that it reads its rules from.
\<close>

definition proxy_command :: "string \<Rightarrow> string \<Rightarrow> string \<Rightarrow> string list" where
  "proxy_command img name host =
     [''run'', ''-d'', ''--name'', name @ ''-proxy'', ''-v'', host @ '':/etc/nano/allowlist.json'',
      ''--network'', name @ ''-allow'', ''--network-alias'', ''proxy'', img,
      ''-listen'', '':3128'', ''-allowlist'', ''/etc/nano/allowlist.json'']"

text \<open>The agent is on the internal network and no other, and its environment names the proxy.\<close>

definition agent_command :: "string \<Rightarrow> string list \<Rightarrow> bool" where
  "agent_command name args \<longleftrightarrow>
     (\<exists>mounts env opts img cmd.
        args = [''run'', ''-d'', ''--name'', name, ''-w'', ''/workspace'']
          @ concat (map (\<lambda>(h, c). [''-v'', h @ '':'' @ c]) mounts)
          @ concat (map (\<lambda>(k, v). [''-e'', k @ ''='' @ v]) env)
          @ opts @ [''--network'', name @ ''-allow'', img] @ cmd
      \<and> (\<forall>x \<in> set opts. \<not> prefix ''--net'' x)
      \<and> (\<forall>v \<in> {''HTTP_PROXY'', ''HTTPS_PROXY'', ''http_proxy'', ''https_proxy''}. map_of env v = Some ''http://proxy:3128'')
      \<and> (\<forall>v \<in> {''NO_PROXY'', ''no_proxy''}. map_of env v = Some ''localhost,127.0.0.1''))"

definition confined_command :: "string \<Rightarrow> string \<Rightarrow> label list \<Rightarrow> string list \<Rightarrow> bool" where
  "confined_command name host xs args \<longleftrightarrow>
     (\<exists>img. args = proxy_command img name host
        \<or> (command_ok (proxy_command img name host) xs \<and> bridged (name @ ''-proxy'') xs \<and> agent_command name args))"

text \<open>
  What was done before: \<open>cfg0\<close> is the configuration the run has started with, \<open>cfg\<close> the one
  read for the policy. The worker's root of workspaces is set (it has a default) and stays as it is unless the worker is
  configured anew between the two.
\<close>

definition prepared :: "Config \<Rightarrow> Config \<Rightarrow> string \<Rightarrow> string \<Rightarrow> label list \<Rightarrow> bool" where
  "prepared cfg0 cfg s host xs \<longleftrightarrow>
     LGetConfig cfg0 \<in> set xs \<and> LGetConfig cfg \<in> set xs
     \<and> cfg_NetworkAllowlist cfg \<noteq> [] \<and> ValidateNetworkAllowlist (cfg_NetworkAllowlist cfg) = None
     \<and> network_created (container_name cfg0 s @ ''-allow'') xs
     \<and> (\<exists>path. rules_written path (cfg_NetworkAllowlist cfg) xs
          \<and> (cfg_HostWorkspaceRoot cfg = '''' \<longrightarrow> host = path)
          \<and> (cfg_WorkspaceRoot cfg = cfg_WorkspaceRoot cfg0 \<and> cfg_WorkspaceRoot cfg \<noteq> '''' \<longrightarrow> mounted_from cfg path host))"

definition confined :: "string \<Rightarrow> label list \<Rightarrow> string list \<Rightarrow> bool" where
  "confined s xs args \<longleftrightarrow>
     (\<exists>cfg0 cfg host. prepared cfg0 cfg s host xs \<and> confined_command (container_name cfg0 s) host xs args)"

definition is_docker_run :: "label \<Rightarrow> bool" where
  "is_docker_run l = (case l of LSys (Docker (x # xs)) r \<Rightarrow> x = ''run'' | _ \<Rightarrow> False)"

definition confined_monitor :: "string \<Rightarrow> label list monitor" where
  "confined_monitor s =
     \<lparr>mo_assume = (\<lambda>_ _. True),
      mo_check = (\<lambda>xs l. is_docker_run l \<longrightarrow> (case l of LSys (Docker args) r \<Rightarrow> confined s xs args | _ \<Rightarrow> False)),
      mo_next = (\<lambda>xs l. xs @ [l]),
      mo_final = (\<lambda>_. True)\<rparr>"

abbreviation guarded :: "string \<Rightarrow> prog \<Rightarrow> label list \<Rightarrow> bool" where
  "guarded s \<equiv> conforms (confined_monitor s)"

lemma guarded_observe:
  "observe (confined_monitor s) xs l rest
   \<longleftrightarrow> (is_docker_run l \<longrightarrow> (case l of LSys (Docker args) r \<Rightarrow> confined s xs args | _ \<Rightarrow> False)) \<and> rest (xs @ [l])"
  by (simp add: observe_def confined_monitor_def)

lemma not_docker_run [simp]:
  "\<not> is_docker_run LRegister" "\<not> is_docker_run LUnregister" "\<not> is_docker_run (LLoad rs)" "\<not> is_docker_run (LStore f)"
  "\<not> is_docker_run (LTestAndSet b)" "\<not> is_docker_run (LGetConfig cf)" "\<not> is_docker_run (LPutEnv a b' c)"
  "\<not> is_docker_run (LSend e)" "x \<noteq> ''run'' \<Longrightarrow> \<not> is_docker_run (LSys (Docker (x # ys)) r)"
  "(\<And>args. c' \<noteq> Docker args) \<Longrightarrow> \<not> is_docker_run (LSys c' r)"
  by (auto simp: is_docker_run_def split: syscall.splits list.splits)

subsection \<open>Rules\<close>

text \<open>The rest of a program is guarded from every longer history.\<close>

lemma guarded_calls:
  "(\<And>r. \<not> is_docker_run (LSys c r)) \<Longrightarrow> (\<And>r. guarded s (k r) (xs @ [LSys c r])) \<Longrightarrow> guarded s (Sys c k) xs"
  "(\<And>rs. guarded s (kl rs) (xs @ [LLoad rs])) \<Longrightarrow> guarded s (Load kl) xs"
  "(\<And>b. guarded s (kt b) (xs @ [LTestAndSet b])) \<Longrightarrow> guarded s (TestAndSet kt) xs"
  "(\<And>cfg. guarded s (kc cfg) (xs @ [LGetConfig cfg])) \<Longrightarrow> guarded s (GetConfig kc) xs"
  "guarded s p (xs @ [LStore f]) \<Longrightarrow> guarded s (Store f p) xs"
  "guarded s p (xs @ [LRegister]) \<Longrightarrow> guarded s (Register p) xs"
  "guarded s p (xs @ [LUnregister]) \<Longrightarrow> guarded s (Unregister p) xs"
  "guarded s p (xs @ [LPutEnv a b' c']) \<Longrightarrow> guarded s (PutEnv a b' c' p) xs"
  "guarded s p (xs @ [LSend e]) \<Longrightarrow> guarded s (Send e p) xs"
  "guarded s Halt xs"
  by (simp_all add: conforms.simps guarded_observe) (simp add: confined_monitor_def)

lemma guarded_ends:
  "guarded s (complete_run x) xs"
  "guarded s (fail_run c m x) xs"
  "(\<And>rs. guarded s k (xs @ [LLoad rs])) \<Longrightarrow> guarded s (unless_aborted k) xs"
  "guarded s p (xs @ [LSend (status_event st d)]) \<Longrightarrow> guarded s (sendStatus st d p) xs"
  unfolding prog_defs by (auto intro!: guarded_calls)

abbreviation longer :: "label list \<Rightarrow> label list \<Rightarrow> bool" where
  "longer xs ys \<equiv> set xs \<subseteq> set ys"

lemma guarded_network_rm:
  assumes "\<And>e ys. longer xs ys \<Longrightarrow> guarded s (k e) ys"
  shows "guarded s (DockerNetworkRemove n k) xs"
  unfolding DockerNetworkRemove_def Let_def by (auto intro!: guarded_calls assms split: option.split)

lemma guarded_rm:
  assumes "\<And>e ys. longer xs ys \<Longrightarrow> guarded s (k e) ys"
  shows "guarded s (DockerRemove n k) xs"
  unfolding DockerRemove_def Let_def by (auto intro!: guarded_calls assms split: option.split)

lemma guarded_wait:
  assumes "\<And>e ys. longer xs ys \<Longrightarrow> guarded s (k e) ys"
  shows "guarded s (DockerWait n k) xs"
  unfolding DockerWait_def Let_def by (auto intro!: guarded_calls assms split: option.split)

lemma guarded_remove_proxy:
  assumes "\<And>ys. longer xs ys \<Longrightarrow> guarded s p ys"
  shows "guarded s (remove_proxy a b p) xs"
  unfolding remove_proxy_def by (intro guarded_rm guarded_network_rm assms) auto

lemma network_createdI:
  "LSys (Docker [''network'', ''create'', ''--internal'', n]) r \<in> set xs
    \<Longrightarrow> rp_err r = None \<or> contains (trim_space (rp_out r)) ''already exists'' \<Longrightarrow> network_created n xs"
  by (auto simp: network_created_def)

lemma bridgedI:
  "LSys (Docker [''network'', ''connect'', ''bridge'', n]) r \<in> set xs
    \<Longrightarrow> rp_err r = None \<or> contains (trim_space (rp_out r)) ''already exists''
         \<or> contains (trim_space (rp_out r)) ''already connected'' \<Longrightarrow> bridged n xs"
  by (auto simp: bridged_def)

lemma guarded_create:
  assumes "trim_space n \<noteq> ''''" "\<And>e ys. longer xs ys \<Longrightarrow> (e = None \<Longrightarrow> network_created n ys) \<Longrightarrow> guarded s (k e) ys"
  shows "guarded s (DockerNetworkCreateInternal n k) xs"
  unfolding DockerNetworkCreateInternal_def Let_def using assms(1)
  by (auto intro!: guarded_calls assms(2) network_createdI split: option.split)

lemma guarded_connect:
  assumes "trim_space n \<noteq> ''''" "\<And>e ys. longer xs ys \<Longrightarrow> (e = None \<Longrightarrow> bridged n ys) \<Longrightarrow> guarded s (k e) ys"
  shows "guarded s (DockerNetworkConnect ''bridge'' n k) xs"
proof -
  have "trim_space ''bridge'' \<noteq> ''''" by code_simp
  then show ?thesis unfolding DockerNetworkConnect_def Let_def using assms(1)
    by (auto intro!: guarded_calls assms(2) bridgedI split: option.split)
qed

text \<open>A container starts, perhaps at the second try, from a history that allows it.\<close>

lemma docker_run_args_run: "docker_run_args spec = ''run'' # tl (docker_run_args spec)"
  by (simp add: docker_run_args_def)

lemma guarded_run:
  assumes ok: "\<And>ys. longer xs ys \<Longrightarrow> confined s ys (docker_run_args spec)"
    and k: "\<And>e ys. longer xs ys \<Longrightarrow> (\<And>p. e = Inr p \<Longrightarrow> command_ok (docker_run_args spec) ys) \<Longrightarrow> guarded s (k e) ys"
  shows "guarded s (DockerRun spec k) xs"
proof -
  have start: "guarded s (Sys (Docker (docker_run_args spec)) f) ys"
    if "longer xs ys" "\<And>r. guarded s (f r) (ys @ [LSys (Docker (docker_run_args spec)) r])" for f ys
    using that ok [OF that(1)] by (simp add: conforms.simps guarded_observe)
  have started: "command_ok (docker_run_args spec) ys"
    if "LSys (Docker (docker_run_args spec)) r \<in> set ys" "rp_err r = None" for ys r
    using that by (auto simp: command_ok_def)
  have again: "guarded s (Sys (Docker (docker_run_args spec)) (\<lambda>r2. case rp_err r2 of
        None \<Rightarrow> k (Inr \<lparr>dp_ContainerID = trim_space (rp_out r2), dp_Container = ds_Name spec\<rparr>)
      | Some e2 \<Rightarrow> k (Inl (command_error ''docker run failed'' e2 (trim_space (rp_out r2)))))) ys"
    if "longer xs ys" for ys
    using that by (intro start) (auto intro!: k started split: option.split)
  show ?thesis
    unfolding DockerRun_def Let_def
    by (intro start) (auto intro!: k guarded_rm again started split: option.split)
qed

subsection \<open>The run is guarded\<close>

lemma history_mono:
  "longer xs ys \<Longrightarrow> command_ok args xs \<Longrightarrow> command_ok args ys"
  "longer xs ys \<Longrightarrow> bridged n xs \<Longrightarrow> bridged n ys"
  "longer xs ys \<Longrightarrow> network_created n xs \<Longrightarrow> network_created n ys"
  "longer xs ys \<Longrightarrow> rules_written path rules xs \<Longrightarrow> rules_written path rules ys"
  "longer xs ys \<Longrightarrow> LGetConfig cfg \<in> set xs \<Longrightarrow> LGetConfig cfg \<in> set ys"
  by (auto simp: network_created_def bridged_def command_ok_def rules_written_def)

lemma prepared_mono: "longer xs ys \<Longrightarrow> prepared cfg0 cfg s host xs \<Longrightarrow> prepared cfg0 cfg s host ys"
  unfolding prepared_def using history_mono(3,4,5) [of xs ys] by blast

lemma confined_command_mono:
  "longer xs ys \<Longrightarrow> confined_command name host xs args \<Longrightarrow> confined_command name host ys args"
  unfolding confined_command_def using history_mono(1,2) [of xs ys] by blast

lemma confined_mono: "longer xs ys \<Longrightarrow> confined s xs args \<Longrightarrow> confined s ys args"
  unfolding confined_def using prepared_mono [of xs ys] confined_command_mono [of xs ys] by blast

lemma container_plain: "trim_space (container_name cfg s @ c # cs) \<noteq> ''''"
proof -
  obtain d ds where s: "Sanitize (cfg_WorkerID cfg) = d # ds" "name_char d"
    using Sanitize_chars [of "cfg_WorkerID cfg"] by (cases "Sanitize (cfg_WorkerID cfg)") auto
  then have "space_len (container_name cfg s @ c # cs) = 0"
    using plain_not_space(1) [OF name_char_stable(6) [OF s(2)]] by (simp add: container_name_def)
  then have left: "trim_left (container_name cfg s @ c # cs) = container_name cfg s @ c # cs"
    by (rule trim_left_id)
  show ?thesis
  proof
    assume "trim_space (container_name cfg s @ c # cs) = ''''"
    then have "trim_right (d # ds @ ''-'' @ Sanitize s @ c # cs) = ''''"
      using left s(1) by (simp add: trim_space_def container_name_def)
    then have e: "trim_left_rev (rev (ds @ ''-'' @ Sanitize s @ c # cs) @ [d]) = ''''"
      by (simp add: trim_right_def)
    have keep: "trim_left_rev (u @ [d]) \<noteq> ''''" for u
    proof (induction "length u" arbitrary: u rule: less_induct)
      case less
      have nz: "space_len_rev (u @ [d]) \<le> length u"
      proof -
        have pl: "plain d" using name_char_stable(6) [OF s(2)] .
        have "\<not> ascii_space d" "\<not> space2 d b" "\<not> space3 d b b'" for b b'
          using pl by (auto simp: plain_def ascii_space_def space2_def space3_def)
        then show ?thesis
          by (cases u; cases "tl u"; cases "tl (tl u)") (auto split: list.splits)
      qed
      show ?case
      proof (cases "space_len_rev (u @ [d]) = 0")
        case True
        then show ?thesis by (simp add: trim_left_rev_id)
      next
        case False
        then have u: "u \<noteq> []" using nz by auto
        have "trim_left_rev (u @ [d]) = trim_left_rev (drop (space_len_rev (u @ [d])) u @ [d])"
          using False nz by (subst trim_left_rev.simps) simp
        moreover have "length (drop (space_len_rev (u @ [d])) u) < length u" using False u by simp
        ultimately show ?thesis using less by presburger
      qed
    qed
    show False using e keep by blast
  qed
qed

text \<open>The command lines.\<close>

lemma proxy_args:
  "docker_run_args (proxy_spec img (name @ ''-proxy'') (name @ ''-allow'') host) = proxy_command img name host"
  by (simp add: docker_run_args_def proxy_spec_def proxy_command_def)

lemma decimal_not_option: "list_all (\<lambda>c. is_digit c \<or> c = CHR ''.'') x \<Longrightarrow> \<not> prefix ''--net'' x"
proof -
  have "\<not> is_digit CHR ''-''" by code_simp
  then show "list_all (\<lambda>c. is_digit c \<or> c = CHR ''.'') x \<Longrightarrow> \<not> prefix ''--net'' x" by (auto simp: prefix_def)
qed

lemma limits_not_network:
  "\<not> prefix ''--net'' (dec_of_nat n)" "\<not> prefix ''--net'' (formatDockerCPUs m)" "\<not> prefix ''--net'' (formatDockerMemory b)"
proof -
  have digits: "list_all is_digit (dec_of_nat n)" "dec_of_nat n \<noteq> []" for n
    by (simp_all add: dec_of_nat_digits)
  have trim: "c \<in> set x" if "c \<in> set (trim_right_chars cs x)" for c cs x
    using that by (auto simp: trim_right_chars_def dest: set_dropWhileD)
  show "\<not> prefix ''--net'' (dec_of_nat n)"
    using digits [of n] by (intro decimal_not_option) (auto simp: list_all_iff)
  have zero: "is_digit CHR ''0''" by code_simp
  have "list_all is_digit (three_digits n)" for n by (simp add: three_digits_def is_digit_char)
  then have "list_all (\<lambda>c. is_digit c \<or> c = CHR ''.'') (formatDockerCPUs m)"
    using digits zero by (auto simp: formatDockerCPUs_def Let_def list_all_iff dest!: trim)
  then show "\<not> prefix ''--net'' (formatDockerCPUs m)" by (rule decimal_not_option)
  obtain d ds where "dec_of_nat (unat (if (b + 1024 * 1024 - 1) div (1024 * 1024) = 0 then 1
      else (b + 1024 * 1024 - 1) div (1024 * 1024))) = d # ds" "is_digit d"
    using digits by (metis list.pred_inject(2) neq_Nil_conv)
  moreover have "\<not> is_digit CHR ''-''" by code_simp
  ultimately show "\<not> prefix ''--net'' (formatDockerMemory b)"
    by (auto simp: formatDockerMemory_def Let_def prefix_def split: if_splits)
qed

lemma options_not_network:
  assumes "is_allowlist pol" "x \<in> set (DockerRuntimeArgs rt @ DockerExtraArgsFromPolicy pol)"
  shows "\<not> prefix ''--net'' x"
  using assms limits_not_network
  by (auto simp: is_allowlist_def DockerRuntimeArgs_def DockerExtraArgsFromPolicy_def Let_def split: option.splits if_splits)

lemma agent_args:
  assumes "is_allowlist pol" "name \<noteq> ''''"
  shows "agent_command name (docker_run_args (agent_spec img name mounts (proxy_env env) cmd
    (DockerRuntimeArgs rt @ DockerExtraArgsFromPolicy pol @ [''--network'', name @ ''-allow''])))"
proof -
  have "docker_run_args (agent_spec img name mounts (proxy_env env) cmd
      (DockerRuntimeArgs rt @ DockerExtraArgsFromPolicy pol @ [''--network'', name @ ''-allow'']))
    = [''run'', ''-d'', ''--name'', name, ''-w'', ''/workspace'']
      @ concat (map (\<lambda>(h, c). [''-v'', h @ '':'' @ c]) mounts)
      @ concat (map (\<lambda>(k, v). [''-e'', k @ ''='' @ v]) (proxy_env env))
      @ (DockerRuntimeArgs rt @ DockerExtraArgsFromPolicy pol) @ [''--network'', name @ ''-allow'', img] @ cmd"
    using assms(2) by (simp add: docker_run_args_def agent_spec_def)
  moreover have "\<forall>v \<in> {''HTTP_PROXY'', ''HTTPS_PROXY'', ''http_proxy'', ''https_proxy''}.
      map_of (proxy_env env) v = Some ''http://proxy:3128''"
    "\<forall>v \<in> {''NO_PROXY'', ''no_proxy''}. map_of (proxy_env env) v = Some ''localhost,127.0.0.1''"
    by (simp_all add: proxy_env_def Let_def update_conv')
  ultimately show ?thesis
    unfolding agent_command_def using options_not_network [OF assms(1)] by blast
qed

lemma container_named: "container_name cfg s \<noteq> ''''"
  by (simp add: container_name_def)

text \<open>The agent starts, from a history in which the proxy does.\<close>

lemma guarded_proxied_agent:
  assumes pol: "is_allowlist pol" and name: "name = container_name cfg0 s" and p: "prepared cfg0 cfg s host xs"
    and "command_ok (proxy_command pimg name host) xs" "bridged (name @ ''-proxy'') xs"
  shows "guarded s (run_proxied_agent cfg pol img name mounts env cmd (name @ ''-proxy'') (name @ ''-allow'')) xs"
proof -
  have "confined s xs (docker_run_args (agent_spec img name mounts (proxy_env env) cmd
      (DockerRuntimeArgs (cfg_ContainerRuntime cfg) @ DockerExtraArgsFromPolicy pol @ [''--network'', name @ ''-allow''])))"
    unfolding confined_def confined_command_def
    using agent_args [OF pol] container_named assms by blast
  then show ?thesis
    unfolding run_proxied_agent_def Let_def
    by (auto intro!: guarded_run guarded_calls guarded_ends guarded_remove_proxy guarded_rm guarded_wait
        intro: confined_mono split: sum.split)
qed

text \<open>The two stages before the agent: the proxy is started, and joins the outer network.\<close>

abbreviation join_bridge ::
  "Config \<Rightarrow> Policy option \<Rightarrow> string \<Rightarrow> string \<Rightarrow> (string \<times> string) list \<Rightarrow> (string \<times> string) list
    \<Rightarrow> string list \<Rightarrow> prog" where
  "join_bridge cfg pol img name mounts env cmd \<equiv>
     DockerNetworkConnect ''bridge'' (name @ ''-proxy'') (\<lambda>err. case err of
         Some e \<Rightarrow> remove_proxy (name @ ''-proxy'') (name @ ''-allow'') (fail_run ''DOCKER_NET_POLICY_FAILED'' e 3)
       | None \<Rightarrow> run_proxied_agent cfg pol img name mounts env cmd (name @ ''-proxy'') (name @ ''-allow''))"

lemma guarded_join_bridge:
  assumes "is_allowlist pol" "name = container_name cfg0 s" "prepared cfg0 cfg s host xs"
    "command_ok (proxy_command pimg name host) xs"
  shows "guarded s (join_bridge cfg pol img name mounts env cmd) xs"
proof (rule guarded_connect)
  show "trim_space (name @ ''-proxy'') \<noteq> ''''" using container_plain assms(2) by simp
  fix err :: "string option" and ys
  assume l: "longer xs ys" and joined: "err = None \<Longrightarrow> bridged (name @ ''-proxy'') ys"
  show "guarded s (case err of
         Some e \<Rightarrow> remove_proxy (name @ ''-proxy'') (name @ ''-allow'') (fail_run ''DOCKER_NET_POLICY_FAILED'' e 3)
       | None \<Rightarrow> run_proxied_agent cfg pol img name mounts env cmd (name @ ''-proxy'') (name @ ''-allow'')) ys"
    using guarded_proxied_agent [OF assms(1,2) prepared_mono [OF l assms(3)] history_mono(1) [OF l assms(4)]] joined
    by (auto intro!: guarded_remove_proxy guarded_ends split: option.split)
qed

abbreviation start_proxy ::
  "Config \<Rightarrow> Policy option \<Rightarrow> string \<Rightarrow> string \<Rightarrow> string \<Rightarrow> (string \<times> string) list
    \<Rightarrow> (string \<times> string) list \<Rightarrow> string list \<Rightarrow> string \<Rightarrow> prog" where
  "start_proxy cfg pol img name pimg mounts env cmd host \<equiv>
     DockerRun (proxy_spec pimg (name @ ''-proxy'') (name @ ''-allow'') host) (\<lambda>res. case res of
         Inl e \<Rightarrow> Store (FNetProc None)
           (DockerNetworkRemove (name @ ''-allow'') (\<lambda>_. fail_run ''DOCKER_NET_POLICY_FAILED'' e 3))
       | Inr proc \<Rightarrow> Store (FNetProc (Some proc)) (join_bridge cfg pol img name mounts env cmd))"

lemma guarded_start_proxy:
  assumes h: "is_allowlist pol" "name = container_name cfg0 s" "prepared cfg0 cfg s host xs"
  shows "guarded s (start_proxy cfg pol img name pimg mounts env cmd host) xs"
proof (rule guarded_run, unfold proxy_args)
  fix ys assume l: "longer xs ys"
  have "confined s xs (proxy_command pimg name host)"
    unfolding confined_def confined_command_def using h by blast
  then show "confined s ys (proxy_command pimg name host)" by (rule confined_mono [OF l])
next
  fix res :: "string + DockerProcess" and ys
  assume l: "longer xs ys" and ok: "\<And>p. res = Inr p \<Longrightarrow> command_ok (proxy_command pimg name host) ys"
  have join: "guarded s (join_bridge cfg pol img name mounts env cmd) zs" if "longer ys zs" "res = Inr p" for zs p
  proof (rule guarded_join_bridge [OF h(1,2)])
    show "prepared cfg0 cfg s host zs" using l that(1) by (intro prepared_mono [OF _ h(3)]) blast
    show "command_ok (proxy_command pimg name host) zs" by (rule history_mono(1) [OF that(1) ok [OF that(2)]])
  qed
  have "guarded s (Store (FNetProc (Some p)) (join_bridge cfg pol img name mounts env cmd)) ys" if "res = Inr p" for p
    by (rule guarded_calls(5), rule join [OF _ that]) auto
  then show "guarded s (case res of
         Inl e \<Rightarrow> Store (FNetProc None)
           (DockerNetworkRemove (name @ ''-allow'') (\<lambda>_. fail_run ''DOCKER_NET_POLICY_FAILED'' e 3))
       | Inr proc \<Rightarrow> Store (FNetProc (Some proc)) (join_bridge cfg pol img name mounts env cmd)) ys"
    by (cases res) (auto intro!: guarded_calls(5) guarded_network_rm guarded_ends)
qed

text \<open>Before it, the rules are written.\<close>

abbreviation write_rules ::
  "Config \<Rightarrow> Policy option \<Rightarrow> string \<Rightarrow> string \<Rightarrow> string \<Rightarrow> (string \<times> string) list
    \<Rightarrow> (string \<times> string) list \<Rightarrow> string list \<Rightarrow> string \<Rightarrow> string \<Rightarrow> prog" where
  "write_rules cfg pol img name pimg mounts env cmd path host \<equiv>
     Store (FNetName (name @ ''-allow''))
       (Sys (MarshalRules (cfg_NetworkAllowlist cfg)) (\<lambda>r. case rp_err r of
          Some e \<Rightarrow> fail_run ''NETWORK_ALLOWLIST_INVALID'' e 2
        | None \<Rightarrow>
            Sys (WriteFile path (AllowlistJson (cfg_NetworkAllowlist cfg))) (\<lambda>r. case rp_err r of
              Some e \<Rightarrow> fail_run ''WORKSPACE_WRITE_FAILED'' e 1
            | None \<Rightarrow> start_proxy cfg pol img name pimg mounts env cmd host)))"

lemma rules_written_history:
  "rules_written path rules (xs @ ys) \<longleftrightarrow> rules_written path rules xs \<or> rules_written path rules ys"
  "rules_written path rules (l # ys)
    \<longleftrightarrow> (\<exists>r. l = LSys (WriteFile path (AllowlistJson rules)) r \<and> rp_err r = None) \<or> rules_written path rules ys"
  by (auto simp: rules_written_def)

lemma guarded_write_rules:
  assumes "is_allowlist pol" "name = container_name cfg0 s"
    and "\<And>ys. longer xs ys \<Longrightarrow> rules_written path (cfg_NetworkAllowlist cfg) ys \<Longrightarrow> prepared cfg0 cfg s host ys"
  shows "guarded s (write_rules cfg pol img name pimg mounts env cmd path host) xs"
  by (auto intro!: guarded_calls guarded_ends guarded_start_proxy [OF assms(1,2)] assms(3)
      simp: rules_written_history split: option.split)

text \<open>The file the proxy has mounted is the one that was written.\<close>

definition rules_mount :: "Config \<Rightarrow> string \<Rightarrow> string" where
  "rules_mount cfg dir =
     (if cfg_HostWorkspaceRoot cfg = '''' then Join [dir, ''.nano-allowlist.json'']
      else (case Rel (cfg_WorkspaceRoot cfg) dir of
              Some rel \<Rightarrow> Join [cfg_HostWorkspaceRoot cfg, rel, ''.nano-allowlist.json'']
            | None \<Rightarrow> Join [dir, ''.nano-allowlist.json'']))"

lemma rules_mounted:
  assumes "child_name w" "cfg_WorkspaceRoot cfg \<noteq> ''''"
  defines "dir \<equiv> Join [cfg_WorkspaceRoot cfg, w]"
  shows "mounted_from cfg (Join [dir, ''.nano-allowlist.json'']) (rules_mount cfg dir)"
proof -
  have f: "child_name ''.nano-allowlist.json''" by (simp add: child_name_def path_word_def)
  note root = Join_child [OF assms(2,1)]
  have "dir \<noteq> ''''"
  proof
    assume "dir = ''''"
    then have "path_comps '''' = path_comps (cfg_WorkspaceRoot cfg) @ [w]" using root(2) by (simp add: dir_def)
    then show False by (simp add: path_comps_def)
  qed
  from Join_child [OF this f] have "lies_below (cfg_WorkspaceRoot cfg) [w, ''.nano-allowlist.json''] (Join [dir, ''.nano-allowlist.json''])"
    using root by (simp add: lies_below_def dir_def)
  moreover have "lies_below (cfg_HostWorkspaceRoot cfg) [w, ''.nano-allowlist.json'']
      (Join [cfg_HostWorkspaceRoot cfg, w, ''.nano-allowlist.json''])" if "cfg_HostWorkspaceRoot cfg \<noteq> ''''"
    using Join_grandchild [OF that assms(1) f] by (simp add: lies_below_def)
  moreover have "Rel (cfg_WorkspaceRoot cfg) dir = Some w" unfolding dir_def by (rule Rel_child [OF assms(2,1)])
  ultimately show ?thesis unfolding mounted_from_def rules_mount_def by auto
qed

lemma guarded_proxied:
  assumes pol: "is_allowlist pol" and cfg0: "LGetConfig cfg0 \<in> set xs" and name: "name = container_name cfg0 s"
    and dir: "dir = Join [cfg_WorkspaceRoot cfg0, w]" "child_name w"
  shows "guarded s (run_proxied pol img name dir mounts env cmd) xs"
proof -
  have "prepared cfg0 cfg s (rules_mount cfg dir) ys"
    if "longer xs ys" "LGetConfig cfg \<in> set ys" "cfg_NetworkAllowlist cfg \<noteq> []"
      "ValidateNetworkAllowlist (cfg_NetworkAllowlist cfg) = None" "network_created (name @ ''-allow'') ys"
      "rules_written (Join [dir, ''.nano-allowlist.json'']) (cfg_NetworkAllowlist cfg) ys" for cfg ys
  proof -
    have "mounted_from cfg (Join [dir, ''.nano-allowlist.json'']) (rules_mount cfg dir)"
      if "cfg_WorkspaceRoot cfg = cfg_WorkspaceRoot cfg0" "cfg_WorkspaceRoot cfg \<noteq> ''''"
      using rules_mounted [OF dir(2) that(2)] by (simp only: that(1) dir(1))
    moreover have "rules_mount cfg dir = Join [dir, ''.nano-allowlist.json'']" if "cfg_HostWorkspaceRoot cfg = ''''"
      using that by (simp add: rules_mount_def)
    ultimately show ?thesis using that cfg0 name unfolding prepared_def by blast
  qed
  then have created: "guarded s (write_rules cfg pol img name pimg mounts env cmd
      (Join [dir, ''.nano-allowlist.json'']) (rules_mount cfg dir)) ys"
    if "longer xs ys" "LGetConfig cfg \<in> set ys" "cfg_NetworkAllowlist cfg \<noteq> []"
      "ValidateNetworkAllowlist (cfg_NetworkAllowlist cfg) = None" "network_created (name @ ''-allow'') ys" for cfg pimg ys
    using that by (intro guarded_write_rules [OF pol name]) (blast intro: history_mono)
  have network: "guarded s (DockerNetworkCreateInternal (name @ ''-allow'') (\<lambda>err. case err of
      Some e \<Rightarrow> fail_run ''DOCKER_NETWORK_CREATE_FAILED'' e 3
    | None \<Rightarrow> write_rules cfg pol img name pimg mounts env cmd
        (Join [dir, ''.nano-allowlist.json'']) (rules_mount cfg dir))) (xs @ [LGetConfig cfg])"
    if "cfg_NetworkAllowlist cfg \<noteq> []" "ValidateNetworkAllowlist (cfg_NetworkAllowlist cfg) = None" for cfg pimg
  proof (rule guarded_create)
    show "trim_space (name @ ''-allow'') \<noteq> ''''" using container_plain name by simp
  qed (auto split del: if_split intro!: created guarded_ends that split: option.split)
  have choice: "(b \<Longrightarrow> guarded s p ys) \<Longrightarrow> (\<not> b \<Longrightarrow> guarded s q ys) \<Longrightarrow> guarded s (if b then p else q) ys" for b p q ys
    by simp
  show ?thesis
    unfolding run_proxied_def Let_def rules_mount_def [symmetric]
    by (intro guarded_calls choice) (auto split del: if_split split: option.split intro: guarded_ends intro!: network)
qed

lemma guarded_exec: "guarded s (run_exec key cmd dir env) xs"
  unfolding run_exec_def by (auto intro!: guarded_calls guarded_ends split: option.split)

lemma guarded_spec:
  "is_allowlist pol \<Longrightarrow> LGetConfig cfg \<in> set xs \<Longrightarrow> dir = workspace_dir cfg req s
    \<Longrightarrow> guarded s (run_spec cfg rc key s pol dir sp) xs"
  unfolding run_spec_def Let_def by (auto intro!: guarded_exec guarded_ends
      intro: guarded_proxied [OF _ _ refl workspace_dir_def Sanitize_child])

lemma guarded_passthrough:
  assumes "\<And>env ys. longer xs ys \<Longrightarrow> guarded s (k env) ys" "longer xs ys"
  shows "guarded s (env_passthrough g n sh vs env k) ys"
  using assms(2)
proof (induction vs arbitrary: env ys)
  case (Cons v vs)
  have "longer xs (ys @ [LPutEnv n v (g v)])" using Cons.prems by auto
  with Cons.IH Cons.prems have "guarded s (env_passthrough g n sh vs env k) ys"
    "guarded s (env_passthrough g n sh vs env k) (ys @ [LPutEnv n v (g v)])" for env by blast+
  then show ?case by (auto simp: Let_def intro: guarded_calls)
qed (use assms(1) in simp)

lemma guarded_runtime:
  assumes "is_allowlist (rr_Policy req)" "LGetConfig cfg \<in> set xs"
  shows "guarded s (run_runtime g rf cfg s (workspace_dir cfg req s) req) xs"
  unfolding run_runtime_def Let_def
  by (auto intro!: guarded_ends guarded_passthrough [of xs] guarded_spec history_mono(5) [OF _ assms(2)] assms(1)
      split: option.split prod.split sum.split)

lemma guarded_log_dir:
  assumes "\<And>ys. longer xs ys \<Longrightarrow> guarded s p ys"
  shows "guarded s (make_log_dir cfg s' w t p) xs"
  unfolding make_log_dir_def by (auto intro!: guarded_calls assms split: option.split)

lemma guarded_handler:
  assumes "is_allowlist (rr_Policy req)"
  shows "guarded s (handleRunRequest g rf t s req) []"
  unfolding handleRunRequest_def Let_def sendError_def sendCompleted_def finish_def
  by (auto intro!: guarded_calls guarded_ends guarded_log_dir guarded_runtime assms split: option.split)

lemma guarded_checked:
  "checked (confined_monitor s) hs (xs @ LSys (Docker (''run'' # args)) r # ys)
    \<Longrightarrow> confined s (hs @ xs) (''run'' # args)"
proof (induction xs arbitrary: hs)
  case Nil
  then show ?case by (simp add: confined_monitor_def is_docker_run_def)
next
  case (Cons x xs)
  then have "confined s ((hs @ [x]) @ xs) (''run'' # args)"
    by (intro Cons.IH) (simp add: confined_monitor_def)
  then show ?case by simp
qed

text \<open>C5: A run under the allowlist policy starts a container only after it has written out non-empty, valid
  rules, which the proxy loads, and the internal network exists; and the container is the proxy, on that network and
  with the written file mounted as the one it loads, at the host's name of it, or, once that proxy runs and
  is bridged, the agent, with the internal network as its only network option and the proxy in its
  environment. This holds at every point of every run, whatever docker replies and whatever else
  happens; where the worker runs in a container itself, the mounted file is the written one as long as its
  own root of workspaces is not changed during the run.\<close>

theorem allowlist_run_is_confined:
  assumes "is_allowlist (rr_Policy req)"
    and "after_steps (handleRunRequest getenv readFile startedAt s req)
           (xs @ LSys (Docker (''run'' # args)) r # ys) = Some p"
  shows "\<exists>cfg0 cfg al path host. LGetConfig cfg0 \<in> set xs \<and> LGetConfig cfg \<in> set xs
      \<and> cfg_NetworkAllowlist cfg \<noteq> [] \<and> loadAllowlist (Rules (cfg_NetworkAllowlist cfg)) = Inr al
      \<and> rules_written path (cfg_NetworkAllowlist cfg) xs
      \<and> (cfg_HostWorkspaceRoot cfg = '''' \<longrightarrow> host = path)
      \<and> (cfg_WorkspaceRoot cfg = cfg_WorkspaceRoot cfg0 \<and> cfg_WorkspaceRoot cfg \<noteq> '''' \<longrightarrow> mounted_from cfg path host)
      \<and> network_created (container_name cfg0 s @ ''-allow'') xs
      \<and> confined_command (container_name cfg0 s) host xs (''run'' # args)"
proof -
  have m: "monitored (confined_monitor s) (handleRunRequest getenv readFile startedAt s req) []"
    by unfold_locales (rule guarded_handler [OF assms(1)])
  have "assumed (confined_monitor s) hs ls" for hs ls
    by (induction ls arbitrary: hs) (simp_all add: confined_monitor_def)
  from monitored.run_checked [OF m assms(2) this]
  have "confined s xs (''run'' # args)" using guarded_checked [of _ "[]"] by simp
  then obtain cfg0 cfg host where c: "prepared cfg0 cfg s host xs"
      "confined_command (container_name cfg0 s) host xs (''run'' # args)"
    unfolding confined_def by blast
  then have "\<exists>al. loadAllowlist (Rules (cfg_NetworkAllowlist cfg)) = Inr al"
    using load_rules_check [of "\<lparr>hostRules = [], cidrRules = []\<rparr>" "cfg_NetworkAllowlist cfg"]
    by (auto simp: prepared_def split: sum.splits)
  with c show ?thesis unfolding prepared_def by blast
qed

definition policy_config :: Config where
  "policy_config = empty_config\<lparr>cfg_WorkerID := ''w1'', cfg_WorkspaceRoot := ''/ws'',
     cfg_HostWorkspaceRoot := ''/srv/ws/'', cfg_Runtimes := [(''opencode'', empty_runtime\<lparr>rc_Image := ''img''\<rparr>)], cfg_NetworkAllowlist := demo_rules\<rparr>"

definition policy_request :: RunRequest where
  "policy_request = \<lparr>rr_SessionId = ''s'', rr_Runtime = RUNTIME_OPENCODE, rr_Workspace = None, rr_Input = None,
     rr_Policy = Some \<lparr>pol_TimeoutSeconds = 0, pol_Resources = None, pol_Network = NETWORK_POLICY_ALLOWLIST,
       pol_Approval = APPROVAL_POLICY_AUTO\<rparr>,
     rr_SecretsRef = ''''\<rparr>"

definition policy_labels :: "label list" where
  "policy_labels =
     (let ok = \<lparr>rp_err = None, rp_out = '''', rp_code = 0\<rparr>;
          rs = \<lparr>rs_streamID = ''r1'', rs_ctx = False, rs_done = False, rs_proc = None, rs_netProc = None,
                rs_netName = '''', rs_logs = False, rs_cmd = False\<rparr> in
      [LRegister, LLoad rs, LSend (status_event ''starting'' ''''), LGetConfig policy_config,
       LSys (MkdirAll ''/ws/r1'') ok, LSys (WriteFile ''/ws/r1/.nano-workspace.json'' (RunMeta ''r1'' ''r1'')) ok,
       LGetConfig policy_config,
       LSys (Docker [''network'', ''create'', ''--internal'', ''w1-r1-allow'']) ok,
       LStore (FNetName ''w1-r1-allow''), LSys (MarshalRules demo_rules) ok,
       LSys (WriteFile ''/ws/r1/.nano-allowlist.json'' (AllowlistJson demo_rules)) ok])"

definition policy_proxy_args :: "string list" where
  "policy_proxy_args =
     [''-d'', ''--name'', ''w1-r1-proxy'', ''-v'', ''/srv/ws/r1/.nano-allowlist.json:/etc/nano/allowlist.json'',
      ''--network'', ''w1-r1-allow'', ''--network-alias'', ''proxy'', ''nano-net-policy-runtime:local'',
      ''-listen'', '':3128'', ''-allowlist'', ''/etc/nano/allowlist.json'']"

lemma allowlist_run_is_confined_witness:
  "\<exists>cfg0 cfg al path host. LGetConfig cfg0 \<in> set policy_labels \<and> LGetConfig cfg \<in> set policy_labels
      \<and> cfg_NetworkAllowlist cfg \<noteq> [] \<and> loadAllowlist (Rules (cfg_NetworkAllowlist cfg)) = Inr al
      \<and> rules_written path (cfg_NetworkAllowlist cfg) policy_labels
      \<and> confined_command (container_name cfg0 ''r1'') host policy_labels (''run'' # policy_proxy_args)"
proof -
  define r where "r = \<lparr>rp_err = None, rp_out = ''abc'', rp_code = (0 :: int)\<rparr>"
  have "is_allowlist (rr_Policy policy_request)" by (simp add: is_allowlist_def policy_request_def)
  moreover have "\<not> Option.is_none (after_steps
      (handleRunRequest (\<lambda>_. '''') (\<lambda>_. EnvMissing) ''t'' ''r1'' policy_request)
      (policy_labels @ LSys (Docker (''run'' # policy_proxy_args)) r # []))"
    unfolding r_def by code_simp
  then obtain p where "after_steps (handleRunRequest (\<lambda>_. '''') (\<lambda>_. EnvMissing) ''t'' ''r1'' policy_request)
      (policy_labels @ LSys (Docker (''run'' # policy_proxy_args)) r # []) = Some p"
    by (auto simp: Option.is_none_def)
  ultimately show ?thesis using allowlist_run_is_confined by blast
qed

end
