(* ===== verification/WorkerConn.thy ===== *)
theory WorkerConn
  imports WorkerRun
begin

text \<open>
  How a worker gets to its gateway: the address it dials, the message it introduces itself with, the
  defaults it fills in and the waits between its attempts
  (\<^verbatim>\<open>dial\<close>, \<^verbatim>\<open>connectAndServe\<close>, \<^verbatim>\<open>Start\<close> of
  \<^verbatim>\<open>pkg/worker/worker.go\<close>). Parsing and printing a URL belong to
  \<^verbatim>\<open>net/url\<close>; a parsed URL is the record of the fields the program uses.
\<close>

subsection \<open>URLs\<close>

record url =
  u_Scheme :: string
  u_Host :: string
  u_Path :: string
  u_RawQuery :: string
  u_Fragment :: string

text \<open>\<^verbatim>\<open>url.Hostname\<close> and \<^verbatim>\<open>url.Port\<close>: the host is cut at its last colon
  if digits or nothing follow, and loses its brackets.\<close>

definition valid_port :: "string \<Rightarrow> bool" where
  "valid_port p \<longleftrightarrow> list_all is_digit p"

definition split_host :: "string \<Rightarrow> string \<times> string" where
  "split_host hostPort =
     (let (host, port) =
        (case last_index CHR '':'' hostPort of
           None \<Rightarrow> (hostPort, '''')
         | Some i \<Rightarrow>
             if valid_port (drop (Suc i) hostPort) then (take i hostPort, drop (Suc i) hostPort)
             else (hostPort, ''''))
      in (if prefix ''['' host \<and> suffix '']'' host then butlast (tl host) else host, port))"

definition url_Hostname :: "url \<Rightarrow> string" where
  "url_Hostname u = fst (split_host (u_Host u))"

definition url_Port :: "url \<Rightarrow> string" where
  "url_Port u = snd (split_host (u_Host u))"

lemma url_simps [simp]:
  "url_Hostname (u\<lparr>u_Scheme := x\<rparr>) = url_Hostname u" "url_Port (u\<lparr>u_Scheme := x\<rparr>) = url_Port u"
  "url_Hostname (u\<lparr>u_Path := x\<rparr>) = url_Hostname u" "url_Port (u\<lparr>u_Path := x\<rparr>) = url_Port u"
  by (simp_all add: url_Hostname_def url_Port_def)

lemma split_JoinHostPort:
  assumes "CHR '':'' \<notin> set port" "valid_port port" "port \<noteq> ''''"
  shows "snd (split_host (JoinHostPort host port)) = port"
proof (cases "CHR '':'' \<in> set host")
  case True
  have "last_index CHR '':'' ((CHR ''['' # host @ '']'') @ CHR '':'' # port) = Some (length (CHR ''['' # host @ '']''))"
    using assms(1) by (intro last_index_snoc)
  with True assms show ?thesis by (simp add: JoinHostPort_def split_host_def)
next
  case False
  with assms show ?thesis by (simp add: JoinHostPort_def split_host_def)
qed

subsection \<open>Dialling\<close>

text \<open>The address and the authorization header, or the parser's error. \<open>parse\<close> is
  \<^verbatim>\<open>url.Parse\<close>.\<close>

definition dial :: "(string \<Rightarrow> string + url) \<Rightarrow> Config \<Rightarrow> string + url \<times> string option" where
  "dial parse cfg =
     (case parse (cfg_RelayURL cfg) of
        Inl e \<Rightarrow> Inl e
      | Inr u \<Rightarrow>
          (let u = (if url_Port u = '''' \<and> url_Hostname u \<noteq> ''''
                    then u\<lparr>u_Host := JoinHostPort (url_Hostname u) ''8081''\<rparr> else u);
               u = u\<lparr>u_Path := ''/v1/worker/connect''\<rparr>
           in Inr (u, if cfg_Token cfg \<noteq> '''' then Some (''Bearer '' @ cfg_Token cfg) else None)))"

text \<open>The dialled address of a relay URL that parses.\<close>

lemma dial_ok:
  assumes "parse (cfg_RelayURL cfg) = Inr u" "url_Hostname u \<noteq> ''''"
  obtains v auth where "dial parse cfg = Inr (v, auth)" "u_Path v = ''/v1/worker/connect''"
    "u_Host v = (if url_Port u = '''' then JoinHostPort (url_Hostname u) ''8081'' else u_Host u)"
    "url_Port v = (if url_Port u = '''' then ''8081'' else url_Port u)"
proof -
  define v where "v = (if url_Port u = '''' then u\<lparr>u_Host := JoinHostPort (url_Hostname u) ''8081''\<rparr> else u)
    \<lparr>u_Path := ''/v1/worker/connect''\<rparr>"
  have p: "snd (split_host (JoinHostPort (url_Hostname u) ''8081'')) = ''8081''"
    by (rule split_JoinHostPort) (simp_all add: valid_port_def is_digit_def)
  show thesis
  proof
    show "dial parse cfg = Inr (v, if cfg_Token cfg \<noteq> '''' then Some (''Bearer '' @ cfg_Token cfg) else None)"
      using assms by (simp add: dial_def v_def Let_def)
  qed (use p in \<open>simp_all add: v_def url_Port_def\<close>)
qed

definition hello_envelope :: "Config \<Rightarrow> 64 word \<Rightarrow> Envelope" where
  "hello_envelope cfg seq =
     \<lparr>env_ProtocolVersion = ''1.0'', env_TunnelId = '''', env_WorkerId = cfg_WorkerID cfg, env_StreamId = '''',
      env_Seq = seq,
      env_Message = Some (Envelope_WorkerHello
        \<lparr>wh_Name = cfg_Name cfg, wh_Version = cfg_Version cfg, wh_Labels = cfg_Labels cfg,
         wh_SupportedRuntimes = supportedRuntimes cfg,
         wh_Capacity = Some \<lparr>cap_CpuMillis = 0, cap_MemoryBytes = 0, cap_Pids = 0, cap_DiskBytes = 0\<rparr>,
         wh_Docker = Some \<lparr>di_ServerVersion = '''', di_Os = '''', di_Arch = '''', di_Rootless = False\<rparr>\<rparr>)\<rparr>"

definition heartbeat_envelope :: "Config \<Rightarrow> 64 word \<Rightarrow> 64 word \<Rightarrow> Envelope" where
  "heartbeat_envelope cfg seq nowMillis =
     \<lparr>env_ProtocolVersion = ''1.0'', env_TunnelId = '''', env_WorkerId = cfg_WorkerID cfg, env_StreamId = '''',
      env_Seq = seq,
      env_Message = Some (Envelope_WorkerHeartbeat
        \<lparr>hb_UnixMillis = nowMillis,
         hb_Current = Some \<lparr>cap_CpuMillis = 0, cap_MemoryBytes = 0, cap_Pids = 0, cap_DiskBytes = 0\<rparr>,
         hb_RunningStreams = 0, hb_QueuedStreams = 0\<rparr>)\<rparr>"

subsection \<open>Starting\<close>

text \<open>\<open>now\<close> is the time in nanoseconds, \<open>tmp\<close> the directory for temporary files.\<close>

definition start_defaults :: "nat \<Rightarrow> string \<Rightarrow> Config \<Rightarrow> Config" where
  "start_defaults now tmp cfg =
     (let cfg = (if cfg_WorkerID cfg = '''' then cfg\<lparr>cfg_WorkerID := ''worker-'' @ dec_of_nat now\<rparr> else cfg);
          cfg = (if cfg_Name cfg = '''' then cfg\<lparr>cfg_Name := ''nano-sandbox-'' @ Sanitize (cfg_WorkerID cfg)\<rparr> else cfg);
          cfg = (if cfg_Version cfg = '''' then cfg\<lparr>cfg_Version := ''1.0''\<rparr> else cfg)
      in if cfg_WorkspaceRoot cfg = '''' then cfg\<lparr>cfg_WorkspaceRoot := Join [tmp, ''nano-workspaces'']\<rparr> else cfg)"

text \<open>
  The loop of \<^verbatim>\<open>Start\<close>, driven by what happens at each round: the context is
  cancelled before the attempt, the connection ends without an error, or it fails and the context
  is cancelled during the wait or not. The result is the seconds waited and how the loop ended, if it
  did.
\<close>

datatype attempt = CancelledBefore | ServedOk | Disconnected bool

datatype start_end = StartCancelled | StartDone

definition next_backoff :: "nat \<Rightarrow> nat" where
  "next_backoff b = (if b * 2 > 30 then 30 else b * 2)"

fun start_loop :: "nat \<Rightarrow> attempt list \<Rightarrow> nat list \<times> start_end option" where
  "start_loop backoff [] = ([], None)"
| "start_loop backoff (CancelledBefore # as) = ([], Some StartCancelled)"
| "start_loop backoff (ServedOk # as) = ([], Some StartDone)"
| "start_loop backoff (Disconnected cancelled # as) =
     (if cancelled then ([], Some StartCancelled)
      else (let (ws, e) = start_loop (next_backoff backoff) as in (backoff # ws, e)))"

subsection \<open>Waits\<close>

lemma start_loop_waits:
  assumes "start_loop (min 30 (2 ^ k)) as = (ws, e)"
  shows "ws = map (\<lambda>i. min 30 (2 ^ (k + i))) [0..<length ws]"
  using assms
proof (induction as arbitrary: k ws)
  case Nil
  then show ?case by simp
next
  case (Cons a as)
  show ?case
  proof (cases a)
    case (Disconnected c)
    show ?thesis
    proof (cases c)
      case True
      with Cons.prems Disconnected show ?thesis by simp
    next
      case False
      have nb: "next_backoff (min 30 (2 ^ k)) = min 30 (2 ^ Suc k)" by (auto simp: next_backoff_def min_def)
      obtain vs where v: "start_loop (min 30 (2 ^ Suc k)) as = (vs, e)" "ws = min 30 (2 ^ k) # vs"
        using Cons.prems Disconnected False by (auto simp: nb split: prod.splits)
      have "vs = map (\<lambda>i. min 30 (2 ^ (Suc k + i))) [0..<length vs]" using Cons.IH [OF v(1)] .
      then have "map (\<lambda>i. min 30 (2 ^ (k + i))) [1..<Suc (length vs)] = vs"
        by (simp add: map_Suc_upt [symmetric] comp_def del: upt_Suc)
      then show ?thesis by (simp add: v(2) upt_conv_Cons del: upt_Suc)
    qed
  qed (use Cons.prems in simp_all)
qed

end
