(* ===== verification/AdminApi.thy ===== *)
theory AdminApi
  imports Pairing Gateway
begin

text \<open>
  The HTTP handlers of \<^verbatim>\<open>pkg/server/pairing_handlers.go\<close> and
  \<^verbatim>\<open>admin_handlers.go\<close> over the worker and pairing store: status codes and
  bodies. A request body that does not decode is \<^verbatim>\<open>None\<close>.
\<close>

datatype api_body =
    PairingStarted string string string int
  | PairingStatus string string
  | PairingRequests "PairingRequest list"
  | WorkerList "(WorkerRecord \<times> bool) list"
  | WorkerToken string string
  | Done string

datatype api_reply = ApiError nat string | ApiOk api_body

record pairingStartRequest =
  psr_WorkerName :: string
  psr_HostInfo :: string
  psr_Labels :: "string list"

subsection \<open>Workers\<close>

definition handleWorkerPairingStart ::
  "(string \<Rightarrow> string) \<Rightarrow> string option \<Rightarrow> string \<Rightarrow> nat list \<Rightarrow> int \<Rightarrow> int \<Rightarrow> pairingStartRequest option
    \<Rightarrow> config_store \<Rightarrow> api_reply \<times> config_store" where
  "handleWorkerPairingStart h rand uuid bytes now now' body s =
     (case body of None \<Rightarrow> (ApiError 400 ''Bad Request'', s)
      | Some req \<Rightarrow>
          (case CreatePairingRequest h rand uuid bytes now (psr_WorkerName req) (psr_HostInfo req) (psr_Labels req) s of
             (Inl _, s') \<Rightarrow> (ApiError 500 ''Internal Server Error'', s')
           | (Inr (rid, secret, userCode), s') \<Rightarrow>
               (ApiOk (PairingStarted rid userCode secret (now' + PairingTTL)), s')))"

definition handleWorkerPairingStatus ::
  "(string \<Rightarrow> string) \<Rightarrow> int \<Rightarrow> string \<Rightarrow> http_request \<Rightarrow> config_store \<Rightarrow> api_reply \<times> config_store" where
  "handleWorkerPairingStatus h now rid r s =
     (let secret = parseBearerToken r in
      if secret = '''' then (ApiError 401 ''Unauthorized'', s)
      else (case PollPairingRequest h now rid secret s of
              (Inl errNotFound, s') \<Rightarrow> (ApiError 404 ''Not Found'', s')
            | (Inl errUnauthorized, s') \<Rightarrow> (ApiError 401 ''Unauthorized'', s')
            | (Inl _, s') \<Rightarrow> (ApiError 500 ''Internal Server Error'', s')
            | (Inr (status, tok), s') \<Rightarrow> (ApiOk (PairingStatus status tok), s')))"

subsection \<open>Administrators\<close>

text \<open>Sessions are timed in nanoseconds, the store in seconds.\<close>

definition second_of :: "int \<Rightarrow> int" where "second_of t = t div 1000000000"

text \<open>The check every administrator's handler begins with; the rest runs only where it passes.\<close>

definition with_admin ::
  "string \<Rightarrow> int \<Rightarrow> http_request \<Rightarrow> sessions \<Rightarrow> (config_store \<Rightarrow> api_reply \<times> config_store)
    \<Rightarrow> config_store \<Rightarrow> api_reply \<times> config_store \<times> sessions" where
  "with_admin tok now r ss k s =
     (case requireAdmin tok now r ss of
        (AdminUnavailable, ss') \<Rightarrow> (ApiError 503 ''Gateway token is required'', s, ss')
      | (AdminUnauthorized, ss') \<Rightarrow> (ApiError 401 ''Unauthorized'', s, ss')
      | (AdminOk, ss') \<Rightarrow> (let (rep, s') = k s in (rep, s', ss')))"

text \<open>Not found is 404, anything else 500.\<close>

definition store_reply :: "string \<Rightarrow> unit store_result \<Rightarrow> api_reply \<times> config_store" where
  "store_reply what res =
     (case res of
        (Inl errNotFound, s') \<Rightarrow> (ApiError 404 ''Not Found'', s')
      | (Inl _, s') \<Rightarrow> (ApiError 500 ''Internal Server Error'', s')
      | (Inr _, s') \<Rightarrow> (ApiOk (Done what), s'))"

definition handleAdminListPairingRequests where
  "handleAdminListPairingRequests tok now r ss s =
     with_admin tok now r ss (\<lambda>s. (ApiOk (PairingRequests (ListPairingRequests (second_of now) s)), s)) s"

definition handleAdminApprovePairingRequest where
  "handleAdminApprovePairingRequest h rand uuid tok now r rid ss s =
     with_admin tok now r ss (\<lambda>s. store_reply ''approved'' (ApprovePairingRequest h rand uuid (second_of now) rid s)) s"

definition handleAdminApprovePairingRequestByCode where
  "handleAdminApprovePairingRequestByCode h rand uuid tok now r code ss s =
     with_admin tok now r ss (\<lambda>s. store_reply ''approved'' (ApprovePairingRequestByCode h rand uuid (second_of now) code s)) s"

definition handleAdminRejectPairingRequest where
  "handleAdminRejectPairingRequest tok now r rid ss s =
     with_admin tok now r ss (\<lambda>s. store_reply ''rejected'' (RejectPairingRequest rid s)) s"

definition handleAdminListWorkers where
  "handleAdminListWorkers tok now r dirOk g ss s =
     with_admin tok now r ss (\<lambda>s. case ListWorkers dirOk s of
         Inl _ \<Rightarrow> (ApiError 500 ''Internal Server Error'', s)
       | Inr recs \<Rightarrow>
           (ApiOk (WorkerList (map (\<lambda>rec. (rec,
              case map_of (gw_workers g) (wr_WorkerID rec) of
                None \<Rightarrow> False | Some sess \<Rightarrow> sess_Hello sess \<noteq> None)) recs)), s)) s"

definition handleAdminDeleteWorker where
  "handleAdminDeleteWorker tok now r wid ss s =
     with_admin tok now r ss (\<lambda>s. case DeleteWorker wid s of
         (Inl errNotFound, s') \<Rightarrow> (ApiError 404 ''Not Found'', s')
       | (Inl errInvalid, s') \<Rightarrow> (ApiError 400 ''Bad Request'', s')
       | (Inl _, s') \<Rightarrow> (ApiError 500 ''Internal Server Error'', s')
       | (Inr _, s') \<Rightarrow> (ApiOk (Done ''deleted''), s')) s"

definition handleAdminRotateWorkerToken where
  "handleAdminRotateWorkerToken h rand tok now r wid ss s =
     with_admin tok now r ss (\<lambda>s. case RotateWorkerToken h rand (second_of now) wid s of
         (Inl errNotFound, s') \<Rightarrow> (ApiError 404 ''Not Found'', s')
       | (Inl errInvalid, s') \<Rightarrow> (ApiError 400 ''Bad Request'', s')
       | (Inl _, s') \<Rightarrow> (ApiError 500 ''Internal Server Error'', s')
       | (Inr (newToken, rec), s') \<Rightarrow> (ApiOk (WorkerToken (wr_WorkerID rec) newToken), s')) s"

subsection \<open>Nothing happens without the administrator\<close>

lemma with_admin_cases:
  assumes "with_admin tok now r ss k s = (rep, s', ss')"
  obtains "fst (requireAdmin tok now r ss) = AdminOk" "k s = (rep, s')"
  | "fst (requireAdmin tok now r ss) \<noteq> AdminOk" "s' = s" "rep = ApiError 503 ''Gateway token is required'' \<or> rep = ApiError 401 ''Unauthorized''"
  using assms by (auto simp: with_admin_def split: prod.splits admin_check.splits)


lemma demo_admin: "fst (requireAdmin ''tok'' 0 \<lparr>rq_Authorization = '''', rq_GatewayToken = '''', rq_WorkerToken = '''',
    rq_QueryToken = '''', rq_Cookie = None\<rparr> (\<lambda>_. None)) \<noteq> AdminOk"
  by code_simp

text \<open>No administrator's handler changes the store for a request that fails the administrator's check:
  each answers 503 where the gateway has no token and 401 otherwise, and lists nothing.\<close>

theorem admin_handlers_are_guarded:
  assumes "fst (requireAdmin tok now r ss) \<noteq> AdminOk"
    and "res \<in> {handleAdminListPairingRequests tok now r ss s,
                handleAdminApprovePairingRequest h rand uuid tok now r x ss s,
                handleAdminApprovePairingRequestByCode h rand uuid tok now r x ss s,
                handleAdminRejectPairingRequest tok now r x ss s,
                handleAdminListWorkers tok now r dirOk g ss s,
                handleAdminDeleteWorker tok now r x ss s,
                handleAdminRotateWorkerToken h rand tok now r x ss s}"
  shows "fst (snd res) = s
    \<and> fst res = (if tok = '''' then ApiError 503 ''Gateway token is required'' else ApiError 401 ''Unauthorized'')"
proof -
  have "fst (snd (with_admin tok now r ss k s)) = s
    \<and> fst (with_admin tok now r ss k s)
      = (if tok = '''' then ApiError 503 ''Gateway token is required'' else ApiError 401 ''Unauthorized'')" for k
    using assms(1) by (auto simp: with_admin_def requireAdmin_def Let_def split: prod.splits if_splits)
  then show ?thesis
    using assms(2)
    by (auto simp: handleAdminListPairingRequests_def handleAdminApprovePairingRequest_def
        handleAdminApprovePairingRequestByCode_def handleAdminRejectPairingRequest_def
        handleAdminListWorkers_def handleAdminDeleteWorker_def handleAdminRotateWorkerToken_def)
qed

lemma admin_handlers_are_guarded_witness:
  "fst (handleAdminDeleteWorker ''tok'' 0 \<lparr>rq_Authorization = '''', rq_GatewayToken = '''', rq_WorkerToken = '''',
    rq_QueryToken = '''', rq_Cookie = None\<rparr> ''w1'' (\<lambda>_. None) (demo_store [])) = ApiError 401 ''Unauthorized''"
  using admin_handlers_are_guarded [OF demo_admin, of "handleAdminDeleteWorker ''tok'' 0
      \<lparr>rq_Authorization = '''', rq_GatewayToken = '''', rq_WorkerToken = '''', rq_QueryToken = '''', rq_Cookie = None\<rparr>
      ''w1'' (\<lambda>_. None) (demo_store [])" "demo_store []" demo_hash None "''u''" "''w1''"] by simp

end
