(* ===== verification/Bootstrap.thy ===== *)
theory Bootstrap
  imports WorkerConn AdminApi
begin

text \<open>
  \<^verbatim>\<open>pkg/worker/bootstrap_remote.go\<close>: how a worker gets its token, by enrolling or
  by pairing, and the configuration that comes out. The replies of the gateway, the files and the
  host are arguments; the result lists the calls made in order.
\<close>

subsection \<open>Addresses\<close>

definition httpBaseURLFromRelayURL :: "(string \<Rightarrow> string + url) \<Rightarrow> string \<Rightarrow> string + url" where
  "httpBaseURLFromRelayURL parse relayURL =
     (case parse relayURL of Inl e \<Rightarrow> Inl e
      | Inr u \<Rightarrow>
          (let scheme = to_lower (u_Scheme u) in
           if scheme \<noteq> ''ws'' \<and> scheme \<noteq> ''wss'' \<and> scheme \<noteq> ''http'' \<and> scheme \<noteq> ''https''
           then Inl (''unsupported relay_url scheme: '' @ u_Scheme u)
           else
             (let u = (if scheme = ''ws'' then u\<lparr>u_Scheme := ''http''\<rparr>
                       else if scheme = ''wss'' then u\<lparr>u_Scheme := ''https''\<rparr> else u);
                  host = trim_space (url_Hostname u)
              in if host = '''' then Inl ''relay_url host is required''
                 else
                   (let u = (if trim_space (url_Port u) = '''' then u\<lparr>u_Host := JoinHostPort host ''8081''\<rparr> else u)
                    in Inr (u\<lparr>u_Path := '''', u_RawQuery := '''', u_Fragment := ''''\<rparr>)))))"

fun is_loopback :: "addr \<Rightarrow> bool" where
  "is_loopback (V4 w) \<longleftrightarrow> drop_bit 24 w = 127"
| "is_loopback (V6 bs z) \<longleftrightarrow>
     bs = replicate 15 0 @ [1] \<or> (take 12 bs = replicate 10 0 @ [255, 255] \<and> bs ! 12 = 127)"

fun private_v4 :: "nat list \<Rightarrow> bool" where
  "private_v4 (a # b # _) \<longleftrightarrow> a = 10 \<or> (a = 172 \<and> b div 16 = 1) \<or> (a = 192 \<and> b = 168)"
| "private_v4 _ \<longleftrightarrow> False"

fun is_private :: "addr \<Rightarrow> bool" where
  "is_private (V4 w) \<longleftrightarrow> private_v4 [unat (drop_bit 24 w), unat (drop_bit 16 w) mod 256]"
| "is_private (V6 bs z) \<longleftrightarrow>
     (if take 12 bs = replicate 10 0 @ [255, 255] then private_v4 (drop 12 bs)
      else length bs = 16 \<and> bs ! 0 div 2 = 126)"

text \<open>\<^verbatim>\<open>net.ParseIP\<close> refuses a zone.\<close>

definition ParseIP :: "string \<Rightarrow> addr option" where
  "ParseIP s = (case ParseAddr s of Some (V6 bs z) \<Rightarrow> if z \<noteq> '''' then None else Some (V6 bs z) | a \<Rightarrow> a)"

definition shouldBypassProxy :: "string \<Rightarrow> string \<Rightarrow> bool" where
  "shouldBypassProxy requestHost targetHost =
     (let host = to_lower (trim_space requestHost); target = to_lower (trim_space targetHost) in
      if host = '''' then False
      else if target \<noteq> '''' \<and> host = target then True
      else if host = ''localhost'' \<or> host = ''127.0.0.1'' \<or> host = ''::1'' then True
      else (case ParseIP host of None \<Rightarrow> False | Some ip \<Rightarrow> is_loopback ip \<or> is_private ip))"

subsection \<open>State and calls\<close>

record BootstrapConfig =
  bc_RelayURL :: string
  bc_EnrollToken :: string
  bc_WorkspaceRoot :: string
  bc_HostWorkspaceRoot :: string
  bc_HostStateRoot :: string
  bc_StateDir :: string
  bc_LogRoot :: string
  bc_Labels :: "string list"
  bc_WorkerID :: string

record bootstrapState =
  bs_WorkerID :: string
  bs_WorkerToken :: string

record enrollRequest =
  er_EnrollToken :: string
  er_WorkerID :: string
  er_Labels :: "string list"

datatype boot_call =
    CallMkdir string
  | CallEnroll string enrollRequest
  | CallPair string pairingStartRequest
  | CallPoll string string
  | CallWriteState bootstrapState

text \<open>The requests of the client carry their URL, the polls also the secret. What a request goes to:\<close>

fun call_url :: "boot_call \<Rightarrow> string option" where
  "call_url (CallEnroll url _) = Some url"
| "call_url (CallPair url _) = Some url"
| "call_url (CallPoll url _) = Some url"
| "call_url _ = None"

text \<open>A reply: no answer, a status other than 200 with its body, or a decoded body, or a bad one.\<close>

datatype 'a http_reply = NoReply string | BadStatus nat string | BadBody string | Reply 'a

definition buildConfigFromBootstrap :: "bootstrapState \<Rightarrow> BootstrapConfig \<Rightarrow> Config" where
  "buildConfigFromBootstrap st boot = empty_config
     \<lparr>cfg_RelayURL := bc_RelayURL boot, cfg_Token := bs_WorkerToken st, cfg_WorkerID := bs_WorkerID st,
      cfg_WorkspaceRoot := bc_WorkspaceRoot boot, cfg_HostWorkspaceRoot := bc_HostWorkspaceRoot boot,
      cfg_HostStateRoot := bc_HostStateRoot boot, cfg_StateDir := bc_StateDir boot,
      cfg_LogRoot := bc_LogRoot boot, cfg_Labels := bc_Labels boot\<rparr>"

text \<open>The proxy of a request of the client: the environment's, unless the host is bypassed. \<open>fromEnv\<close> is the
  library's reading of the environment for a host.\<close>

definition newBootstrapHTTPClient ::
  "(string \<Rightarrow> string + url) \<Rightarrow> (string \<Rightarrow> string + string option) \<Rightarrow> string \<Rightarrow> string \<Rightarrow> string + string option" where
  "newBootstrapHTTPClient parse fromEnv baseURL requestHost =
     (let targetHost = (case parse baseURL of Inl _ \<Rightarrow> '''' | Inr u \<Rightarrow> to_lower (trim_space (url_Hostname u))) in
      case fromEnv requestHost of
        Inl e \<Rightarrow> Inl e
      | Inr None \<Rightarrow> Inr None
      | Inr (Some proxy) \<Rightarrow>
          if shouldBypassProxy requestHost targetHost then Inr None else Inr (Some proxy))"

definition httpStatusError :: "string \<Rightarrow> string \<Rightarrow> string \<Rightarrow> nat \<Rightarrow> string \<Rightarrow> string" where
  "httpStatusError pre meth reqURL code body =
     (let message = trim_space (take 2048 body);
          head = pre @ '': '' @ meth @ '' '' @ reqURL @ '' -> status='' @ dec_of_nat code
      in if message = '''' then head else head @ '' body='' @ go_quote message)"

subsection \<open>Enrolling\<close>

definition enroll ::
  "string \<Rightarrow> BootstrapConfig \<Rightarrow> (string \<times> string) http_reply \<Rightarrow> string option \<Rightarrow> bootstrapState
    \<Rightarrow> (string + bootstrapState) \<times> boot_call list" where
  "enroll baseURL boot reply writeErr st =
     (if bc_EnrollToken boot = '''' then (Inl ''enroll_token is required for first bootstrap'', [])
      else
        (let call = CallEnroll (baseURL @ ''/v1/worker/enroll'') \<lparr>er_EnrollToken = bc_EnrollToken boot, er_WorkerID = bs_WorkerID st,
                                er_Labels = bc_Labels boot\<rparr> in
         case reply of
           NoReply e \<Rightarrow> (Inl e, [call])
         | BadStatus code body \<Rightarrow>
             (Inl (httpStatusError ''enroll failed'' ''POST'' (baseURL @ ''/v1/worker/enroll'') code body), [call])
         | BadBody e \<Rightarrow> (Inl e, [call])
         | Reply (wid, tok) \<Rightarrow>
             (let st = \<lparr>bs_WorkerID = wid, bs_WorkerToken = tok\<rparr> in
              (case writeErr of None \<Rightarrow> Inr st | Some e \<Rightarrow> Inl e, [call, CallWriteState st]))))"

subsection \<open>Pairing\<close>

text \<open>
  The loop that waits for the approval, driven by what each round meets: the context is cancelled,
  the gateway does not answer, or it answers with a status and, decoded as far as it decodes, a body.
\<close>

datatype poll_event = PollCancelled string | PollNoReply | PollReply nat string string

datatype poll_end = PollFailed string | PollApproved string

fun poll_approval :: "poll_event list \<Rightarrow> poll_end option" where
  "poll_approval [] = None"
| "poll_approval (PollCancelled e # es) = Some (PollFailed e)"
| "poll_approval (PollNoReply # es) = poll_approval es"
| "poll_approval (PollReply code status tok # es) =
     (if code = 401 then Some (PollFailed ''pairing request unauthorized (secret mismatch?)'')
      else if code = 404 then Some (PollFailed ''pairing request not found (rejected or expired?)'')
      else if code \<noteq> 200 then poll_approval es
      else if status = ''approved'' then Some (PollApproved tok)
      else if status = ''rejected'' then Some (PollFailed ''pairing request rejected'')
      else if status = ''expired'' then Some (PollFailed ''pairing request expired'')
      else poll_approval es)"

text \<open>Rounds the loop takes, each with a poll except a cancelled one.\<close>

fun polls_made :: "poll_event list \<Rightarrow> nat" where
  "polls_made [] = 0"
| "polls_made (PollCancelled e # es) = 0"
| "polls_made (p # es) = Suc (if poll_approval [p] = None then polls_made es else 0)"

text \<open>\<^verbatim>\<open>None\<close>: still waiting.\<close>

definition pair ::
  "string \<Rightarrow> string \<Rightarrow> string \<Rightarrow> BootstrapConfig \<Rightarrow> (string \<times> string \<times> string) http_reply \<Rightarrow> poll_event list
    \<Rightarrow> string option \<Rightarrow> bootstrapState \<Rightarrow> (string + bootstrapState) option \<times> boot_call list" where
  "pair baseURL hostname hostInfo boot reply polls writeErr st =
     (let call = CallPair (baseURL @ ''/v1/worker/pairing'') \<lparr>psr_WorkerName = hostname, psr_HostInfo = hostInfo, psr_Labels = bc_Labels boot\<rparr> in
      case reply of
        NoReply e \<Rightarrow> (Some (Inl e), [call])
      | BadStatus code body \<Rightarrow>
          (Some (Inl (httpStatusError ''pairing request failed'' ''POST'' (baseURL @ ''/v1/worker/pairing'') code body)), [call])
      | BadBody e \<Rightarrow> (Some (Inl e), [call])
      | Reply (rid, userCode, secret) \<Rightarrow>
          (let calls = [call] @ replicate (polls_made polls) (CallPoll (baseURL @ ''/v1/worker/pairing/'' @ rid) secret) in
           case poll_approval polls of
             None \<Rightarrow> (None, calls)
           | Some (PollFailed e) \<Rightarrow> (Some (Inl e), calls)
           | Some (PollApproved tok) \<Rightarrow>
               (let st = st\<lparr>bs_WorkerToken := tok\<rparr> in
                (Some (case writeErr of None \<Rightarrow> Inr st | Some e \<Rightarrow> Inl e), calls @ [CallWriteState st]))))"

subsection \<open>Bootstrapping\<close>

text \<open>What the host and the gateway answer. A state file that cannot be read is \<^verbatim>\<open>None\<close>.\<close>

record boot_world =
  bw_home :: string
  bw_tmp :: string
  bw_mkdir :: "string option"
  bw_state :: "bootstrapState option"
  bw_hostname :: string
  bw_hostinfo :: string
  bw_enroll :: "(string \<times> string) http_reply"
  bw_pair :: "(string \<times> string \<times> string) http_reply"
  bw_polls :: "poll_event list"
  bw_write :: "string option"

definition state_dir :: "boot_world \<Rightarrow> BootstrapConfig \<Rightarrow> string" where
  "state_dir w boot =
     (if bc_StateDir boot = ''''
      then Join [if bw_home w = '''' then bw_tmp w else bw_home w, ''.nano-cloud'', ''state'']
      else bc_StateDir boot)"

definition initial_state :: "boot_world \<Rightarrow> BootstrapConfig \<Rightarrow> bootstrapState" where
  "initial_state w boot =
     (let st = (case bw_state w of None \<Rightarrow> \<lparr>bs_WorkerID = '''', bs_WorkerToken = ''''\<rparr> | Some st \<Rightarrow> st)
      in if bs_WorkerID st = '''' then st\<lparr>bs_WorkerID := bc_WorkerID boot\<rparr> else st)"

text \<open>Reuse the token, enroll or pair.\<close>

definition obtain_token ::
  "string \<Rightarrow> boot_world \<Rightarrow> BootstrapConfig \<Rightarrow> bootstrapState \<Rightarrow> (string + bootstrapState) option \<times> boot_call list" where
  "obtain_token baseURL w boot st =
     (if bs_WorkerToken st \<noteq> '''' then (Some (Inr st), [])
      else if bc_EnrollToken boot \<noteq> ''''
      then (let (res, calls) = enroll baseURL boot (bw_enroll w) (bw_write w) st in (Some res, calls))
      else pair baseURL (bw_hostname w) (bw_hostinfo w) boot (bw_pair w) (bw_polls w) (bw_write w) st)"

definition BootstrapFromRemote ::
  "(string \<Rightarrow> string + url) \<Rightarrow> (url \<Rightarrow> string) \<Rightarrow> boot_world \<Rightarrow> BootstrapConfig
    \<Rightarrow> (string + Config) option \<times> boot_call list" where
  "BootstrapFromRemote parse show w boot =
     (if bc_RelayURL boot = '''' then (Some (Inl ''relay_url is required''), [])
      else
        (let stateDir = state_dir w boot in
         case bw_mkdir w of Some e \<Rightarrow> (Some (Inl e), [CallMkdir stateDir])
         | None \<Rightarrow>
             (let boot = boot\<lparr>bc_StateDir := stateDir\<rparr> in
              case httpBaseURLFromRelayURL parse (bc_RelayURL boot) of
                Inl e \<Rightarrow> (Some (Inl e), [CallMkdir stateDir])
              | Inr u \<Rightarrow>
                  (let baseURL = trim_right_chars {CHR ''/''} (show u);
                       (res, calls) = obtain_token baseURL w boot (initial_state w boot)
                   in (map_option (map_sum (\<lambda>e. e) (\<lambda>st. buildConfigFromBootstrap st boot)) res,
                       CallMkdir stateDir # calls)))))"

subsection \<open>One address for both clients\<close>

text \<open>The web socket and the pairing requests of a worker go to the same host and port: for every
  relay URL that the pairing client accepts, and whose host and port carry no white space, the dialled
  URL has the host of the base URL, the path of the connect endpoint, and an explicit port, 8081 where
  the relay URL names none.\<close>

theorem relay_hosts_agree:
  assumes "parse (cfg_RelayURL cfg) = Inr u" "httpBaseURLFromRelayURL parse (cfg_RelayURL cfg) = Inr b"
    and "trim_space (url_Hostname u) = url_Hostname u" "trim_space (url_Port u) = url_Port u"
  shows "\<exists>v auth. dial parse cfg = Inr (v, auth) \<and> u_Host v = u_Host b
    \<and> u_Path v = ''/v1/worker/connect'' \<and> url_Port v = (if url_Port u = '''' then ''8081'' else url_Port u)"
proof -
  have h: "url_Hostname u \<noteq> ''''"
    and b: "u_Host b = (if url_Port u = '''' then JoinHostPort (url_Hostname u) ''8081'' else u_Host u)"
    using assms by (auto simp: httpBaseURLFromRelayURL_def Let_def split: if_splits)
  with dial_ok [of parse cfg u] assms(1) h show ?thesis by metis
qed

definition demo_parse :: "string \<Rightarrow> string + url" where
  "demo_parse s = Inr \<lparr>u_Scheme = ''ws'', u_Host = s, u_Path = '''', u_RawQuery = '''', u_Fragment = ''''\<rparr>"

lemma relay_hosts_agree_witness:
  "\<exists>v auth. dial demo_parse (empty_config\<lparr>cfg_RelayURL := ''gate''\<rparr>) = Inr (v, auth) \<and> u_Host v = ''gate:8081''"
proof -
  define cfg where "cfg = empty_config\<lparr>cfg_RelayURL := ''gate''\<rparr>"
  define u where "u = \<lparr>u_Scheme = ''ws'', u_Host = ''gate'', u_Path = '''', u_RawQuery = '''', u_Fragment = ''''\<rparr>"
  define b where "b = \<lparr>u_Scheme = ''http'', u_Host = ''gate:8081'', u_Path = '''', u_RawQuery = '''', u_Fragment = ''''\<rparr>"
  have 1: "demo_parse (cfg_RelayURL cfg) = Inr u" unfolding cfg_def u_def by code_simp
  have 2: "httpBaseURLFromRelayURL demo_parse (cfg_RelayURL cfg) = Inr b" unfolding cfg_def b_def by code_simp
  have 3: "trim_space (url_Hostname u) = url_Hostname u" "trim_space (url_Port u) = url_Port u"
    unfolding u_def by code_simp+
  have 4: "u_Host b = ''gate:8081''" by (simp add: b_def)
  show ?thesis using relay_hosts_agree [OF 1 2 3] unfolding 4 cfg_def by auto
qed

subsection \<open>What a bootstrap leaves behind\<close>

lemma poll_token: "poll_approval es = Some (PollApproved tok) \<Longrightarrow> \<exists>code status. PollReply code status tok \<in> set es \<and> code = 200 \<and> status = ''approved''"
  by (induction es rule: poll_approval.induct) (auto split: if_splits)

lemma enroll_ok:
  assumes "enroll baseURL boot reply writeErr st = (Inr st', calls)"
  shows "writeErr = None \<and> calls \<noteq> [] \<and> last calls = CallWriteState st'"
  using assms by (auto simp: enroll_def Let_def split: if_splits http_reply.splits option.splits prod.splits)

lemma pair_ok:
  assumes "pair baseURL hostname hostInfo boot reply polls writeErr st = (Some (Inr st'), calls)"
  shows "writeErr = None \<and> calls \<noteq> [] \<and> last calls = CallWriteState st' \<and> bs_WorkerID st' = bs_WorkerID st
    \<and> (\<exists>code status. PollReply code status (bs_WorkerToken st') \<in> set polls \<and> code = 200 \<and> status = ''approved'')"
  using assms poll_token [of polls]
  by (auto simp: pair_def Let_def split: if_splits http_reply.splits option.splits prod.splits poll_end.splits)

lemma obtain_token_ok:
  assumes "obtain_token baseURL w boot st = (Some (Inr st'), calls)"
  shows "(bs_WorkerToken st \<noteq> '''' \<and> st' = st \<and> calls = [])
     \<or> (bs_WorkerToken st = '''' \<and> bw_write w = None \<and> calls \<noteq> [] \<and> last calls = CallWriteState st'
        \<and> (bc_EnrollToken boot = '''' \<longrightarrow> bs_WorkerID st' = bs_WorkerID st
              \<and> PollReply 200 ''approved'' (bs_WorkerToken st') \<in> set (bw_polls w)))"
  using assms enroll_ok pair_ok by (auto simp: obtain_token_def split: if_splits prod.splits)

text \<open>Every request goes to the base URL, and a token that is not reused is in the reply to one of them.\<close>

definition answered_with :: "boot_world \<Rightarrow> string \<Rightarrow> bool" where
  "answered_with w tok \<longleftrightarrow> (\<exists>wid. bw_enroll w = Reply (wid, tok)) \<or> PollReply 200 ''approved'' tok \<in> set (bw_polls w)"

lemma obtain_token_urls:
  assumes "obtain_token baseURL w boot st = (res, calls)"
  shows "\<forall>url \<in> set (List.map_filter call_url calls). \<exists>path. url = baseURL @ ''/v1/worker/'' @ path"
    and "res = Some (Inr st') \<Longrightarrow> bs_WorkerToken st = '''' \<Longrightarrow>
      List.map_filter call_url calls \<noteq> [] \<and> answered_with w (bs_WorkerToken st')"
  using assms poll_token
  by (fastforce simp: obtain_token_def enroll_def pair_def Let_def List.map_filter_def answered_with_def
      split: if_splits http_reply.splits option.splits prod.splits poll_end.splits)+

lemma map_sum_Inr_iff: "map_sum f g r = Inr y \<longleftrightarrow> (\<exists>x. r = Inr x \<and> y = g x)"
  by (cases r) auto

lemma bootstrap_ok:
  assumes "BootstrapFromRemote parse show w boot = (Some (Inr cfg), calls)"
  obtains u st more where "httpBaseURLFromRelayURL parse (bc_RelayURL boot) = Inr u"
    "obtain_token (trim_right_chars {CHR ''/''} (show u)) w (boot\<lparr>bc_StateDir := state_dir w boot\<rparr>)
        (initial_state w (boot\<lparr>bc_StateDir := state_dir w boot\<rparr>)) = (Some (Inr st), more)"
    "calls = CallMkdir (state_dir w boot) # more"
    "cfg = buildConfigFromBootstrap st (boot\<lparr>bc_StateDir := state_dir w boot\<rparr>)"
  using assms
  by (auto simp: BootstrapFromRemote_def Let_def map_sum_Inr_iff split: if_splits option.splits sum.splits prod.splits)

text \<open>C28: A worker is configured only with a token it keeps: a bootstrap that succeeds either reuses
  the identity and token of its state file and asks the gateway nothing, or its last call has written,
  without an error, a state that holds exactly the identity and token of the configuration; and a token
  from pairing is one the gateway handed out under the status approved.\<close>

theorem bootstrap_token_is_durable:
  assumes "BootstrapFromRemote parse show w boot = (Some (Inr cfg), calls)"
  shows "(\<exists>st d. bw_state w = Some st \<and> bs_WorkerToken st \<noteq> '''' \<and> cfg_Token cfg = bs_WorkerToken st
            \<and> cfg_WorkerID cfg = (if bs_WorkerID st = '''' then bc_WorkerID boot else bs_WorkerID st)
            \<and> calls = [CallMkdir d])
    \<or> (bw_write w = None \<and> last calls = CallWriteState \<lparr>bs_WorkerID = cfg_WorkerID cfg, bs_WorkerToken = cfg_Token cfg\<rparr>
        \<and> (bc_EnrollToken boot = '''' \<longrightarrow> PollReply 200 ''approved'' (cfg_Token cfg) \<in> set (bw_polls w)))"
proof -
  define boot' where "boot' = boot\<lparr>bc_StateDir := state_dir w boot\<rparr>"
  obtain u st more where o: "obtain_token (trim_right_chars {CHR ''/''} (show u)) w boot' (initial_state w boot')
      = (Some (Inr st), more)"
    and c: "calls = CallMkdir (state_dir w boot) # more" "cfg = buildConfigFromBootstrap st boot'"
    using bootstrap_ok [OF assms] unfolding boot'_def by metis
  have st: "(\<lparr>bs_WorkerID = cfg_WorkerID cfg, bs_WorkerToken = cfg_Token cfg\<rparr> :: bootstrapState) = st"
    "cfg_WorkerID cfg = bs_WorkerID st" "cfg_Token cfg = bs_WorkerToken st"
    by (simp_all add: c(2) buildConfigFromBootstrap_def)
  have b: "bc_EnrollToken boot' = bc_EnrollToken boot" "bc_WorkerID boot' = bc_WorkerID boot" by (simp_all add: boot'_def)
  from obtain_token_ok [OF o] show ?thesis
    unfolding st(1) by (auto simp: c(1) st(2,3) b initial_state_def Let_def split: option.splits if_splits)
qed

definition demo_boot :: BootstrapConfig where
  "demo_boot = \<lparr>bc_RelayURL = ''gate'', bc_EnrollToken = '''', bc_WorkspaceRoot = ''/w'', bc_HostWorkspaceRoot = '''',
     bc_HostStateRoot = '''', bc_StateDir = ''/s'', bc_LogRoot = '''', bc_Labels = [], bc_WorkerID = ''''\<rparr>"

definition demo_boot_world :: boot_world where
  "demo_boot_world = \<lparr>bw_home = ''/root'', bw_tmp = ''/tmp'', bw_mkdir = None, bw_state = None, bw_hostname = ''box'',
     bw_hostinfo = ''linux/amd64'', bw_enroll = NoReply ''down'', bw_pair = Reply (''r1'', ''ABCD'', ''s1''),
     bw_polls = [PollReply 200 ''pending'' '''', PollNoReply, PollReply 200 ''approved'' ''t1''], bw_write = None\<rparr>"

definition demo_paired :: Config where
  "demo_paired = empty_config\<lparr>cfg_RelayURL := ''gate'', cfg_Token := ''t1'', cfg_WorkspaceRoot := ''/w'', cfg_StateDir := ''/s''\<rparr>"

lemma demo_bootstrap: "BootstrapFromRemote demo_parse u_Host demo_boot_world demo_boot =
  (Some (Inr demo_paired),
   [CallMkdir ''/s'', CallPair ''gate:8081/v1/worker/pairing'' \<lparr>psr_WorkerName = ''box'', psr_HostInfo = ''linux/amd64'', psr_Labels = []\<rparr>,
    CallPoll ''gate:8081/v1/worker/pairing/r1'' ''s1'', CallPoll ''gate:8081/v1/worker/pairing/r1'' ''s1'',
    CallPoll ''gate:8081/v1/worker/pairing/r1'' ''s1'',
    CallWriteState \<lparr>bs_WorkerID = '''', bs_WorkerToken = ''t1''\<rparr>])"
proof -
  have u: "httpBaseURLFromRelayURL demo_parse ''gate'' =
    Inr \<lparr>u_Scheme = ''http'', u_Host = ''gate:8081'', u_Path = '''', u_RawQuery = '''', u_Fragment = ''''\<rparr>" by code_simp
  have "trim_right_chars {CHR ''/''} ''gate:8081'' = ''gate:8081''" by code_simp
  then show ?thesis
    by (simp add: BootstrapFromRemote_def demo_boot_def demo_boot_world_def u pair_def obtain_token_def
        initial_state_def state_dir_def buildConfigFromBootstrap_def demo_paired_def Let_def empty_config_def)
qed

lemma bootstrap_token_is_durable_witness:
  "PollReply 200 ''approved'' (cfg_Token demo_paired) \<in> set (bw_polls demo_boot_world)"
proof -
  have n: "bw_state demo_boot_world = None" "bc_EnrollToken demo_boot = ''''"
    by (simp_all add: demo_boot_world_def demo_boot_def)
  show ?thesis using bootstrap_token_is_durable [OF demo_bootstrap] n by simp
qed

end
