(* ===== verification/RunEvents.thy ===== *)
theory RunEvents
  imports WorkerProps
begin

text \<open>
  The types of the events a worker sends: an event has a kind and, in a oneof, a payload, and
  nothing in the message format ties them together. The gateway ends a stream by the kind, its
  console reads the payload. Here every event that any interleaving of the worker's goroutines sends
  has the kind of its payload, and the errors carry only the codes of the table of exit codes.
\<close>

fun payload_kind :: "RunEvent_Payload \<Rightarrow> EventKind" where
  "payload_kind (RunEvent_Status _ _) = EVENT_KIND_STATUS"
| "payload_kind (RunEvent_AssistantDelta _) = EVENT_KIND_ASSISTANT_DELTA"
| "payload_kind (RunEvent_ToolCall _ _ _) = EVENT_KIND_TOOL_CALL"
| "payload_kind (RunEvent_ToolResult _ _ _ _ _) = EVENT_KIND_TOOL_RESULT"
| "payload_kind (RunEvent_RequiresApproval _ _ _ _) = EVENT_KIND_REQUIRES_APPROVAL"
| "payload_kind (RunEvent_Completed _) = EVENT_KIND_COMPLETED"
| "payload_kind (RunEvent_Error _) = EVENT_KIND_ERROR"
| "payload_kind (RunEvent_Artifact _) = EVENT_KIND_ARTIFACT"

fun known_error :: "RunEvent_Payload \<Rightarrow> bool" where
  "known_error (RunEvent_Error x) = (err_Code x \<in> fst ` set exit_table)"
| "known_error _ = True"

definition event_typed :: "RunEvent \<Rightarrow> bool" where
  "event_typed e = (case ev_Payload e of None \<Rightarrow> False | Some p \<Rightarrow> ev_Kind e = payload_kind p \<and> known_error p)"

lemma built_events_typed [simp]:
  "event_typed (status_event s d)" "event_typed (completed_event b x j)" "event_typed (delta_event t)"
  "event_typed (error_event c m) \<longleftrightarrow> c \<in> fst ` set exit_table"
  by (simp_all add: event_typed_def status_event_def completed_event_def delta_event_def error_event_def)

lemma event_typed_payload:
  assumes "event_typed e"
  shows "ev_Kind e = EVENT_KIND_COMPLETED \<longleftrightarrow> GetCompleted e \<noteq> None"
    and "GetError e = Some x \<Longrightarrow> err_Code x \<in> fst ` set exit_table"
  using assms by (auto simp: event_typed_def GetCompleted_def GetError_def
      split: option.splits RunEvent_Payload.splits)

subsection \<open>Programs that send typed events\<close>

definition type_monitor :: "unit monitor" where
  "type_monitor = \<lparr>mo_assume = (\<lambda>_ _. True),
     mo_check = (\<lambda>_ l. case l of LSend e \<Rightarrow> event_typed e | _ \<Rightarrow> True),
     mo_next = (\<lambda>_ _. ()), mo_final = (\<lambda>_. True)\<rparr>"

lemma type_observe [simp]:
  "observe type_monitor u l rest \<longleftrightarrow> (case l of LSend e \<Rightarrow> event_typed e | _ \<Rightarrow> True) \<and> rest ()"
  by (simp add: observe_def type_monitor_def)

lemma type_final [simp]: "mo_final type_monitor u" "conforms type_monitor Halt u"
  by (simp_all add: conforms.simps type_monitor_def)

lemma exit_code_known: "(code, exitCode) \<in> set exit_table \<Longrightarrow> code \<in> fst ` set exit_table"
  by (rule image_eqI [of _ _ "(code, exitCode)"]) simp_all

interpretation typed_quiet: blind_monitor type_monitor u for u
  by unfold_locales (auto simp: quiet_label_def type_monitor_def split: label.splits)

lemma type_next [simp]: "mo_next type_monitor u l = ()" "mo_check type_monitor u (LSys c r)"
  by (simp_all add: type_monitor_def)

interpretation typed: run_monitor type_monitor u "\<lambda>_. u" s "\<lambda>_. True" for u s
proof
qed (auto simp: prog_defs conforms.simps exit_table_def intro: typed_quiet.blind_monitor_axioms split: option.split)

lemma cancel_typed: "conforms type_monitor (handleCancel reason) u"
proof -
  have load: "(\<And>rs. conforms type_monitor (k rs) ()) \<Longrightarrow> conforms type_monitor (Load k) u" for k u
    by (simp add: conforms.simps)
  have stop: "conforms type_monitor p u \<Longrightarrow> conforms type_monitor (stop_and_remove pr p) u" for pr p u
    unfolding stop_and_remove_def by (auto intro!: typed.pieces split: option.split)
  have last: "conforms type_monitor (sendCompleted b x j Halt) u" for b x j u
    by (simp add: sendCompleted_def conforms.simps)
  show ?thesis
    unfolding handleCancel_def kill_logs_def kill_exec_def
    by (auto simp: conforms.simps(4,7,8) intro!: load stop typed.pieces last split: if_splits)
qed

subsection \<open>The worker\<close>

text \<open>Every goroutine sends typed events from here on, and what was sent is typed.\<close>

definition typed_state :: "system \<Rightarrow> bool" where
  "typed_state S \<longleftrightarrow>
     (\<forall>t \<in> set (sy_threads S). conforms type_monitor (th_prog t) ())
   \<and> (\<forall>(a, env) \<in> set (w_out (sy_world S)). \<exists>ev. GetRunEvent env = Some ev \<and> event_typed ev)"

lemma GetRunEvent_envelope [simp]: "GetRunEvent (run_envelope cfg s n e) = Some e"
  by (simp add: GetRunEvent_def run_envelope_def)

lemma send_typed:
  assumes "typed_state S" "event_typed e" "w = sy_world S"
  shows "typed_state (S\<lparr>sy_world := sendRunEvent a s e w\<rparr>)"
  using assms by (auto simp: typed_state_def sendRunEvent_def Let_def run_envelope_def GetRunEvent_def)

lemma perform_typed:
  assumes "typed_state S" "perform s a l (sy_world S) = Some (a', w')"
    and "\<And>e. l = LSend e \<Longrightarrow> event_typed e"
  shows "typed_state (S\<lparr>sy_world := w'\<rparr>)"
proof (cases "\<exists>e. l = LSend e")
  case True
  with assms show ?thesis by (auto intro: send_typed)
next
  case False
  with assms(2) have "w_out w' = w_out (sy_world S)"
    by (cases l) (auto simp: upd_rs_def split: option.splits if_splits)
  with assms(1) show ?thesis by (simp add: typed_state_def)
qed

lemma threads_typed:
  "typed_state S \<Longrightarrow> \<forall>t \<in> set ts. conforms type_monitor (th_prog t) () \<Longrightarrow> typed_state (S\<lparr>sy_threads := ts\<rparr>)"
  by (simp add: typed_state_def)

lemma spawn_typed:
  "typed_state S \<Longrightarrow> conforms type_monitor p () \<Longrightarrow> typed_state (spawn s b p S)"
  by (auto simp: typed_state_def spawn_def Let_def upd_rs_def)

lemma step_typed:
  assumes "typed_state S" "act_step (handleRunRequest getenv readFile startedAt) x S = Some S'"
  shows "typed_state S'"
proof (cases x)
  case (Step i l)
  with assms(2) obtain p a w where i: "i < length (sy_threads S)"
    and p: "step_prog (th_prog (sy_threads S ! i)) l = Some p"
    and w: "perform (th_stream (sy_threads S ! i)) (th_rs (sy_threads S ! i)) l (sy_world S) = Some (a, w)"
    and S': "S' = S\<lparr>sy_world := w, sy_threads := (sy_threads S)[i := (sy_threads S ! i)\<lparr>th_rs := a, th_prog := p\<rparr>]\<rparr>"
    by (auto simp: Let_def split: option.splits if_splits)
  have c: "conforms type_monitor (th_prog (sy_threads S ! i)) ()" using assms(1) i by (simp add: typed_state_def)
  have step: "mo_check type_monitor () l \<and> conforms type_monitor p ()"
    using conforms_step [OF c p] by (simp add: type_monitor_def)
  then have "event_typed e" if "l = LSend e" for e using that by (simp add: type_monitor_def)
  then have "typed_state (S\<lparr>sy_world := w\<rparr>)"
    using perform_typed [OF assms(1) w] by blast
  moreover have "\<forall>t \<in> set ((sy_threads S)[i := (sy_threads S ! i)\<lparr>th_rs := a, th_prog := p\<rparr>]).
      conforms type_monitor (th_prog t) ()"
    using step assms(1) set_update_subset_insert by (fastforce simp: typed_state_def)
  ultimately show ?thesis unfolding S' using threads_typed by fastforce
next
  case (AgentLine a isErr line)
  with assms show ?thesis
    by (auto simp: agent_line_def Let_def split: if_splits intro: send_typed)
next
  case ConnLost
  with assms show ?thesis by (auto simp: typed_state_def)
qed (use assms in \<open>auto intro!: spawn_typed typed.handler cancel_typed\<close>)

lemma run_typed:
  "acts_run (handleRunRequest getenv readFile startedAt) xs S = Some S' \<Longrightarrow> typed_state S \<Longrightarrow> typed_state S'"
  by (induction xs arbitrary: S) (auto split: option.splits dest: step_typed)

lemma start_typed: "typed_state (start_system cfg)"
  by (simp add: typed_state_def start_system_def)

text \<open>C10: Every message a worker sends for a run is well typed, in every interleaving of its goroutines,
  agents' output and losses of the connection: it is a run event with a payload of its kind, so that
  the stream the gateway ends by the kind is the one whose completion its console reads from the
  payload; and an error has one of the codes of the exit table.\<close>

theorem worker_events_typed:
  assumes "acts_run (handleRunRequest getenv readFile startedAt) xs (start_system cfg) = Some S"
    and "(a, env) \<in> set (w_out (sy_world S))"
  shows "\<exists>ev. GetRunEvent env = Some ev \<and> event_typed ev
      \<and> (completes env \<longleftrightarrow> GetCompleted ev \<noteq> None)
      \<and> (\<forall>x. GetError ev = Some x \<longrightarrow> err_Code x \<in> fst ` set exit_table)"
proof -
  obtain ev where ev: "GetRunEvent env = Some ev" "event_typed ev"
    using run_typed [OF assms(1) start_typed] assms(2) unfolding typed_state_def by blast
  with event_typed_payload [OF ev(2)] show ?thesis by (auto simp: completes_def)
qed

lemma worker_events_typed_witness:
  "\<exists>S a env ev. acts_run demo_handler demo_acts (start_system demo_config) = Some S
     \<and> (a, env) \<in> set (w_out (sy_world S)) \<and> GetRunEvent env = Some ev \<and> event_typed ev"
proof -
  obtain S where S: "acts_run demo_handler demo_acts (start_system demo_config) = Some S"
    by (rule demo_reached)
  have "\<not> (case acts_run demo_handler demo_acts (start_system demo_config) of None \<Rightarrow> True
      | Some S \<Rightarrow> w_out (sy_world S) = [])" by code_simp
  with S obtain a env where e: "(a, env) \<in> set (w_out (sy_world S))" by (cases "w_out (sy_world S)") auto
  from worker_events_typed [OF S [unfolded demo_handler_def] e] S e show ?thesis by blast
qed

end
