(* ===== verification/Wrappers.thy ===== *)
theory Wrappers
  imports RuntimeSpec GatewayAuth
begin

text \<open>
  The programs inside the containers: \<^verbatim>\<open>cmd/runtime-nano-agent\<close>,
  \<^verbatim>\<open>cmd/runtime-cli\<close> and \<^verbatim>\<open>cmd/runtime-cli-wrapper\<close>. They read what the
  worker has put into the environment and start the agent. The agent library, the YAML decoder and
  the operating system are arguments; \<^verbatim>\<open>strings.Fields\<close>, \<^verbatim>\<open>os.Expand\<close>
  and \<^verbatim>\<open>bufio.Scanner\<close> are modelled.
\<close>

subsection \<open>Environments\<close>

type_synonym env = "(string \<times> string) list"

definition Getenv :: "env \<Rightarrow> string \<Rightarrow> string" where
  "Getenv e k = (case map_of e k of None \<Rightarrow> '''' | Some v \<Rightarrow> v)"

text \<open>\<^verbatim>\<open>os.Setenv\<close> refuses an empty name, a name with an equals sign, and NUL bytes.\<close>

definition Setenv :: "string \<Rightarrow> string \<Rightarrow> env \<Rightarrow> env" where
  "Setenv k v e =
     (if k = '''' \<or> CHR ''='' \<in> set k \<or> CHR 0x00 \<in> set k \<or> CHR 0x00 \<in> set v then e else AList.update k v e)"

lemma Getenv_update [simp]: "Getenv (AList.update k v e) k' = (if k' = k then v else Getenv e k')"
  by (simp add: Getenv_def)

subsection \<open>strings.Fields\<close>

fun take_word :: "string \<Rightarrow> string \<times> string" where
  "take_word [] = ([], [])"
| "take_word (c # cs) =
     (if space_len (c # cs) > 0 then ([], c # cs) else (let (w, r) = take_word cs in (c # w, r)))"

lemma take_word_append: "take_word s = (w, r) \<Longrightarrow> s = w @ r"
  by (induction s arbitrary: w r) (auto split: if_splits prod.splits)

lemma trim_left_length: "length (trim_left s) \<le> length s"
proof (induction s rule: trim_left.induct)
  case (1 s)
  then show ?case by (subst trim_left.simps) (auto simp: le_diff_conv)
qed

lemma trim_left_no_space: "space_len (trim_left s) = 0"
proof (induction s rule: trim_left.induct)
  case (1 s)
  then show ?case by (subst trim_left.simps) auto
qed

function strings_fields :: "string \<Rightarrow> string list" where
  "strings_fields s =
     (let t = trim_left s in
      if t = '''' then [] else (let (w, r) = take_word t in w # strings_fields r))"
  by pat_completeness auto
termination
proof (relation "measure length")
  fix s t wr w r
  assume t: "t = trim_left s" "t \<noteq> ''''" and w: "wr = take_word t" "(w, r) = wr"
  from t(2) obtain c cs where c: "t = c # cs" by (cases t) auto
  with trim_left_no_space [of s] t(1) have "space_len (c # cs) = 0" by simp
  with w c have "w \<noteq> []" by (auto split: prod.splits)
  moreover have "t = w @ r" using take_word_append [of t w r] w by simp
  ultimately have "length r < length t" by (cases w) auto
  with trim_left_length [of s] t(1) show "(r, s) \<in> measure length" by simp
qed simp

declare strings_fields.simps [simp del]

subsection \<open>os.Expand\<close>

definition shell_special :: "char \<Rightarrow> bool" where
  "shell_special c \<longleftrightarrow> c \<in> set ''*#$@!?-'' \<or> is_digit c"

definition alpha_num :: "char \<Rightarrow> bool" where
  "alpha_num c \<longleftrightarrow> c = CHR ''_'' \<or> is_digit c \<or> ascii_letter c"

text \<open>The name after a dollar sign and the number of bytes it takes; \<open>s\<close> is not empty.\<close>

definition shell_name :: "string \<Rightarrow> string \<times> nat" where
  "shell_name s =
     (if hd s = CHR ''{'' then
        (if length s > 2 \<and> shell_special (s ! 1) \<and> s ! 2 = CHR ''}'' then ([s ! 1], 3)
         else (case find_index (\<lambda>c. c = CHR ''}'') (tl s) of
                 None \<Rightarrow> ('''', 1)
               | Some i \<Rightarrow> if i = 0 then ('''', 2) else (take i (tl s), i + 2)))
      else if shell_special (hd s) then ([hd s], 1)
      else (takeWhile alpha_num s, length (takeWhile alpha_num s)))"

function os_expand :: "(string \<Rightarrow> string) \<Rightarrow> string \<Rightarrow> string" where
  "os_expand m [] = []"
| "os_expand m (c # cs) =
     (if c = CHR ''$'' \<and> cs \<noteq> [] then
        (let (name, w) = shell_name cs in
         (if name = '''' \<and> w > 0 then '''' else if name = '''' then [c] else m name) @ os_expand m (drop w cs))
      else c # os_expand m cs)"
  by pat_completeness auto
termination by (relation "measure (length \<circ> snd)") auto

lemma os_expand_plain: "CHR ''$'' \<notin> set s \<Longrightarrow> os_expand m s = s"
  by (induction s) auto

lemma os_expand_braces:
  assumes "k \<noteq> ''''" "CHR ''}'' \<notin> set k"
  shows "os_expand m (''${'' @ k @ ''}'' @ rest) = m k @ os_expand m rest"
proof -
  obtain c cs where k: "k = c # cs" using assms(1) by (cases k) auto
  have i: "find_index (\<lambda>c. c = CHR ''}'') (k @ CHR ''}'' # rest) = Some (length k)"
    using assms(2) by (induction k) auto
  have "shell_name (CHR ''{'' # k @ CHR ''}'' # rest) = (k, length k + 2)"
  proof (cases "shell_special c \<and> cs = []")
    case True
    then show ?thesis by (simp add: shell_name_def k)
  next
    case False
    then have "\<not> (shell_special c \<and> (cs @ CHR ''}'' # rest) ! 0 = CHR ''}'')"
      using assms(2) by (cases cs) (auto simp: k)
    with i show ?thesis by (auto simp: shell_name_def k)
  qed
  then show ?thesis using assms(1) by simp
qed

subsection \<open>runtime-nano-agent\<close>

text \<open>What the agent is called with. The approval handler gives every tool call the same answer.\<close>

record agent_call =
  ac_approve :: bool
  ac_timeout :: int
  ac_session :: string
  ac_prompt :: string

definition second_ns :: int where "second_ns = 1000000000"

definition agent_timeout :: "env \<Rightarrow> int" where
  "agent_timeout e =
     (let v = trim_space (Getenv e ''TIMEOUT_SECONDS'') in
      if v = '''' then 300
      else (case atoi v of None \<Rightarrow> 300 | Some parsed \<Rightarrow> if parsed > 0 then parsed else 300))"

definition agent_approves :: "env \<Rightarrow> bool" where
  "agent_approves e \<longleftrightarrow>
     to_lower (trim_space (Getenv e ''APPROVAL_POLICY'')) \<in> {''auto'', ''allow'', ''true'', ''yes''}"

text \<open>
  \<open>loadErr\<close> and \<open>newErr\<close> are the failures to load the configuration and to make the agent,
  \<open>process\<close> is the agent: the contents it streams and the error it ends with. The result is the
  exit code, what goes to the standard output, and the call.
\<close>

definition nano_agent_main ::
  "string option \<Rightarrow> string option \<Rightarrow> (agent_call \<Rightarrow> string list \<times> string option) \<Rightarrow> env
    \<Rightarrow> nat \<times> string \<times> agent_call option" where
  "nano_agent_main loadErr newErr process e =
     (let prompt = trim_space (Getenv e ''PROMPT'') in
      if prompt = '''' then (2, '''', None)
      else if loadErr \<noteq> None \<or> newErr \<noteq> None then (1, '''', None)
      else
        (let sessionID = trim_space (Getenv e ''SESSION_ID'');
             call = \<lparr>ac_approve = agent_approves e, ac_timeout = wrap64 (agent_timeout e * second_ns),
                     ac_session = (if sessionID = '''' then ''default'' else sessionID), ac_prompt = prompt\<rparr>;
             (contents, err) = process call
         in (if err = None then 0 else 1, concat contents, Some call)))"

subsection \<open>runtime-cli\<close>

text \<open>\<^verbatim>\<open>bufio.Scanner\<close>: lines without their ends, up to the first line that does not fit the buffer.\<close>

definition drop_cr :: "string \<Rightarrow> string" where
  "drop_cr l = (if suffix [CHR 0x0D] l then butlast l else l)"

fun until_long :: "nat \<Rightarrow> string list \<Rightarrow> string list" where
  "until_long limit [] = []"
| "until_long limit (l # ls) = (if length l < limit then drop_cr l # until_long limit ls else [])"

definition raw_lines :: "string \<Rightarrow> string list" where
  "raw_lines out =
     (let ls = split_char CHR 0x0A out in if last ls = '''' then butlast ls else ls)"

definition scan_lines :: "nat \<Rightarrow> string \<Rightarrow> string list" where
  "scan_lines limit out = until_long limit (raw_lines out)"

definition copy_lines :: "string \<Rightarrow> string" where
  "copy_lines out = concat (map (\<lambda>l. l @ [CHR 0x0A]) (scan_lines 65536 out))"

record child =
  ch_stdoutPipe :: "string option"
  ch_stderrPipe :: "string option"
  ch_start :: "string option"
  ch_stdout :: string
  ch_stderr :: string
  ch_wait :: "string option"

text \<open>\<open>run\<close> says what the program does when started with its arguments. The result is the exit
  code, the outputs, and the command line if there was one.\<close>

definition cli_args :: "env \<Rightarrow> string list" where
  "cli_args e = (let v = trim_space (Getenv e ''RUNTIME_ARGS'') in if v \<noteq> '''' then strings_fields v else [])"

definition runtime_cli_main ::
  "(string \<Rightarrow> string list \<Rightarrow> child) \<Rightarrow> env \<Rightarrow> nat \<times> string \<times> string \<times> (string \<times> string list) option" where
  "runtime_cli_main run e =
     (let bin = trim_space (Getenv e ''RUNTIME_BIN''); prompt = trim_space (Getenv e ''PROMPT'') in
      if bin = '''' \<or> prompt = '''' then (2, '''', '''', None)
      else
        (let args = cli_args e @ [prompt]; c = run bin args in
         case ch_stdoutPipe c of Some err \<Rightarrow> (1, '''', err @ [CHR 0x0A], None)
         | None \<Rightarrow>
           (case ch_stderrPipe c of Some err \<Rightarrow> (1, '''', err @ [CHR 0x0A], None)
            | None \<Rightarrow>
              (case ch_start c of Some err \<Rightarrow> (1, '''', err @ [CHR 0x0A], None)
               | None \<Rightarrow>
                   (if ch_wait c = None then 0 else 1, copy_lines (ch_stdout c), copy_lines (ch_stderr c),
                    Some (bin, args))))))"

subsection \<open>runtime-cli-wrapper\<close>

record cliRuntimeConfig =
  crc_Env :: env
  crc_Args :: "string list"

definition runtimeKeyFromBin :: "string \<Rightarrow> string" where
  "runtimeKeyFromBin bin =
     (let b = to_lower (trim_space bin) in
      if b = ''claude'' then ''claude_code'' else if b = ''opencode'' then ''opencode'' else b)"

text \<open>The file: unreadable or not YAML, or its section \<^verbatim>\<open>cli\<close>, which may be missing.\<close>

definition loadCLIRuntimeConfig ::
  "(string \<Rightarrow> string + (string \<times> cliRuntimeConfig) list option) \<Rightarrow> string \<Rightarrow> string
    \<Rightarrow> string + cliRuntimeConfig" where
  "loadCLIRuntimeConfig readConfig path runtimeKey =
     (if runtimeKey = '''' then Inl ''missing runtime key''
      else (case readConfig path of
              Inl e \<Rightarrow> Inl e
            | Inr None \<Rightarrow> Inl ''missing cli section''
            | Inr (Some cli) \<Rightarrow>
                (case map_of cli runtimeKey of None \<Rightarrow> Inl ''runtime not found'' | Some entry \<Rightarrow> Inr entry)))"

text \<open>The loop over the map, in the order in which it is ranged over.\<close>

fun applyEnv :: "env \<Rightarrow> env \<Rightarrow> env" where
  "applyEnv [] e = e"
| "applyEnv ((k, v) # kvs) e =
     (let k = trim_space k in
      if k = '''' then applyEnv kvs e else applyEnv kvs (Setenv k (os_expand (Getenv e) v) e))"

fun expand_args :: "env \<Rightarrow> string list \<Rightarrow> string list" where
  "expand_args e [] = []"
| "expand_args e (a # as) =
     (let a = os_expand (Getenv e) a in
      if trim_space a \<noteq> '''' then a # expand_args e as else expand_args e as)"

text \<open>Replaced by the target, or an exit with a code and a message. \<open>lookPath\<close> and \<open>execErr\<close> are
  the operating system.\<close>

datatype wrapper_end = WrapperExit nat string | WrapperExec string "string list" env

definition cli_wrapper_main ::
  "(string \<Rightarrow> string + (string \<times> cliRuntimeConfig) list option) \<Rightarrow> (env \<Rightarrow> string \<Rightarrow> string + string)
    \<Rightarrow> (string \<Rightarrow> string option) \<Rightarrow> env \<Rightarrow> wrapper_end" where
  "cli_wrapper_main readConfig lookPath execErr e =
     (let bin = trim_space (Getenv e ''RUNTIME_BIN''); prompt = trim_space (Getenv e ''PROMPT'') in
      if bin = '''' \<or> prompt = '''' then WrapperExit 2 ''''
      else
        (let runtimeKey = (let k = trim_space (Getenv e ''NANO_RUNTIME_KEY'') in
                           if k = '''' then runtimeKeyFromBin bin else k);
             cfgPath = (let p = trim_space (Getenv e ''NANO_CONFIG_PATH'') in
                        if p = '''' then ''/root/.config/nano/config.yaml'' else p);
             entry = (case loadCLIRuntimeConfig readConfig cfgPath runtimeKey of
                        Inl _ \<Rightarrow> \<lparr>crc_Env = [], crc_Args = []\<rparr> | Inr entry \<Rightarrow> entry);
             e = applyEnv (crc_Env entry) e;
             args = cli_args e @ expand_args e (crc_Args entry) @ [prompt]
         in case lookPath e bin of
              Inl err \<Rightarrow> WrapperExit 127 (err @ [CHR 0x0A])
            | Inr target \<Rightarrow>
                (case execErr target of Some err \<Rightarrow> WrapperExit 126 (err @ [CHR 0x0A])
                 | None \<Rightarrow> WrapperExec target (bin # args) e)))"

end
