(* ===== verification/RunLogs.thy ===== *)
theory RunLogs
  imports Wrappers WorkerRun
begin

text \<open>
  The log files of a run, \<^verbatim>\<open>pkg/worker/worker.go\<close> and
  \<^verbatim>\<open>docker_runner.go\<close>: what a run's output is split into, and where its lines are
  written. A log file is opened for appending, so it is its path in a store of file contents.
\<close>

subsection \<open>Files\<close>

text \<open>\<open>ok\<close>: can this path be opened? The first list is for the standard output.\<close>

definition openLogFiles :: "(string \<Rightarrow> bool) \<Rightarrow> string \<Rightarrow> string \<Rightarrow> string list \<times> string list" where
  "openLogFiles ok workspaceDir logDir =
     (let dirs = workspaceDir # (if logDir \<noteq> '''' then [logDir] else [])
      in (filter ok (map (\<lambda>d. Join [d, ''agent.stdout.log'']) dirs),
          filter ok (map (\<lambda>d. Join [d, ''agent.stderr.log'']) dirs)))"

definition writeToLogFiles :: "string list \<Rightarrow> string \<Rightarrow> (string \<Rightarrow> string) \<Rightarrow> string \<Rightarrow> string" where
  "writeToLogFiles fs line st = fold (\<lambda>f st. st(f := st f @ line)) fs st"

subsection \<open>Lines\<close>

text \<open>The limit of the scanners' buffers; a stream that exceeds it is read no further. Where docker's logs are followed
  this is reported as a line of the error side; where the agent is a process it is reported as a
  \<^verbatim>\<open>STDERR\<close> error only, which is not sent and not written to a file.\<close>

definition line_limit :: nat where "line_limit = 4 * 1024 * 1024"

definition stream_lines :: "bool \<Rightarrow> bool \<Rightarrow> string \<Rightarrow> (bool \<times> string) list" where
  "stream_lines docker isStderr out =
     map (Pair isStderr) (scan_lines line_limit out)
     @ (if docker \<and> list_ex (\<lambda>l. \<not> length l < line_limit) (raw_lines out)
        then [(True, (if isStderr then ''stderr'' else ''stdout'') @ '' scan failed: bufio.Scanner: token too long'')] else [])"

text \<open>What is done with a line: the files, and what is sent (\<^verbatim>\<open>STDERR\<close> errors are dropped by
  \<^verbatim>\<open>sendError\<close>).\<close>

definition on_line ::
  "string list \<times> string list \<Rightarrow> bool \<times> string \<Rightarrow> (string \<Rightarrow> string) \<times> RunEvent list \<Rightarrow> (string \<Rightarrow> string) \<times> RunEvent list" where
  "on_line files line st =
     (case (files, line, st) of ((outs, errs), (isStderr, l), (store, sent)) \<Rightarrow>
        if isStderr then (writeToLogFiles errs (redactSensitive l @ [CHR 0x0A]) store, sent)
        else (writeToLogFiles outs (l @ [CHR 0x0A]) store, sent @ [delta_event (l @ [CHR 0x0A])]))"

definition follow_run ::
  "string list \<times> string list \<Rightarrow> (bool \<times> string) list \<Rightarrow> (string \<Rightarrow> string) \<times> RunEvent list \<Rightarrow> (string \<Rightarrow> string) \<times> RunEvent list" where
  "follow_run files ls st = fold (on_line files) ls st"

subsection \<open>What the files hold\<close>

text \<open>A file that is opened more than once is written as often.\<close>

lemma write_logs: "writeToLogFiles fs line st f = st f @ concat (replicate (count_list fs f) line)"
  unfolding writeToLogFiles_def by (induction fs arbitrary: st) auto

lemma follow_snoc: "follow_run files (ls @ [x]) st = on_line files x (follow_run files ls st)"
  by (simp add: follow_run_def)

definition lines_text :: "nat \<Rightarrow> bool \<Rightarrow> (bool \<times> string) list \<Rightarrow> string" where
  "lines_text n isStderr ls =
     concat (map (\<lambda>(e, l). if e = isStderr
        then concat (replicate n ((if e then redactSensitive l else l) @ [CHR 0x0A])) else []) ls)"

lemma lines_text_simps [simp]:
  "lines_text n b [] = []"
  "lines_text n b (ls @ [(e, l)]) = lines_text n b ls
     @ (if e = b then concat (replicate n ((if e then redactSensitive l else l) @ [CHR 0x0A])) else [])"
  by (simp_all add: lines_text_def)

lemma lines_text_0 [simp]: "lines_text 0 b ls = []"
  by (induction ls rule: rev_induct) auto

lemma follow_run_text:
  assumes "set outs \<inter> set errs = {}" "follow_run (outs, errs) ls (st, []) = (st', sent)"
  shows "st' f = st f @ lines_text (count_list outs f) False ls @ lines_text (count_list errs f) True ls
    \<and> concat (map (\<lambda>e. case ev_Payload e of Some (RunEvent_AssistantDelta t) \<Rightarrow> t | _ \<Rightarrow> []) sent) = lines_text 1 False ls"
  using assms(2)
proof (induction ls arbitrary: st' sent rule: rev_induct)
  case Nil
  then show ?case by (simp add: follow_run_def)
next
  case (snoc x ls)
  obtain st1 sent1 where f: "follow_run (outs, errs) ls (st, []) = (st1, sent1)" by fastforce
  obtain e l where x: "x = (e, l)" by fastforce
  have "count_list outs f = 0 \<or> count_list errs f = 0" using assms(1) by (auto simp: count_list_0_iff)
  with snoc.IH [OF f] snoc.prems f show ?case
    by (cases e) (auto simp: x follow_snoc on_line_def write_logs delta_event_def)
qed

definition clean_line :: "string \<Rightarrow> bool" where
  "clean_line l \<longleftrightarrow> CHR 0x0A \<notin> set l \<and> \<not> suffix [CHR 0x0D] l \<and> length l < line_limit"

definition lines_of :: "string list \<Rightarrow> string" where
  "lines_of ws = concat (map (\<lambda>l. l @ [CHR 0x0A]) ws)"

lemma split_lines: "\<forall>l \<in> set ws. CHR 0x0A \<notin> set l \<Longrightarrow> split_char CHR 0x0A (lines_of ws) = ws @ [[]]"
proof (induction ws)
  case (Cons w ws)
  then have "split_char CHR 0x0A (w @ CHR 0x0A # lines_of ws) = split_char CHR 0x0A w @ split_char CHR 0x0A (lines_of ws)"
    by (intro split_char_append)
  with Cons show ?case by (simp add: lines_of_def split_char_none)
qed (simp add: lines_of_def)

lemma until_long_clean: "\<forall>l \<in> set ws. clean_line l \<Longrightarrow> until_long line_limit ws = ws"
  by (induction ws) (auto simp: clean_line_def drop_cr_def)

lemma stream_lines_clean:
  assumes "\<forall>l \<in> set ws. clean_line l"
  shows "stream_lines docker isStderr (lines_of ws) = map (Pair isStderr) ws"
proof -
  have "raw_lines (lines_of ws) = ws"
    using split_lines [of ws] assms by (simp add: raw_lines_def clean_line_def)
  with until_long_clean [OF assms] assms show ?thesis
    by (auto simp: stream_lines_def scan_lines_def list_ex_iff clean_line_def)
qed

text \<open>Each line as often as it is written.\<close>

definition repeated :: "nat \<Rightarrow> string list \<Rightarrow> string list" where
  "repeated n ws = concat (map (replicate n) ws)"

lemma lines_text_filter: "lines_text n b ls = lines_text n b (filter (\<lambda>x. fst x = b) ls)"
  by (induction ls) (auto simp: lines_text_def)

lemma lines_text_map: "lines_text n b (map (Pair b) ws) = lines_of (repeated n (map (\<lambda>l. if b then redactSensitive l else l) ws))"
proof (induction ws)
  case (Cons w ws)
  have "concat (replicate n (x @ [CHR 0x0A])) = lines_of (replicate n x)" for x
    by (induction n) (simp_all add: lines_of_def)
  with Cons show ?case by (simp add: lines_text_def lines_of_def repeated_def)
qed (simp add: lines_of_def repeated_def)

lemma repeated_once [simp]: "repeated 0 ws = []" "repeated (Suc 0) ws = ws"
  by (induction ws) (simp_all add: repeated_def)

lemma log_name_child: "child_name ''agent.stdout.log''" "child_name ''agent.stderr.log''"
  by (simp_all add: child_name_def path_word_def)

lemma log_names_apart: "Join [d, ''agent.stdout.log''] \<noteq> Join [d', ''agent.stderr.log'']"
proof -
  have l: "last (path_comps (Join [d, w])) = w" if "child_name w" for d w
  proof (cases "d = ''''")
    case True
    then have "path_comps (Join [d, w]) = path_comps w" using that by (simp add: Join_def child_name_def path_word_def)
    then show ?thesis using that by (simp add: path_comps_def child_name_def path_words_word)
  next
    case False
    from Join_child(2) [OF this that] show ?thesis by simp
  qed
  have "last (path_comps (Join [d, ''agent.stdout.log''])) \<noteq> last (path_comps (Join [d', ''agent.stderr.log'']))"
    unfolding l [OF log_name_child(1)] l [OF log_name_child(2)] by simp
  then show ?thesis by metis
qed

lemma opened_logs:
  assumes "openLogFiles ok workspaceDir logDir = (outs, errs)"
  shows "set outs \<inter> set errs = {}"
    and "Join [workspaceDir, n] \<noteq> Join [logDir, n] \<Longrightarrow> n = ''agent.stdout.log'' \<Longrightarrow> count_list outs f \<le> 1"
    and "Join [workspaceDir, n] \<noteq> Join [logDir, n] \<Longrightarrow> n = ''agent.stderr.log'' \<Longrightarrow> count_list errs f \<le> 1"
  using assms log_names_apart log_names_apart [symmetric] by (auto simp: openLogFiles_def Let_def split: if_splits)

text \<open>C34: What an agent prints is kept and sent as it is. However its two outputs are interleaved, as long as they
  consist of lines that end in a line feed alone and fit the buffer, the text sent to the gateway is
  exactly the standard output; a file opened for the standard output grows by each line of it, and a file
  for the error output by each of its lines redacted, as often as the file was opened; nothing else is written. A file is
  opened once, unless the workspace and the log directory give it the same path: then every line is in it
  twice.\<close>

theorem logs_are_verbatim:
  assumes "openLogFiles ok workspaceDir logDir = (outs, errs)"
    and "\<forall>l \<in> set ws. clean_line l" "\<forall>l \<in> set es. clean_line l"
    and "filter (\<lambda>x. \<not> fst x) ls = stream_lines docker False (lines_of ws)"
    and "filter fst ls = stream_lines docker True (lines_of es)"
    and "follow_run (outs, errs) ls (store, []) = (store', sent)"
  shows "store' f = store f @ lines_of (repeated (count_list outs f) ws)
        @ lines_of (repeated (count_list errs f) (map redactSensitive es))
    \<and> (count_list outs f = 0 \<or> count_list errs f = 0)
    \<and> (Join [workspaceDir, ''agent.stdout.log''] \<noteq> Join [logDir, ''agent.stdout.log''] \<longrightarrow> count_list outs f \<le> 1)
    \<and> (Join [workspaceDir, ''agent.stderr.log''] \<noteq> Join [logDir, ''agent.stderr.log''] \<longrightarrow> count_list errs f \<le> 1)
    \<and> concat (map (\<lambda>e. case ev_Payload e of Some (RunEvent_AssistantDelta t) \<Rightarrow> t | _ \<Rightarrow> []) sent) = lines_of ws"
proof -
  have out: "lines_text n False ls = lines_of (repeated n ws)" for n
    using lines_text_filter [of n False ls] assms(4) stream_lines_clean [OF assms(2)] lines_text_map [of n False ws] by simp
  have err: "lines_text n True ls = lines_of (repeated n (map redactSensitive es))" for n
    using lines_text_filter [of n True ls] assms(5) stream_lines_clean [OF assms(3)] lines_text_map [of n True es] by simp
  note o = opened_logs [OF assms(1)]
  have "count_list outs f = 0 \<or> count_list errs f = 0" using o(1) by (auto simp: count_list_0_iff)
  then show ?thesis
    using follow_run_text [OF o(1) assms(6), of f] o(2,3) by (simp add: out err)
qed

text \<open>The first run has two directories, the second writes both logs to one.\<close>

lemma logs_are_verbatim_witness:
  "fst (follow_run (openLogFiles (\<lambda>_. True) ''/ws'' ''/logs/r1'')
     [(True, ''Incorrect API key provided: k1''), (False, ''hello'')] (\<lambda>_. '''', [])) ''/logs/r1/agent.stdout.log'' = ''hello'' @ [CHR 0x0A]
   \<and> fst (follow_run (openLogFiles (\<lambda>_. True) ''/ws'' ''/ws/'') [(False, ''hello'')] (\<lambda>_. '''', [])) ''/ws/agent.stdout.log''
      = ''hello'' @ [CHR 0x0A] @ ''hello'' @ [CHR 0x0A]"
proof -
  have files: "openLogFiles (\<lambda>_. True) ''/ws'' ''/logs/r1''
      = ([''/ws/agent.stdout.log'', ''/logs/r1/agent.stdout.log''], [''/ws/agent.stderr.log'', ''/logs/r1/agent.stderr.log''])"
    by code_simp
  have same: "openLogFiles (\<lambda>_. True) ''/ws'' ''/ws/''
      = ([''/ws/agent.stdout.log'', ''/ws/agent.stdout.log''], [''/ws/agent.stderr.log'', ''/ws/agent.stderr.log''])"
    by code_simp
  have clean: "\<forall>l \<in> set [''hello'']. clean_line l" "\<forall>l \<in> set [''Incorrect API key provided: k1'']. clean_line l"
    "\<forall>l \<in> set []. clean_line l"
    by (simp_all add: clean_line_def line_limit_def suffix_def append_eq_Cons_conv Cons_eq_append_conv)
  have nil: "lines_of [] = []" by (simp add: lines_of_def)
  obtain st sent where run: "follow_run ([''/ws/agent.stdout.log'', ''/logs/r1/agent.stdout.log''],
      [''/ws/agent.stderr.log'', ''/logs/r1/agent.stderr.log''])
      [(True, ''Incorrect API key provided: k1''), (False, ''hello'')] (\<lambda>_. '''', []) = (st, sent)" by fastforce
  have 1: "st ''/logs/r1/agent.stdout.log'' = lines_of [''hello'']"
    using logs_are_verbatim [OF files clean(1,2) _ _ run, of False "''/logs/r1/agent.stdout.log''"]
    by (simp add: stream_lines_clean [OF clean(1)] stream_lines_clean [OF clean(2)] nil)
  obtain st2 sent2 where run2: "follow_run ([''/ws/agent.stdout.log'', ''/ws/agent.stdout.log''],
      [''/ws/agent.stderr.log'', ''/ws/agent.stderr.log'']) [(False, ''hello'')] (\<lambda>_. '''', []) = (st2, sent2)" by fastforce
  have "st2 ''/ws/agent.stdout.log'' = lines_of (repeated 2 [''hello''])"
    using logs_are_verbatim [OF same clean(1,3) _ _ run2, of False "''/ws/agent.stdout.log''"]
    by (simp add: stream_lines_clean [OF clean(1)] stream_lines_clean [OF clean(3), unfolded nil] nil numeral_2_eq_2)
  with 1 run files run2 same show ?thesis by (simp add: lines_of_def repeated_def numeral_2_eq_2)
qed

end
