(* ===== verification/ConfigCommand.thy ===== *)
theory ConfigCommand
  imports WorkerConfig
begin

text \<open>
  \<^verbatim>\<open>worker config\<close> and \<^verbatim>\<open>worker quickstart\<close> of
  \<^verbatim>\<open>cmd/worker/main.go\<close>: the subcommands that create, show and edit the two
  configuration files, and the wizard. A command's effect is the list of files it writes, and how it
  ends. The YAML library is an argument; what it decodes is a tree.
\<close>

subsection \<open>YAML trees\<close>

text \<open>
  \<^verbatim>\<open>yaml.MapSlice\<close>: a list of items, whose keys are any scalar \<open>'k\<close>; a value is a text, a
  map, or anything else the library decodes.
\<close>

datatype ('k, 'a) yaml = YText string | YOther 'a | YMap "('k \<times> ('k, 'a) yaml) list"

definition yaml_child :: "('k, 'a) yaml \<Rightarrow> ('k \<times> ('k, 'a) yaml) list" where
  "yaml_child v = (case v of YMap m \<Rightarrow> m | _ \<Rightarrow> [])"

definition item_index :: "('k \<Rightarrow> string) \<Rightarrow> string \<Rightarrow> ('k \<times> 'v) list \<Rightarrow> nat option" where
  "item_index sh key data = find_index (\<lambda>it. sh (fst it) = key) data"

text \<open>\<open>sh\<close> prints a key with \<^verbatim>\<open>%v\<close>, \<open>mk\<close> makes one from a text.\<close>

fun setNestedYAML ::
  "('k \<Rightarrow> string) \<Rightarrow> (string \<Rightarrow> 'k) \<Rightarrow> string list \<Rightarrow> string \<Rightarrow> ('k \<times> ('k, 'a) yaml) list
    \<Rightarrow> ('k \<times> ('k, 'a) yaml) list" where
  "setNestedYAML sh mk [] v data = data"
| "setNestedYAML sh mk [key] v data =
     (case item_index sh key data of
        Some i \<Rightarrow> data[i := (fst (data ! i), YText v)]
      | None \<Rightarrow> data @ [(mk key, YText v)])"
| "setNestedYAML sh mk (key # key' # keys) v data =
     (case item_index sh key data of
        Some i \<Rightarrow>
          data[i := (fst (data ! i), YMap (setNestedYAML sh mk (key' # keys) v (yaml_child (snd (data ! i)))))]
      | None \<Rightarrow> data @ [(mk key, YMap (setNestedYAML sh mk (key' # keys) v []))])"

text \<open>Reading along the same keys.\<close>

fun getNestedYAML :: "('k \<Rightarrow> string) \<Rightarrow> string list \<Rightarrow> ('k \<times> ('k, 'a) yaml) list \<Rightarrow> ('k, 'a) yaml option" where
  "getNestedYAML sh [] data = None"
| "getNestedYAML sh [key] data = map_option (\<lambda>i. snd (data ! i)) (item_index sh key data)"
| "getNestedYAML sh (key # key' # keys) data =
     (case item_index sh key data of None \<Rightarrow> None
      | Some i \<Rightarrow> getNestedYAML sh (key' # keys) (yaml_child (snd (data ! i))))"

subsection \<open>The laws of the tree\<close>

lemma item_index_update:
  fixes data :: "('k \<times> 'v) list"
  assumes "item_index sh key data = Some i" "sh k = sh (fst (data ! i))"
  shows "item_index sh key' (data[i := (k, v)]) = item_index sh key' data"
proof -
  have "map (\<lambda>it. sh (fst it)) (data[i := (k, v)]) = map (\<lambda>it. sh (fst it)) data"
    using assms(2) by (metis fst_conv list_update_id map_update)
  moreover have "find_index (\<lambda>it. sh (fst it) = key') xs = find_index (\<lambda>s. s = key') (map (\<lambda>it. sh (fst it)) xs)"
    for xs :: "('k \<times> 'v) list"
    by (induction xs) auto
  ultimately show ?thesis by (simp only: item_index_def)
qed

lemma item_index_lt: "item_index sh key data = Some i \<Longrightarrow> i < length data"
  by (simp add: item_index_def find_index_lt)

lemma item_index_holds: "item_index sh key data = Some i \<Longrightarrow> sh (fst (data ! i)) = key"
  unfolding item_index_def by (rule find_index_holds)

lemma item_index_inj: "item_index sh key data = Some i \<Longrightarrow> item_index sh key' data = Some i \<Longrightarrow> key = key'"
  using item_index_holds by metis

lemma item_index_append_new:
  "item_index sh key data = None \<Longrightarrow> sh k = key \<Longrightarrow> item_index sh key (data @ [(k, v)]) = Some (length data)"
  by (simp add: item_index_def find_index_last)

lemma item_index_append_other:
  "sh k \<noteq> key \<Longrightarrow> item_index sh key (data @ [(k, v)]) = item_index sh key data"
  by (induction data) (auto simp: item_index_def)

text \<open>Two paths are apart if neither begins with the other.\<close>

definition apart_paths :: "string list \<Rightarrow> string list \<Rightarrow> bool" where
  "apart_paths p q \<longleftrightarrow> \<not> prefix p q \<and> \<not> prefix q p"

lemma get_set_nested:
  assumes "\<And>s. sh (mk s) = s" "p \<noteq> []"
  shows "getNestedYAML sh p (setNestedYAML sh mk p v data) = Some (YText v)"
  using assms(2)
proof (induction p arbitrary: data rule: induct_list012)
  case (2 key)
  show ?case
  proof (cases "item_index sh key data")
    case None
    with assms(1) show ?thesis by (simp add: item_index_append_new)
  next
    case (Some i)
    with item_index_lt [OF Some] show ?thesis by (simp add: item_index_update)
  qed
next
  case (3 key key' keys)
  show ?case
  proof (cases "item_index sh key data")
    case None
    with assms(1) 3 show ?thesis by (simp add: item_index_append_new yaml_child_def)
  next
    case (Some i)
    with item_index_lt [OF Some] 3 show ?thesis by (simp add: item_index_update yaml_child_def)
  qed
qed simp

lemma getNested_Nil_map: "getNestedYAML sh p [] = None"
  by (induction p rule: induct_list012) (simp_all add: item_index_def)

text \<open>Reading depends on the first item of the first key only.\<close>

lemma getNested_cong:
  assumes "item_index sh k data' = item_index sh k data"
    and "\<And>i. item_index sh k data = Some i \<Longrightarrow> snd (data' ! i) = snd (data ! i)"
  shows "getNestedYAML sh (k # ks) data' = getNestedYAML sh (k # ks) data"
  using assms by (cases ks) (auto simp: option.map_sel split: option.splits intro!: option.map_cong)

lemma getNested_other_item:
  assumes "\<And>s. sh (mk s) = s" "k \<noteq> key"
  shows "getNestedYAML sh (k # ks)
    (case item_index sh key data of Some i \<Rightarrow> data[i := (fst (data ! i), x i)] | None \<Rightarrow> data @ [(mk key, y)])
    = getNestedYAML sh (k # ks) data"
proof (cases "item_index sh key data")
  case None
  then show ?thesis
    using assms by (auto simp: item_index_append_other nth_append dest: item_index_lt intro!: getNested_cong)
next
  case (Some i)
  have "item_index sh k data \<noteq> Some i" using assms(2) item_index_inj [OF Some] by metis
  then have "snd (data[i := (fst (data ! i), x i)] ! j) = snd (data ! j)" if "item_index sh k data = Some j" for j
    using that by (metis nth_list_update_neq)
  moreover have "item_index sh k (data[i := (fst (data ! i), x i)]) = item_index sh k data"
    by (rule item_index_update [OF Some]) simp
  ultimately show ?thesis unfolding Some option.case by (rule getNested_cong [rotated])
qed

lemma get_set_apart:
  assumes "\<And>s. sh (mk s) = s" "p \<noteq> []" "apart_paths p q"
  shows "getNestedYAML sh q (setNestedYAML sh mk p v data) = getNestedYAML sh q data"
  using assms(2,3)
proof (induction p arbitrary: q data rule: induct_list012)
  case (2 key)
  from 2 obtain k ks where q: "q = k # ks" "k \<noteq> key" by (cases q) (auto simp: apart_paths_def)
  then show ?case by (simp add: getNested_other_item [where sh = sh and mk = mk, OF assms(1)])
next
  case (3 key key' keys)
  from 3 obtain k ks where q: "q = k # ks" by (cases q) (auto simp: apart_paths_def)
  show ?case
  proof (cases "k = key")
    case True
    with 3 q have a: "apart_paths (key' # keys) ks" by (auto simp: apart_paths_def)
    then obtain k' ks' where ks: "ks = k' # ks'" by (cases ks) (auto simp: apart_paths_def)
    show ?thesis
    proof (cases "item_index sh key data")
      case None
      with True q ks assms(1) 3(2) [OF _ a] show ?thesis
        by (simp add: item_index_append_new yaml_child_def getNested_Nil_map)
    next
      case (Some i)
      with item_index_lt [OF Some] True q ks 3(2) [OF _ a] show ?thesis
        by (simp add: item_index_update yaml_child_def)
    qed
  next
    case False
    then show ?thesis by (simp add: q getNested_other_item [where sh = sh and mk = mk, OF assms(1)])
  qed
qed simp

lemma set_set_nested:
  assumes "\<And>s. sh (mk s) = s" "p \<noteq> []"
  shows "setNestedYAML sh mk p w (setNestedYAML sh mk p v data) = setNestedYAML sh mk p w data"
  using assms(2)
proof (induction p arbitrary: data rule: induct_list012)
  case (2 key)
  show ?case
  proof (cases "item_index sh key data")
    case None
    with assms(1) show ?thesis by (simp add: item_index_append_new)
  next
    case (Some i)
    with item_index_lt [OF Some] show ?thesis by (simp add: item_index_update)
  qed
next
  case (3 key key' keys)
  show ?case
  proof (cases "item_index sh key data")
    case None
    with assms(1) 3 show ?thesis by (simp add: item_index_append_new yaml_child_def)
  next
    case (Some i)
    with item_index_lt [OF Some] 3 show ?thesis by (simp add: item_index_update yaml_child_def)
  qed
qed simp

text \<open>A key is a text or another scalar, given by what \<^verbatim>\<open>%v\<close> prints of it.\<close>

datatype yaml_key = KeyText string | KeyOther string

fun show_key :: "yaml_key \<Rightarrow> string" where
  "show_key (KeyText s) = s"
| "show_key (KeyOther s) = s"

locale yaml_keys =
  fixes sh :: "'k \<Rightarrow> string" and mk :: "string \<Rightarrow> 'k"
  assumes sh_mk: "sh (mk s) = s"

sublocale yaml_keys \<subseteq> tree: settings "getNestedYAML sh" "setNestedYAML sh mk" YText apart_paths "\<lambda>p. p \<noteq> []"
  by unfold_locales (auto intro: get_set_nested get_set_apart set_set_nested sh_mk)

interpretation agent_file: yaml_keys show_key KeyText
  by unfold_locales simp

subsection \<open>Subcommands of config\<close>

type_synonym agent_data = "(yaml_key \<times> (yaml_key, string) yaml) list"

text \<open>What the files hold: the worker's configuration or the text of the agent's. A file is written in place, so a
  write that fails can leave the first bytes of what it should have held.\<close>

datatype written =
    WroteConfig string Config
  | WroteText string string
  | WroteTree string agent_data
  | CutOff nat written

text \<open>What becomes of a save: it takes place, the library cannot print the data, or the write fails; the number
  is how much of the content is left in the file, if it could be opened, which empties it.\<close>

datatype save_end = Saved | Unprintable string | Unwritten string "nat option"

text \<open>How a command ends: a message and a failure, the usage, or what it prints.\<close>

datatype cmd_end = CmdFails string | CmdUsage | CmdPrints string

record files =
  fs_exists :: "string \<Rightarrow> bool"
  fs_read :: "string \<Rightarrow> string + string"
  fs_loadConfig :: "string \<Rightarrow> string + Config"
  fs_parseTree :: "string \<Rightarrow> string + agent_data"
  fs_showConfig :: "Config \<Rightarrow> string"
  fs_write :: "written \<Rightarrow> save_end"

definition save_as :: "files \<Rightarrow> string \<Rightarrow> written \<Rightarrow> string \<Rightarrow> cmd_end \<times> written list" where
  "save_as fs what x msg =
     (case fs_write fs x of
        Saved \<Rightarrow> (CmdPrints msg, [x])
      | Unprintable e \<Rightarrow>
          (CmdFails (case x of WroteTree _ _ \<Rightarrow> ''failed to marshal '' @ what @ '': '' @ e
                     | _ \<Rightarrow> ''failed to save '' @ what @ '': marshal config: '' @ e), [])
      | Unwritten e left \<Rightarrow>
          (CmdFails (''failed to save '' @ what @ '': '' @ e),
           case left of None \<Rightarrow> [] | Some n \<Rightarrow> [CutOff n x]))"

definition configInit :: "files \<Rightarrow> string \<Rightarrow> cmd_end \<times> written list" where
  "configInit fs cfgPath =
     (if fs_exists fs cfgPath then (CmdFails (''config file already exists: '' @ cfgPath), [])
      else save_as fs ''config'' (WroteConfig cfgPath DefaultConfig) (''Worker config created: '' @ cfgPath))"

definition configShow :: "files \<Rightarrow> Config option \<Rightarrow> string \<Rightarrow> cmd_end \<times> written list" where
  "configShow fs cfg cfgPath =
     (case cfg of
        Some c \<Rightarrow> (CmdPrints (fs_showConfig fs c), [])
      | None \<Rightarrow>
          (case fs_read fs cfgPath of
             Inl e \<Rightarrow> (CmdFails (''cannot read config file '' @ cfgPath @ '': '' @ e), [])
           | Inr b \<Rightarrow> (CmdPrints b, [])))"

definition configSet :: "files \<Rightarrow> Config option \<Rightarrow> string \<Rightarrow> string \<Rightarrow> string \<Rightarrow> cmd_end \<times> written list" where
  "configSet fs cfg cfgPath key v =
     (case (case cfg of Some c \<Rightarrow> Inr c | None \<Rightarrow> fs_loadConfig fs cfgPath) of
        Inl e \<Rightarrow> (CmdFails (''cannot load config file '' @ cfgPath @ '': '' @ e), [])
      | Inr c \<Rightarrow>
          (case ConfigSet c key v of
             Inl e \<Rightarrow> (CmdFails (''config set failed: '' @ e), [])
           | Inr c' \<Rightarrow>
               save_as fs ''config'' (WroteConfig cfgPath c') (''Set '' @ key @ '' = '' @ v @ '' in '' @ cfgPath)))"

definition configAgentInit :: "files \<Rightarrow> string \<Rightarrow> cmd_end \<times> written list" where
  "configAgentInit fs agentPath =
     (if fs_exists fs agentPath then (CmdFails (''agent config file already exists: '' @ agentPath), [])
      else save_as fs ''agent config'' (WroteText agentPath DefaultAgentConfigYAML)
             (''Agent config created: '' @ agentPath))"

definition configAgentShow :: "files \<Rightarrow> string \<Rightarrow> cmd_end \<times> written list" where
  "configAgentShow fs agentPath =
     (case fs_read fs agentPath of
        Inl e \<Rightarrow> (CmdFails (''cannot read agent config file '' @ agentPath @ '': '' @ e), [])
      | Inr b \<Rightarrow> (CmdPrints b, []))"

definition configAgentSet :: "files \<Rightarrow> string \<Rightarrow> string \<Rightarrow> string \<Rightarrow> cmd_end \<times> written list" where
  "configAgentSet fs agentPath key v =
     (case fs_read fs agentPath of
        Inl e \<Rightarrow> (CmdFails (''cannot read agent config file '' @ agentPath @ '': '' @ e), [])
      | Inr b \<Rightarrow>
          (case fs_parseTree fs b of
             Inl e \<Rightarrow> (CmdFails (''failed to parse agent config: '' @ e), [])
           | Inr data \<Rightarrow>
               save_as fs ''agent config''
                 (WroteTree agentPath (setNestedYAML show_key KeyText (split_char CHR ''.'' key) v data))
                 (''Set '' @ key @ '' = '' @ v @ '' in '' @ agentPath)))"

text \<open>The agent's file: the one named on the command line, else the configured one, else the default.\<close>

definition agent_path :: "Config option \<Rightarrow> string list \<Rightarrow> string" where
  "agent_path cfg rest =
     (case rest of p # _ \<Rightarrow> p
      | [] \<Rightarrow> (case cfg of None \<Rightarrow> ''agent-config.yaml''
               | Some c \<Rightarrow> if cfg_AgentConfigPath c \<noteq> '''' then cfg_AgentConfigPath c else ''agent-config.yaml''))"

definition handleConfigSubcommand ::
  "files \<Rightarrow> Config option \<Rightarrow> string \<Rightarrow> string list \<Rightarrow> cmd_end \<times> written list" where
  "handleConfigSubcommand fs cfg cfgPath0 args =
     (case args of [] \<Rightarrow> (CmdUsage, [])
      | sub # rest \<Rightarrow>
          (let cfgPath = (if cfgPath0 = '''' then ''worker-config.yaml'' else cfgPath0) in
           if sub = ''init'' then configInit fs cfgPath
           else if sub = ''show'' then configShow fs cfg cfgPath
           else if sub = ''set'' then
             (case rest of k # v # _ \<Rightarrow> configSet fs cfg cfgPath k v
              | _ \<Rightarrow> (CmdFails ''config set requires <key> <value>'', []))
           else if sub = ''agent-init'' then configAgentInit fs (agent_path None rest)
           else if sub = ''agent-show'' then configAgentShow fs (agent_path cfg rest)
           else if sub = ''agent-set'' then
             (case rest of k # v # _ \<Rightarrow> configAgentSet fs (agent_path cfg []) k v
              | _ \<Rightarrow> (CmdFails ''config agent-set requires <key> <value>'', []))
           else (CmdFails (''unknown config subcommand: '' @ sub), [])))"

subsection \<open>The wizard\<close>

text \<open>The lines typed at the terminal; beyond them it reads nothing, which counts as the default.\<close>

fun promptInput :: "string \<Rightarrow> string list \<Rightarrow> string \<times> string list" where
  "promptInput defaultVal [] = (defaultVal, [])"
| "promptInput defaultVal (l # ls) = (let line = trim_space l in (if line = '''' then defaultVal else line, ls))"

definition maskKey :: "string \<Rightarrow> string" where
  "maskKey key =
     (if length key \<le> 8 then replicate (length key) CHR ''*''
      else take 4 key @ replicate (length key - 8) CHR ''*'' @ drop (length key - 4) key)"

text \<open>The number is computed in 64 bits and may wrap around.\<close>

fun choice_value :: "64 word \<Rightarrow> string \<Rightarrow> 64 word option" where
  "choice_value n [] = Some n"
| "choice_value n (c # cs) =
     (if c < CHR ''0'' \<or> c > CHR ''9'' then None else choice_value (n * 10 + of_nat (digit_val c)) cs)"

definition parseChoice :: "string \<Rightarrow> nat \<Rightarrow> int" where
  "parseChoice s0 maxVal =
     (let s = trim_space s0 in
      if s = '''' then 0
      else (case choice_value 0 s of
              None \<Rightarrow> 0
            | Some n \<Rightarrow> if sint n < 1 \<or> sint n > int maxVal then 0 else sint n - 1))"

text \<open>Asking until something is entered; \<^verbatim>\<open>None\<close> where the input ends and it asks for ever.\<close>

fun ask_base_url :: "string \<Rightarrow> string list \<Rightarrow> (string \<times> string list) option" where
  "ask_base_url defaultVal [] = (if trim_space defaultVal \<noteq> '''' then Some (defaultVal, []) else None)"
| "ask_base_url defaultVal (l # ls) =
     (let (v, rest) = promptInput defaultVal (l # ls) in
      if trim_space v \<noteq> '''' then Some (v, rest) else ask_base_url defaultVal ls)"

record answers =
  an_preset :: ProviderPreset
  an_apiKey :: string
  an_model :: string
  an_baseURL :: string
  an_relayURL :: string

definition quick_preset :: "string list \<Rightarrow> ProviderPreset \<times> string list" where
  "quick_preset input =
     (let (agentChoice, input) = promptInput ''1'' input;
          (choice, input) = promptInput ''1'' input;
          n = parseChoice choice (length Providers);
          idx = (if n \<ge> 0 then nat n else 0);
          preset = Providers ! idx
      in (if agentChoice \<noteq> ''2'' then WithNanoAgent preset else preset, input))"

definition quick_key :: "(string \<Rightarrow> string) \<Rightarrow> ProviderPreset \<Rightarrow> string list \<Rightarrow> string \<times> string list" where
  "quick_key getenv preset input =
     (if pp_NeedsAPIKey preset then
        (let envVal = getenv (pp_EnvKey preset);
             hint = (if envVal \<noteq> '''' then maskKey envVal else '''');
             (k, input) = promptInput hint input
         in (if k = '''' \<or> k = hint then envVal else k, input))
      else ('''', input))"

definition quick_url :: "ProviderPreset \<Rightarrow> string list \<Rightarrow> (string \<times> string list) option" where
  "quick_url preset input =
     (if pp_Name preset = ''Custom (OpenAI-compatible)'' then ask_base_url (pp_DefaultURL preset) input
      else if pp_Name preset = ''Ollama (local)'' then Some (promptInput (pp_DefaultURL preset) input)
      else Some ('''', input))"

definition quick_answers :: "(string \<Rightarrow> string) \<Rightarrow> string list \<Rightarrow> (answers \<times> string list) option" where
  "quick_answers getenv input =
     (let (preset, input) = quick_preset input;
          (apiKey, input) = quick_key getenv preset input;
          (model, input) = promptInput (pp_Model preset) input
      in case quick_url preset input of
           None \<Rightarrow> None
         | Some (baseURL, input) \<Rightarrow>
             (let (relayURL, input) = promptInput ''ws://localhost:8081'' input in
              Some (\<lparr>an_preset = preset, an_apiKey = apiKey, an_model = model, an_baseURL = baseURL,
                     an_relayURL = relayURL\<rparr>, input)))"

definition overwrite_ok :: "files \<Rightarrow> string \<Rightarrow> string list \<Rightarrow> bool \<times> string list" where
  "overwrite_ok fs path input =
     (if fs_exists fs path
      then (let (ans, input) = promptInput ''N'' input in (prefix ''y'' (to_lower ans), input))
      else (True, input))"

definition runQuickstart ::
  "files \<Rightarrow> (string \<Rightarrow> string) \<Rightarrow> string list \<Rightarrow> (cmd_end \<times> written list) option" where
  "runQuickstart fs getenv input =
     (case quick_answers getenv input of
        None \<Rightarrow> None
      | Some (a, input) \<Rightarrow>
          Some (case BuildQuickstart (an_preset a) (an_apiKey a) (an_model a) (an_baseURL a) (an_relayURL a) of
             Inl e \<Rightarrow> (CmdFails (''quickstart failed: '' @ e), [])
           | Inr (cfg, agentYAML) \<Rightarrow>
               (let (ok, input) = overwrite_ok fs ''worker-config.yaml'' input in
                if \<not> ok then (CmdPrints ''Aborted.'', [])
                else (case save_as fs ''worker config'' (WroteConfig ''worker-config.yaml'' cfg) '''' of
                        (CmdPrints _, w) \<Rightarrow>
                          (let (ok, input) = overwrite_ok fs ''agent-config.yaml'' input in
                           if \<not> ok then (CmdPrints ''Ready! Start with: worker -config worker-config.yaml'', w)
                           else
                             (let (e, w') = save_as fs ''agent config'' (WroteText ''agent-config.yaml'' agentYAML)
                                              ''Ready! Start with: worker -config worker-config.yaml''
                              in (e, w @ w')))
                      | (e, w) \<Rightarrow> (e, w)))))"

subsection \<open>Setting a key of the agent's file\<close>

text \<open>C35: Setting a key of the agent's file changes that key and nothing apart from it: where the command
  succeeds it has written one file, the tree in it reads the value back under the path of the key, every
  path apart from it reads as before, and setting the key again leaves no trace of the first
  value. The file is not replaced but written in place: on failure it is untouched, if the data could not be
  printed or the file not be opened, or holds the first bytes of the new content and nothing of the old.\<close>

theorem configAgentSet_sets_one_key:
  assumes "fs_read fs path = Inr bytes" "fs_parseTree fs bytes = Inr data"
  shows "\<exists>data'. data' = setNestedYAML show_key KeyText (split_char CHR ''.'' key) v data
    \<and> snd (configAgentSet fs path key v)
        = (case fs_write fs (WroteTree path data') of
             Saved \<Rightarrow> [WroteTree path data']
           | Unwritten _ (Some n) \<Rightarrow> [CutOff n (WroteTree path data')]
           | _ \<Rightarrow> [])
    \<and> ((\<exists>msg. fst (configAgentSet fs path key v) = CmdPrints msg) \<longleftrightarrow> fs_write fs (WroteTree path data') = Saved)
    \<and> getNestedYAML show_key (split_char CHR ''.'' key) data' = Some (YText v)
    \<and> (\<forall>q. apart_paths (split_char CHR ''.'' key) q
          \<longrightarrow> getNestedYAML show_key q data' = getNestedYAML show_key q data)
    \<and> setNestedYAML show_key KeyText (split_char CHR ''.'' key) v' data'
        = setNestedYAML show_key KeyText (split_char CHR ''.'' key) v' data"
proof -
  have ne: "split_char CHR ''.'' key \<noteq> []" by simp
  define data' where "data' = setNestedYAML show_key KeyText (split_char CHR ''.'' key) v data"
  have w: "snd (configAgentSet fs path key v)
        = (case fs_write fs (WroteTree path data') of
             Saved \<Rightarrow> [WroteTree path data']
           | Unwritten _ (Some n) \<Rightarrow> [CutOff n (WroteTree path data')]
           | _ \<Rightarrow> [])"
    "(\<exists>msg. fst (configAgentSet fs path key v) = CmdPrints msg) \<longleftrightarrow> fs_write fs (WroteTree path data') = Saved"
    using assms by (auto simp: configAgentSet_def save_as_def data'_def split: option.split save_end.split)
  have r: "getNestedYAML show_key (split_char CHR ''.'' key) data' = Some (YText v)"
    unfolding data'_def by (rule agent_file.tree.read_set [OF ne])
  have q: "\<forall>q. apart_paths (split_char CHR ''.'' key) q \<longrightarrow> getNestedYAML show_key q data' = getNestedYAML show_key q data"
    unfolding data'_def using agent_file.tree.read_apart [OF ne] by blast
  have s: "setNestedYAML show_key KeyText (split_char CHR ''.'' key) v' data'
      = setNestedYAML show_key KeyText (split_char CHR ''.'' key) v' data"
    unfolding data'_def by (rule agent_file.tree.set_set [OF ne])
  show ?thesis by (intro exI [of _ data'] conjI) (fact data'_def w r q s)+
qed

definition demo_files :: files where
  "demo_files = \<lparr>fs_exists = (\<lambda>_. False), fs_read = (\<lambda>_. Inr ''text''), fs_loadConfig = (\<lambda>_. Inl ''none''),
     fs_parseTree = (\<lambda>_. Inr [(KeyText ''cli'', YMap [(KeyText ''a'', YText ''1'')])]), fs_showConfig = (\<lambda>_. ''''),
     fs_write = (\<lambda>_. Saved)\<rparr>"

lemma configAgentSet_sets_one_key_witness:
  "snd (configAgentSet demo_files ''f'' ''cli.b'' ''2'')
    = [WroteTree ''f'' [(KeyText ''cli'', YMap [(KeyText ''a'', YText ''1''), (KeyText ''b'', YText ''2'')])]]
   \<and> getNestedYAML show_key [''cli'', ''a'']
       ([(KeyText ''cli'', YMap [(KeyText ''a'', YText ''1''), (KeyText ''b'', YText ''2'')])] :: agent_data) = Some (YText ''1'')"
proof -
  define data :: agent_data where "data = [(KeyText ''cli'', YMap [(KeyText ''a'', YText ''1'')])]"
  have d: "fs_read demo_files ''f'' = Inr ''text''" "fs_parseTree demo_files ''text'' = Inr data"
    "fs_write demo_files x = Saved" for x
    by (simp_all add: demo_files_def data_def)
  have s: "split_char CHR ''.'' ''cli.b'' = [''cli'', ''b'']" by code_simp
  have e: "setNestedYAML show_key KeyText [''cli'', ''b''] ''2'' data
      = [(KeyText ''cli'', YMap [(KeyText ''a'', YText ''1''), (KeyText ''b'', YText ''2'')])]"
    by (simp add: data_def item_index_def yaml_child_def)
  have a: "apart_paths [''cli'', ''b''] [''cli'', ''a'']" by (simp add: apart_paths_def)
  have g: "getNestedYAML show_key [''cli'', ''a''] data = Some (YText ''1'')"
    by (simp add: data_def item_index_def yaml_child_def)
  obtain data' where "data' = setNestedYAML show_key KeyText (split_char CHR ''.'' ''cli.b'') ''2'' data"
    and w: "snd (configAgentSet demo_files ''f'' ''cli.b'' ''2'') = [WroteTree ''f'' data']"
    and r: "\<forall>q. apart_paths (split_char CHR ''.'' ''cli.b'') q \<longrightarrow> getNestedYAML show_key q data' = getNestedYAML show_key q data"
    using configAgentSet_sets_one_key [OF d(1,2), of "''cli.b''" "''2''"] unfolding d(3) save_end.case by metis
  then have data': "data' = [(KeyText ''cli'', YMap [(KeyText ''a'', YText ''1''), (KeyText ''b'', YText ''2'')])]"
    unfolding s e by blast
  have "getNestedYAML show_key [''cli'', ''a''] data' = getNestedYAML show_key [''cli'', ''a''] data"
    using r a unfolding s by blast
  then have "getNestedYAML show_key [''cli'', ''a''] data' = Some (YText ''1'')" unfolding g .
  with w show ?thesis unfolding data' by (rule conjI)
qed

subsection \<open>The wizard keeps the key to itself\<close>

text \<open>What the wizard writes does not depend on the API key: two sessions that differ only in the key that is typed
  and in the environment, which holds keys as well, end alike and write the same files.\<close>

theorem quickstart_keeps_key_out:
  assumes "pp_NeedsAPIKey (fst (quick_preset [agent, choice]))"
  shows "runQuickstart fs getenv (agent # choice # key # input) = runQuickstart fs getenv' (agent # choice # key' # input)"
proof -
  obtain p where p: "quick_preset [agent, choice] = (p, [])"
    by (auto simp: quick_preset_def Let_def split: prod.splits)
  then have q: "quick_preset (agent # choice # ls) = (p, ls)" for ls
    by (auto simp: quick_preset_def Let_def split: prod.splits)
  have n: "pp_NeedsAPIKey p" using assms p by simp
  obtain model i1 where m: "promptInput (pp_Model p) input = (model, i1)" by fastforce
  define res where "res = quick_url p i1"
  have a: "\<exists>f. quick_answers g (agent # choice # k # input) = (case res of None \<Rightarrow> None
      | Some (base, i2) \<Rightarrow> Some (\<lparr>an_preset = p, an_apiKey = f, an_model = model, an_baseURL = base,
          an_relayURL = fst (promptInput ''ws://localhost:8081'' i2)\<rparr>, snd (promptInput ''ws://localhost:8081'' i2)))" for g k
  proof -
    obtain f where "quick_key g p (k # input) = (f, input)" using n by (simp add: quick_key_def Let_def)
    then show ?thesis
      by (intro exI [of _ f]) (simp add: quick_answers_def q m res_def case_prod_beta cong: option.case_cong)
  qed
  show ?thesis
  proof (cases res)
    case None
    with a [of getenv key] a [of getenv' key'] show ?thesis by (simp add: runQuickstart_def)
  next
    case (Some r)
    have key: "BuildQuickstart p k1 m' b r' = BuildQuickstart p k2 m' b r'" for k1 k2 m' b r'
      by (simp add: BuildQuickstart_def)
    obtain f f' where "quick_answers getenv (agent # choice # key # input) = Some (\<lparr>an_preset = p, an_apiKey = f,
        an_model = model, an_baseURL = fst r, an_relayURL = fst (promptInput ''ws://localhost:8081'' (snd r))\<rparr>,
        snd (promptInput ''ws://localhost:8081'' (snd r)))"
      "quick_answers getenv' (agent # choice # key' # input) = Some (\<lparr>an_preset = p, an_apiKey = f',
        an_model = model, an_baseURL = fst r, an_relayURL = fst (promptInput ''ws://localhost:8081'' (snd r))\<rparr>,
        snd (promptInput ''ws://localhost:8081'' (snd r)))"
      using a [of getenv key] a [of getenv' key'] Some by (auto simp: case_prod_beta)
    then show ?thesis by (simp add: runQuickstart_def key [of f _ _ _ f'])
  qed
qed

lemma quickstart_keeps_key_out_witness:
  "runQuickstart demo_files (\<lambda>_. ''sk-1'') [''1'', ''2'', ''sk-2'', ''m''] = runQuickstart demo_files (\<lambda>_. '''') [''1'', ''2'', ''sk-3'', ''m'']"
proof -
  have "pp_NeedsAPIKey (fst (quick_preset [''1'', ''2'']))" by code_simp
  then show ?thesis by (rule quickstart_keeps_key_out)
qed

subsection \<open>Choices\<close>

lemma choice_value_dec:
  "list_all is_digit s \<Longrightarrow> choice_value (of_nat k) s = Some (of_nat (foldl (\<lambda>acc c. acc * 10 + digit_val c) k s))"
proof (induction s arbitrary: k)
  case (Cons c cs)
  have "\<not> (c < CHR ''0'' \<or> c > CHR ''9'')" using Cons.prems by (auto simp: is_digit_def)
  then show ?case using Cons.IH [of "k * 10 + digit_val c"] Cons.prems by simp
qed simp

text \<open>A choice is always one of the offered ones. What is typed counts if it is the decimal number of one of them;
  the number is computed in 64 bits, so a number beyond them counts as its remainder; anything else is
  the first choice.\<close>

theorem parseChoice_bounds:
  assumes "0 < maxVal" "maxVal < 2 ^ 63"
  shows "0 \<le> parseChoice s maxVal \<and> parseChoice s maxVal < int maxVal
    \<and> parseChoice (dec_of_nat n) maxVal
        = (if 1 \<le> n mod 2 ^ 64 \<and> n mod 2 ^ 64 \<le> maxVal then int (n mod 2 ^ 64) - 1 else 0)"
proof -
  have range: "0 \<le> parseChoice s maxVal \<and> parseChoice s maxVal < int maxVal"
    using assms(1) by (auto simp: parseChoice_def Let_def split: option.split)
  have t: "trim_space (dec_of_nat n) = dec_of_nat n"
    using dec_of_nat_digits [of n] digit_plain by (intro trim_space_all_plain) (auto simp: list_all_iff)
  have v: "choice_value 0 (dec_of_nat n) = Some (word_of_nat n)"
    using choice_value_dec [OF dec_of_nat_digits, of 0 n] by (simp add: dec_val_def [symmetric])
  define w :: "64 word" where "w = word_of_nat n"
  define m where "m = n mod 2 ^ 64"
  have u: "unat w = m" by (simp add: w_def m_def unat_of_nat)
  have m64: "m < 2 ^ 64" by (simp add: m_def)
  have ui: "uint w = int m" using u by (metis int_nat_eq nat_uint_eq uint_ge_0)
  have "sint w = (int m + 2 ^ 63) mod 2 ^ 64 - 2 ^ 63"
    by (simp add: sint_uint ui signed_take_bit_eq_take_bit_shift take_bit_eq_mod)
  also have "\<dots> = (if m < 2 ^ 63 then int m else int m - 2 ^ 64)"
  proof (cases "m < 2 ^ 63")
    case True
    then show ?thesis by (simp add: mod_pos_pos_trivial)
  next
    case False
    have "(int m + 2 ^ 63) mod 2 ^ 64 = (int m + 2 ^ 63 - 2 ^ 64) mod 2 ^ 64" by (rule minus_mod_self2 [symmetric])
    with False m64 show ?thesis by simp
  qed
  finally have sw: "sint w = (if m < 2 ^ 63 then int m else int m - 2 ^ 64)" .
  with sw m64 have "sint w < 1 \<or> sint w > int maxVal \<longleftrightarrow> \<not> (1 \<le> m \<and> m \<le> maxVal)" "1 \<le> m \<and> m \<le> maxVal \<longrightarrow> sint w = int m"
    using assms(2) by auto
  then have "parseChoice (dec_of_nat n) maxVal = (if 1 \<le> m \<and> m \<le> maxVal then int m - 1 else 0)"
    by (simp add: parseChoice_def t v w_def [symmetric] Let_def)
  with range show ?thesis unfolding m_def by blast
qed

lemma parseChoice_bounds_witness:
  "parseChoice (dec_of_nat 18446744073709551618) 5 = 1 \<and> parseChoice (dec_of_nat 3) 5 = 2 \<and> parseChoice ''x'' 5 < 5"
  using parseChoice_bounds [of 5 "''x''" 18446744073709551618] parseChoice_bounds [of 5 "''x''" 3] by simp

end
