(* ===== verification/AgentEnv.thy ===== *)
theory AgentEnv
  imports Wrappers ConfigCommand WorkerRun Gateway
begin

text \<open>
  From the request of a run to the agent in its container: what the gateway makes of a request, the
  worker writes into the environment and the wrapper reads out of it; and what of the wizard's files
  gets there.
\<close>

subsection \<open>The environment of a container\<close>

lemma Getenv_policy:
  assumes "pol_TimeoutSeconds pol \<noteq> 0" "pol_Approval pol \<in> {APPROVAL_POLICY_AUTO, APPROVAL_POLICY_ASK, APPROVAL_POLICY_DENY}"
  shows "Getenv (policy_env pol env) ''TIMEOUT_SECONDS'' = dec_of_nat (unat (pol_TimeoutSeconds pol))"
    and "Getenv (policy_env pol env) ''APPROVAL_POLICY''
      = (case pol_Approval pol of APPROVAL_POLICY_AUTO \<Rightarrow> ''auto'' | APPROVAL_POLICY_DENY \<Rightarrow> ''deny''
         | APPROVAL_POLICY_ASK \<Rightarrow> ''ask'' | _ \<Rightarrow> '''')"
    and "k \<noteq> ''TIMEOUT_SECONDS'' \<Longrightarrow> k \<noteq> ''APPROVAL_POLICY'' \<Longrightarrow> Getenv (policy_env pol env) k = Getenv env k"
  using assms by (auto simp: policy_env_def Let_def word_gt_0 split: ApprovalPolicy.splits)

lemma BuildSpec_env:
  assumes "BuildSpec a req info = Inr spec" "rr_Policy req = Some pol"
  shows "ds_Env spec = policy_env pol (AList.update ''PROMPT'' (extractPrompt (rr_Input req))
           (AList.update ''SESSION_ID'' (rr_SessionId req) (AList.update ''STREAM_ID'' (ci_StreamID info) (ba_Env a))))"
  using assms by (auto simp: BuildSpec_def Let_def split: if_splits)

lemma add_missing_keeps:
  "map_of env k \<noteq> None \<Longrightarrow> map_of (add_missing kvs env) k = map_of env k"
  by (induction kvs env rule: add_missing.induct) auto

lemma NanoAgentBuildSpec_env:
  assumes "NanoAgentBuildSpec a envFile readFile req info = Inr spec"
  obtains spec0 where "BuildSpec a req info = Inr spec0"
    "\<And>k. map_of (ds_Env spec0) k \<noteq> None \<Longrightarrow> Getenv (ds_Env spec) k = Getenv (ds_Env spec0) k"
proof (cases "BuildSpec a req info")
  case (Inr spec0)
  have "Getenv (ds_Env spec) k = Getenv (ds_Env spec0) k" if "map_of (ds_Env spec0) k \<noteq> None" for k
    using assms Inr add_missing_keeps [OF that]
    by (auto simp: NanoAgentBuildSpec_def Getenv_def split: if_splits sum.splits)
  with that Inr show thesis by blast
qed (use assms in \<open>simp add: NanoAgentBuildSpec_def\<close>)

lemma trim_dec: "trim_space (dec_of_nat n) = dec_of_nat n"
  using dec_of_nat_digits [of n] digit_plain by (intro trim_space_all_plain) (auto simp: list_all_iff)

text \<open>C29: A run that the gateway accepts reaches the agent as it was asked for: the program in the container
  is called with the prompt of the request, the session it names or the default one, its timeout in
  nanoseconds without wrapping around, five minutes where it names none, and it approves the agent's tool
  calls exactly if the request asks for it or does not say. Neither the worker's configured environment
  nor an environment file can change any of them.\<close>

theorem request_reaches_agent:
  assumes "prepare_run req s = Inr (wid, rr)"
    and "NanoAgentBuildSpec a envFile readFile rr info = Inr spec"
  shows "snd (snd (nano_agent_main None None process (ds_Env spec))) = Some
    \<lparr>ac_approve = (trim_space (crq_Approval req) = '''' \<or> to_lower (trim_space (crq_Approval req)) = ''auto''),
     ac_timeout = (if crq_TimeoutSeconds req = 0 then 300 else int (unat (crq_TimeoutSeconds req))) * 1000000000,
     ac_session = (if trim_space (crq_SessionID req) = '''' then ''default'' else trim_space (crq_SessionID req)),
     ac_prompt = trim_space (crq_Prompt req)\<rparr>"
proof -
  define timeout where "timeout = (if crq_TimeoutSeconds req = 0 then 300 else crq_TimeoutSeconds req)"
  obtain pol ap where pol: "rr_Policy rr = Some pol" "pol_TimeoutSeconds pol = timeout" "pol_Approval pol = ap"
    and ap: "(if trim_space (crq_Approval req) \<noteq> '''' then parseApprovalPolicy (crq_Approval req)
              else Some APPROVAL_POLICY_AUTO) = Some ap"
    and rr: "rr_SessionId rr = crq_SessionID req" "extractPrompt (rr_Input rr) = crq_Prompt req"
    and prompt: "trim_space (crq_Prompt req) \<noteq> ''''"
    using assms(1)
    by (auto simp: prepare_run_def Let_def timeout_def extractPrompt_def split: if_splits option.splits)
  have ap': "ap \<in> {APPROVAL_POLICY_AUTO, APPROVAL_POLICY_ASK, APPROVAL_POLICY_DENY}"
    "ap = APPROVAL_POLICY_AUTO \<longleftrightarrow> trim_space (crq_Approval req) = '''' \<or> to_lower (trim_space (crq_Approval req)) = ''auto''"
    using ap by (auto simp: parseApprovalPolicy_def Let_def split: if_splits)
  have t0: "timeout \<noteq> 0" by (simp add: timeout_def)
  obtain spec0 where s0: "BuildSpec a rr info = Inr spec0"
    and keep: "\<And>k. map_of (ds_Env spec0) k \<noteq> None \<Longrightarrow> Getenv (ds_Env spec) k = Getenv (ds_Env spec0) k"
    using NanoAgentBuildSpec_env [OF assms(2)] by blast
  note env = BuildSpec_env [OF s0 pol(1)]
  note policy = Getenv_policy [of pol, unfolded pol(2,3), OF t0 ap'(1)]
  have set: "map_of (ds_Env spec0) k \<noteq> None" if "k \<in> {''PROMPT'', ''SESSION_ID'', ''TIMEOUT_SECONDS'', ''APPROVAL_POLICY''}" for k
    using that t0 ap'(1) by (auto simp: env policy_env_def Let_def pol word_gt_0 split: ApprovalPolicy.splits)
  have e: "Getenv (ds_Env spec) ''PROMPT'' = crq_Prompt req" "Getenv (ds_Env spec) ''SESSION_ID'' = crq_SessionID req"
    "Getenv (ds_Env spec) ''TIMEOUT_SECONDS'' = dec_of_nat (unat timeout)"
    "Getenv (ds_Env spec) ''APPROVAL_POLICY'' = (case ap of APPROVAL_POLICY_AUTO \<Rightarrow> ''auto''
       | APPROVAL_POLICY_DENY \<Rightarrow> ''deny'' | APPROVAL_POLICY_ASK \<Rightarrow> ''ask'' | _ \<Rightarrow> '''')"
    by (simp_all add: keep set) (simp_all add: env policy rr)
  have u: "unat timeout < 2 ^ 32" "unat timeout \<noteq> 0"
    using unsigned_less [of timeout] t0 by (simp_all add: unat_eq_zero)
  obtain n where n: "unat timeout = n" by blast
  have "agent_timeout (ds_Env spec) = int (unat timeout)"
    using u unfolding n by (simp add: agent_timeout_def e(3) [unfolded n] trim_dec atoi_dec_of_nat)
  moreover have "wrap64 (int (unat timeout) * second_ns) = int (unat timeout) * 1000000000"
    using u unfolding n by (simp add: wrap64_def second_ns_def)
  moreover have "agent_approves (ds_Env spec) \<longleftrightarrow> ap = APPROVAL_POLICY_AUTO"
  proof -
    have "to_lower (trim_space ''auto'') = ''auto''" "to_lower (trim_space ''deny'') = ''deny''"
      "to_lower (trim_space ''ask'') = ''ask''" by code_simp+
    with ap'(1) show ?thesis by (auto simp: agent_approves_def e)
  qed
  moreover have "int (unat timeout) = (if crq_TimeoutSeconds req = 0 then 300 else int (unat (crq_TimeoutSeconds req)))"
    by (simp add: timeout_def)
  ultimately show ?thesis
    using prompt ap'(2) by (simp add: nano_agent_main_def Let_def e split: prod.split)
qed

definition demo_create :: createRunRequest where
  "demo_create = \<lparr>crq_Runtime = ''nano'', crq_Prompt = '' hi '', crq_SessionID = '''', crq_WorkerID = ''w1'',
     crq_WorkspaceID = '''', crq_TimeoutSeconds = 60, crq_Resources = None, crq_Network = '''', crq_Approval = ''Ask''\<rparr>"

definition demo_info :: ContextInfo where
  "demo_info = \<lparr>ci_StreamID = ''run-1'', ci_WorkspaceDir = ''/w/run-1'', ci_HostWorkspacePath = '''', ci_AgentConfigPath = '''',
     ci_AgentConfigDest = '''', ci_WorkerID = ''w1''\<rparr>"

lemma request_reaches_agent_witness:
  "snd (snd (nano_agent_main None None (\<lambda>c. ([], None)) (policy_env
      \<lparr>pol_TimeoutSeconds = 60, pol_Resources = Some zero_capacity, pol_Network = NETWORK_POLICY_ALL, pol_Approval = APPROVAL_POLICY_ASK\<rparr>
      [(''APPROVAL_POLICY'', ''auto''), (''STREAM_ID'', ''run-1''), (''SESSION_ID'', ''''), (''PROMPT'', '' hi '')])))
    = Some \<lparr>ac_approve = False, ac_timeout = 60000000000, ac_session = ''default'', ac_prompt = ''hi''\<rparr>"
proof -
  define a where "a = \<lparr>ba_Image = ''img'', ba_Command = [], ba_Env = [(''APPROVAL_POLICY'', ''auto'')]\<rparr>"
  obtain rr where rr: "prepare_run demo_create (NewGatewayServer ''tok'') = Inr (''w1'', rr)"
    "rr_Policy rr = Some \<lparr>pol_TimeoutSeconds = 60, pol_Resources = Some zero_capacity, pol_Network = NETWORK_POLICY_ALL,
       pol_Approval = APPROVAL_POLICY_ASK\<rparr>" "rr_SessionId rr = ''''" "extractPrompt (rr_Input rr) = '' hi ''"
  proof -
    have "trim_space '' hi '' \<noteq> ''''" "parseRuntime ''nano'' = RUNTIME_NANO_AGENT" "trim_space ''w1'' = ''w1''"
      "trim_space ''Ask'' \<noteq> ''''" "parseApprovalPolicy ''Ask'' = Some APPROVAL_POLICY_ASK" by code_simp+
    then show thesis using that by (simp add: prepare_run_def demo_create_def extractPrompt_def)
  qed
  obtain spec where s: "NanoAgentBuildSpec a '''' (\<lambda>_. EnvMissing) rr demo_info = Inr spec"
    and b: "BuildSpec a rr demo_info = Inr spec"
    by (simp add: NanoAgentBuildSpec_def BuildSpec_def a_def demo_info_def Let_def)
  have "ds_Env spec = policy_env
      \<lparr>pol_TimeoutSeconds = 60, pol_Resources = Some zero_capacity, pol_Network = NETWORK_POLICY_ALL, pol_Approval = APPROVAL_POLICY_ASK\<rparr>
      [(''APPROVAL_POLICY'', ''auto''), (''STREAM_ID'', ''run-1''), (''SESSION_ID'', ''''), (''PROMPT'', '' hi '')]"
    using BuildSpec_env [OF b rr(2)] rr(3,4) by (simp add: a_def demo_info_def)
  moreover have "trim_space '' hi '' = ''hi''" "trim_space ''Ask'' = ''Ask''" "to_lower ''Ask'' = ''ask''" by code_simp+
  ultimately show ?thesis
    using request_reaches_agent [OF rr(1) s, of "\<lambda>c. ([], None)"] by (simp add: demo_create_def)
qed

definition demo_run :: RunRequest where
  "demo_run = \<lparr>rr_SessionId = '''', rr_Runtime = RUNTIME_OPENCODE, rr_Workspace = None, rr_Input = None, rr_Policy = None,
     rr_SecretsRef = ''''\<rparr>"

subsection \<open>The wizard's file\<close>

lemma quickstart_config:
  assumes "BuildQuickstart preset key model baseURL relay = Inr (cfg, text)"
  shows "cfg_AgentConfigPath cfg = ''agent-config.yaml''" "cfg_HostStateRoot cfg = ''''"
    "cfg_Runtimes cfg = cfg_Runtimes DefaultConfig" "pp_EnvKey preset \<in> set (cfg_EnvPassthrough cfg)"
proof -
  have "cfg_HostStateRoot DefaultConfig = ''''" by (simp add: DefaultConfig_def empty_config_def)
  then show "cfg_AgentConfigPath cfg = ''agent-config.yaml''" "cfg_HostStateRoot cfg = ''''"
    "cfg_Runtimes cfg = cfg_Runtimes DefaultConfig" "pp_EnvKey preset \<in> set (cfg_EnvPassthrough cfg)"
    using assms by (auto simp: BuildQuickstart_def Let_def split: if_splits)
qed

lemma default_dest:
  assumes "lookup_runtime DefaultConfig key = Some (name, rc)"
  shows "rc_AgentConfigDest rc = (if name = ''nano_agent'' then ''/root/.config/nano/config.yaml'' else '''')"
  using assms
  by (auto simp: lookup_runtime_def DefaultConfig_def empty_runtime_def Let_def split: option.splits if_splits)

text \<open>The agent configuration that the wizard writes does not reach an agent. The configuration the wizard
  writes beside it names it by a relative path and mounts it for the runtime nano_agent only: under
  every other runtime, also the ones the wizard offers, a container has its workspace as its only mount;
  under nano_agent the source of the mount is the relative name, where the runtime interface asks for an
  absolute path on the host.\<close>

theorem quickstart_file_not_mounted:
  assumes "BuildQuickstart preset key model baseURL relay = Inr (cfg, text)"
    and "lookup_runtime cfg (runtime_key rt) = Some (name, rc)"
    and "BuildSpec a req (run_context cfg rc streamID workspaceDir) = Inr spec"
  shows "if name = ''nano_agent''
    then workspaceDir = ''agent-config.yaml''
      \<or> map_of (ds_Mounts spec) ''agent-config.yaml'' = Some ''/root/.config/nano/config.yaml''
    else \<forall>m \<in> set (ds_Mounts spec). snd m = ''/workspace''"
proof -
  note q = quickstart_config [OF assms(1)]
  have d: "rc_AgentConfigDest rc = (if name = ''nano_agent'' then ''/root/.config/nano/config.yaml'' else '''')"
  proof (rule default_dest)
    show "lookup_runtime DefaultConfig (runtime_key rt) = Some (name, rc)"
      using assms(2) unfolding lookup_runtime_def q(3) .
  qed
  have c: "ci_AgentConfigPath (run_context cfg rc streamID workspaceDir) = ''agent-config.yaml''"
    "ci_AgentConfigDest (run_context cfg rc streamID workspaceDir) = rc_AgentConfigDest rc"
    by (simp_all add: run_context_def q(1,2))
  show ?thesis
    using assms(3) by (auto simp: BuildSpec_def Let_def c d split: if_splits)
qed

lemma quickstart_file_not_mounted_witness:
  "\<exists>cfg text rc spec. BuildQuickstart (Providers ! 0) '''' '''' '''' '''' = Inr (cfg, text)
    \<and> BuildSpec \<lparr>ba_Image = rc_Image rc, ba_Command = [], ba_Env = []\<rparr> demo_run (run_context cfg rc ''run-1'' ''/w/run-1'') = Inr spec
    \<and> (\<forall>m \<in> set (ds_Mounts spec). snd m = ''/workspace'')"
proof -
  define rc where "rc = empty_runtime\<lparr>rc_Image := ''nano-cli-runtime:local'', rc_Env := Some [(''RUNTIME_BIN'', ''opencode'')]\<rparr>"
  obtain cfg y where q: "BuildQuickstart (Providers ! 0) '''' '''' '''' '''' = Inr (cfg, y)"
    by (simp add: BuildQuickstart_def Providers_def Let_def)
  have "runtime_key RUNTIME_OPENCODE = ''opencode''" by code_simp
  then have l: "lookup_runtime cfg (runtime_key RUNTIME_OPENCODE) = Some (''opencode'', rc)"
    unfolding lookup_runtime_def quickstart_config(3) [OF q] by (simp add: DefaultConfig_def rc_def)
  have img: "rc_Image rc \<noteq> ''''" by (simp add: rc_def)
  obtain spec where s: "BuildSpec \<lparr>ba_Image = rc_Image rc, ba_Command = [], ba_Env = []\<rparr> demo_run
      (run_context cfg rc ''run-1'' ''/w/run-1'') = Inr spec"
    using img by (simp add: BuildSpec_def Let_def)
  have "\<forall>m \<in> set (ds_Mounts spec). snd m = ''/workspace''"
    using quickstart_file_not_mounted [OF q l s] by simp
  with q s show ?thesis by blast
qed

end
