(* ===== verification/Diagnose.thy ===== *)
theory Diagnose
  imports WorkerConn
begin

text \<open>
  \<^verbatim>\<open>pkg/worker/diagnose.go\<close>: what the worker reports of its way to the gateway and of
  the logs of its runs. The network and the file system are records of functions; every part of the
  report is given as it appears in the JSON object and as the lines that are printed.
\<close>

subsection \<open>Addresses\<close>

definition default_port :: "string \<Rightarrow> string" where
  "default_port baseScheme = (if baseScheme = ''https'' then ''443'' else ''80'')"

definition relayToBase ::
  "(string \<Rightarrow> string + url) \<Rightarrow> string \<Rightarrow> string + string \<times> string \<times> string \<times> string" where
  "relayToBase parse relay =
     (case parse (trim_space relay) of
        Inl _ \<Rightarrow> Inl (''invalid relay url: '' @ go_quote relay)
      | Inr u \<Rightarrow>
          if u_Scheme u = '''' \<or> u_Host u = '''' then Inl (''invalid relay url: '' @ go_quote relay)
          else
            (let baseScheme = (if u_Scheme u = ''wss'' then ''https'' else ''http'');
                 port = (if url_Port u = '''' then default_port baseScheme else url_Port u);
                 base = baseScheme @ ''://'' @ JoinHostPort (url_Hostname u) port
             in Inr (base, baseScheme, url_Hostname u, port)))"

definition wsURLFromRelay :: "(string \<Rightarrow> string + url) \<Rightarrow> (url \<Rightarrow> string) \<Rightarrow> string \<Rightarrow> string option" where
  "wsURLFromRelay parse show relay =
     (case parse (trim_space relay) of
        Inl _ \<Rightarrow> None
      | Inr u \<Rightarrow> if u_Scheme u = '''' \<or> u_Host u = '''' then None
                 else Some (show (u\<lparr>u_Path := ''/v1/worker/connect''\<rparr>)))"

text \<open>The stages a failure is put down to.\<close>

definition classifyErr :: "string option \<Rightarrow> string" where
  "classifyErr err =
     (case err of None \<Rightarrow> ''ok''
      | Some e \<Rightarrow>
          (let msg = to_lower e in
           if contains msg ''no such host'' then ''dns''
           else if contains msg ''connect: connection refused'' \<or> contains msg ''i/o timeout'' \<or> contains msg ''timeout''
           then ''tcp''
           else if contains msg ''x509'' \<or> contains msg ''certificate'' then ''tls''
           else if contains msg ''proxy'' \<or> contains msg ''407'' then ''proxy''
           else ''other''))"

definition errString :: "string option \<Rightarrow> string" where
  "errString err = (case err of None \<Rightarrow> '''' | Some e \<Rightarrow> e)"

definition filepathJoin :: "string list \<Rightarrow> string" where
  "filepathJoin parts = join ''/'' parts"

subsection \<open>The report on the gateway\<close>

datatype json =
    JNull
  | JBool bool
  | JNum nat
  | JStr string
  | JArr "json list"
  | JObj "(string \<times> json) list"

type_synonym headers = "(string \<times> string list) list"

type_synonym part = "(string \<times> json) list \<times> string list"

text \<open>
  The network: name lookup, dialling, a TLS handshake, a request with or without the proxy of the
  environment, and a web socket handshake, which fails, is refused with a status, or succeeds.
\<close>

datatype ws_result = WsFails string | WsRefused nat headers | WsOpen headers

record network =
  nw_lookup :: "string \<Rightarrow> string + string list"
  nw_tcp :: "string \<Rightarrow> string option"
  nw_tls :: "string \<Rightarrow> string option"
  nw_get :: "bool \<Rightarrow> string \<Rightarrow> string + nat \<times> headers"
  nw_ws :: "string \<Rightarrow> string option \<Rightarrow> ws_result"

text \<open>\<^verbatim>\<open>fmt.Println\<close>: the operands with spaces between them.\<close>

definition println :: "string list \<Rightarrow> string" where
  "println ws = join '' '' ws"

definition headerToMap :: "headers option \<Rightarrow> json" where
  "headerToMap h =
     (case h of None \<Rightarrow> JNull
      | Some hs \<Rightarrow> JObj (map (\<lambda>(k, vs). (k, if vs = [] then JNull else JArr (map JStr vs))) hs))"

definition header_lines :: "bool \<Rightarrow> headers option \<Rightarrow> string list" where
  "header_lines verbose h =
     (if verbose then (case h of None \<Rightarrow> []
                       | Some hs \<Rightarrow> map (\<lambda>(k, vs). ''  H '' @ k @ '': '' @ join '','' vs) hs)
      else [])"

definition dns_part :: "network \<Rightarrow> string \<Rightarrow> part" where
  "dns_part nw host =
     (case nw_lookup nw host of
        Inr addrs \<Rightarrow>
          ([(''dns'', JObj [(''ok'', JBool True), (''addrs'', JArr (map JStr addrs)), (''error'', JStr ''''),
                            (''class'', JStr ''ok'')])],
           [println [''DNS:'', ''OK'', join '','' addrs]])
      | Inl e \<Rightarrow>
          ([(''dns'', JObj [(''ok'', JBool False), (''addrs'', JNull), (''error'', JStr e),
                            (''class'', JStr (classifyErr (Some e)))])],
           [println [''DNS:'', ''FAIL'', e]]))"

definition stage_part :: "string \<Rightarrow> string \<Rightarrow> string option \<Rightarrow> part" where
  "stage_part key label err =
     (case err of
        None \<Rightarrow> ([(key, JObj [(''ok'', JBool True)])], [println [label, ''OK'']])
      | Some e \<Rightarrow>
          ([(key, JObj [(''ok'', JBool False), (''error'', JStr e), (''class'', JStr (classifyErr err))])],
           [println [label, ''FAIL'', classifyErr err, e]]))"

text \<open>The answer to a request, without its headers unless they are wanted.\<close>

definition http_get :: "network \<Rightarrow> bool \<Rightarrow> bool \<Rightarrow> string \<Rightarrow> nat \<times> headers option \<times> string option" where
  "http_get nw verbose useProxy u =
     (case nw_get nw useProxy u of
        Inl e \<Rightarrow> (0, None, Some e)
      | Inr (status, hs) \<Rightarrow> (status, if verbose then Some hs else None, None))"

definition http_part :: "string \<Rightarrow> string \<Rightarrow> bool \<Rightarrow> nat \<times> headers option \<times> string option \<Rightarrow> part" where
  "http_part key label verbose res =
     (let (status, hs, err) = res in
      ([(key, JObj [(''ok'', JBool (err = None)), (''status'', JNum status), (''error'', JStr (errString err)),
                    (''class'', JStr (classifyErr err)), (''headers'', headerToMap hs)])],
       (case err of
          Some e \<Rightarrow> [println [label, ''FAIL'', classifyErr err, e]]
        | None \<Rightarrow> println [label, dec_of_nat status] # header_lines verbose hs)))"

definition suggestion_part :: "string \<Rightarrow> string option \<Rightarrow> string option \<Rightarrow> part" where
  "suggestion_part host errEnv errNP =
     (if errEnv \<noteq> None \<and> errNP = None then
        (let suggest = (if host \<noteq> ''localhost'' \<and> host \<noteq> ''127.0.0.1''
                        then ''localhost,127.0.0.1,'' @ host else host)
         in ([(''no_proxy_suggestion'', JStr suggest)],
             [println [''Suggestion: set NO_PROXY to include:'', suggest]]))
      else ([], []))"

text \<open>The token of the state file: \<open>read\<close> decodes the file of a path, if it can.\<close>

definition loadWorkerTokenFromState :: "string \<Rightarrow> (string \<Rightarrow> string option) \<Rightarrow> string \<Rightarrow> string" where
  "loadWorkerTokenFromState home read stateDir0 =
     (let stateDir = trim_space stateDir0;
          stateDir = (if stateDir = '''' \<and> home \<noteq> '''' then filepathJoin [home, ''.nano-cloud'', ''state''] else stateDir)
      in case read (filepathJoin [stateDir, ''state.json'']) of None \<Rightarrow> '''' | Some tok \<Rightarrow> trim_space tok)"

definition wsHandshakeProbe :: "network \<Rightarrow> string \<Rightarrow> string \<Rightarrow> string \<times> headers option \<times> string option" where
  "wsHandshakeProbe nw wsURL token =
     (case nw_ws nw wsURL (if trim_space token \<noteq> '''' then Some (''Bearer '' @ token) else None) of
        WsFails e \<Rightarrow> ('''', None, Some e)
      | WsRefused code hs \<Rightarrow> (if code = 401 then ''unauthorized'' else ''http-'' @ dec_of_nat code, Some hs, None)
      | WsOpen hs \<Rightarrow> (''ok'', Some hs, None))"

definition ws_part :: "bool \<Rightarrow> string \<times> headers option \<times> string option \<Rightarrow> part" where
  "ws_part verbose res =
     (let (status, hs, err) = res in
      ([(''ws'', JObj [(''ok'', JBool (err = None)), (''status'', JStr status), (''error'', JStr (errString err)),
                       (''class'', JStr (classifyErr err)), (''headers'', headerToMap hs)])],
       (case err of
          Some e \<Rightarrow> [println [''WS /v1/worker/connect:'', ''FAIL'', classifyErr err, e]]
        | None \<Rightarrow> println [''WS /v1/worker/connect:'', status] # header_lines verbose hs)))"

definition address_part :: "(string \<Rightarrow> string) \<Rightarrow> string \<Rightarrow> string \<times> string \<times> string \<times> string \<Rightarrow> part" where
  "address_part getenv relay res =
     (let (base, scheme, host, port) = res in
      ([(''relay'', JStr relay), (''base'', JStr base), (''host'', JStr host), (''port'', JStr port),
        (''scheme'', JStr scheme),
        (''env'', JObj [(''http_proxy'', JStr (getenv ''HTTP_PROXY'')), (''https_proxy'', JStr (getenv ''HTTPS_PROXY'')),
                        (''no_proxy'', JStr (getenv ''NO_PROXY''))])],
       ['''', ''--- Gateway Diagnostics ---'', println [''Relay URL:'', relay], println [''HTTP Base:'', base],
        println [''Host:'', host, ''Port:'', port, ''Scheme:'', scheme],
        println [''HTTP_PROXY:'', getenv ''HTTP_PROXY''], println [''HTTPS_PROXY:'', getenv ''HTTPS_PROXY''],
        println [''NO_PROXY:'', getenv ''NO_PROXY'']]))"

definition gateway_parts ::
  "(string \<Rightarrow> string + url) \<Rightarrow> (url \<Rightarrow> string) \<Rightarrow> network \<Rightarrow> (string \<Rightarrow> string) \<Rightarrow> string \<Rightarrow> (string \<Rightarrow> string option)
    \<Rightarrow> string \<Rightarrow> string \<Rightarrow> bool \<Rightarrow> string \<times> string \<times> string \<times> string \<Rightarrow> part list" where
  "gateway_parts parse show nw getenv home read relay stateDir verbose res =
     (let (base, scheme, host, port) = res;
          dnsOk = (case nw_lookup nw host of Inl _ \<Rightarrow> False | Inr _ \<Rightarrow> True);
          env = http_get nw verbose True (base @ ''/console'');
          np = http_get nw verbose False (base @ ''/console'')
      in [address_part getenv relay res, dns_part nw host]
         @ (if dnsOk then [stage_part ''tcp'' ''TCP:'' (nw_tcp nw (JoinHostPort host port))] else [])
         @ (if scheme = ''https'' then [stage_part ''tls'' ''TLS:'' (nw_tls nw (JoinHostPort host port))] else [])
         @ [http_part ''http_env'' ''HTTP /console (env-proxy):'' verbose env,
            http_part ''http_no_proxy'' ''HTTP /console (no-proxy):'' verbose np,
            suggestion_part host (snd (snd env)) (snd (snd np))]
         @ (case wsURLFromRelay parse show relay of None \<Rightarrow> []
            | Some u \<Rightarrow> [ws_part verbose (wsHandshakeProbe nw u (loadWorkerTokenFromState home read stateDir))]))"

text \<open>What is printed: one JSON value, or lines.\<close>

datatype printed = PrintedJson json | PrintedLines "string list"

definition PrintGatewayDiagnostics ::
  "(string \<Rightarrow> string + url) \<Rightarrow> (url \<Rightarrow> string) \<Rightarrow> network \<Rightarrow> (string \<Rightarrow> string) \<Rightarrow> string \<Rightarrow> (string \<Rightarrow> string option)
    \<Rightarrow> string \<Rightarrow> string \<Rightarrow> bool \<Rightarrow> bool \<Rightarrow> printed" where
  "PrintGatewayDiagnostics parse show nw getenv home read relay stateDir verbose asJSON =
     (case relayToBase parse relay of
        Inl e \<Rightarrow>
          if asJSON then PrintedJson (JObj [(''relay'', JStr relay), (''error'', JStr e)])
          else PrintedLines ['''', ''--- Gateway Diagnostics ---'', println [''Relay URL:'', relay],
                             println [''Parse error:'', e], ''---------------------------'']
      | Inr res \<Rightarrow>
          (let ps = gateway_parts parse show nw getenv home read relay stateDir verbose res in
           if asJSON then PrintedJson (JObj (concat (map fst ps)))
           else PrintedLines (concat (map snd ps) @ [''---------------------------''])))"

subsection \<open>The report on the runs\<close>

record runInfo =
  ri_RunID :: string
  ri_Dir :: string
  ri_ModTime :: int
  ri_ModStr :: string
  ri_HasErr :: bool

text \<open>
  An entry of a directory: its name, whether it is a directory, its time if it has one, and for
  a directory the files in it that are read: the run identifiers of the two metadata files, as far as
  they decode, whether there is a log of the standard output, and the size of the other log.
\<close>

record dir_entry =
  de_Name :: string
  de_IsDir :: bool
  de_ModTime :: "int option"
  de_RunMeta :: "string option"
  de_WorkspaceMeta :: "string option"
  de_HasStdout :: bool
  de_StderrSize :: "nat option"

text \<open>\<open>fmt\<close> prints a time; \<open>zero\<close> is the time of an entry that has none.\<close>

definition run_info :: "(int \<Rightarrow> string) \<Rightarrow> int \<Rightarrow> string \<Rightarrow> string option \<Rightarrow> dir_entry \<Rightarrow> runInfo" where
  "run_info fmt zero root meta e =
     (let modTime = (case de_ModTime e of None \<Rightarrow> zero | Some t \<Rightarrow> t);
          runID = (case meta of None \<Rightarrow> de_Name e | Some rid \<Rightarrow> if rid \<noteq> '''' then rid else de_Name e)
      in \<lparr>ri_RunID = runID, ri_Dir = filepathJoin [root, de_Name e], ri_ModTime = modTime, ri_ModStr = fmt modTime,
          ri_HasErr = (case de_StderrSize e of None \<Rightarrow> False | Some n \<Rightarrow> n > 0)\<rparr>)"

fun collectFromLogRoot :: "(int \<Rightarrow> string) \<Rightarrow> int \<Rightarrow> string \<Rightarrow> dir_entry list \<Rightarrow> runInfo list" where
  "collectFromLogRoot fmt zero root [] = []"
| "collectFromLogRoot fmt zero root (e # es) =
     (if \<not> de_IsDir e then collectFromLogRoot fmt zero root es
      else run_info fmt zero root (de_RunMeta e) e # collectFromLogRoot fmt zero root es)"

fun collectFromWorkspace :: "(int \<Rightarrow> string) \<Rightarrow> int \<Rightarrow> string \<Rightarrow> dir_entry list \<Rightarrow> runInfo list" where
  "collectFromWorkspace fmt zero root [] = []"
| "collectFromWorkspace fmt zero root (e # es) =
     (if \<not> de_IsDir e \<or> \<not> de_HasStdout e then collectFromWorkspace fmt zero root es
      else run_info fmt zero root (de_WorkspaceMeta e) e # collectFromWorkspace fmt zero root es)"

definition maxReadSize :: nat where "maxReadSize = 1024 * 1024"

text \<open>The bytes of a file, or \<^verbatim>\<open>None\<close> where opening or reading it fails.\<close>

definition tailFile :: "string option \<Rightarrow> nat \<Rightarrow> string" where
  "tailFile f n =
     (case f of None \<Rightarrow> ''''
      | Some bytes \<Rightarrow>
          (let b = drop (length bytes - maxReadSize) bytes in
           if b = '''' then ''''
           else (let allLines = split_char CHR 0x0A (trim_right_chars {CHR 0x0A} b)
                 in join [CHR 0x0A] (drop (length allLines - n) allLines))))"

definition tail_lines :: "(string \<Rightarrow> string option) \<Rightarrow> string \<Rightarrow> runInfo \<Rightarrow> string \<Rightarrow> string list" where
  "tail_lines read label r name =
     (let tl = tailFile (read (filepathJoin [ri_Dir r, name])) 20 in
      if tl \<noteq> '''' then ['''', ''Latest run '' @ label @ '' ('' @ ri_RunID r @ ''):'', tl] else [])"

text \<open>
  \<open>readDir\<close> reads a directory, \<open>sortRuns\<close> is \<^verbatim>\<open>sort.Slice\<close> by descending time. The
  first component are the lines, the second what goes to the standard error.
\<close>

definition collect_runs ::
  "(int \<Rightarrow> string) \<Rightarrow> int \<Rightarrow> (string \<Rightarrow> string + dir_entry list) \<Rightarrow> string \<Rightarrow> string
    \<Rightarrow> runInfo list \<times> string option \<times> string" where
  "collect_runs fmt zero readDir logRoot workspaceRoot =
     (let (runs, err, src) =
        (if logRoot \<noteq> '''' then
           (case readDir logRoot of Inl e \<Rightarrow> ([], Some e, logRoot)
            | Inr es \<Rightarrow> (collectFromLogRoot fmt zero logRoot es, None, logRoot))
         else ([], None, ''''))
      in if runs = [] \<and> workspaceRoot \<noteq> '''' then
           (case readDir workspaceRoot of Inl e \<Rightarrow> ([], Some e, workspaceRoot)
            | Inr es \<Rightarrow> (collectFromWorkspace fmt zero workspaceRoot es, None, workspaceRoot))
         else (runs, err, src))"

definition run_line :: "runInfo \<Rightarrow> string" where
  "run_line r = ''  '' @ ri_ModStr r @ ''  '' @ ri_RunID r @ (if ri_HasErr r then '' [stderr]'' else '''')"

definition PrintAgentLogsDiagnostics ::
  "(int \<Rightarrow> string) \<Rightarrow> int \<Rightarrow> (string \<Rightarrow> string + dir_entry list) \<Rightarrow> (runInfo list \<Rightarrow> runInfo list)
    \<Rightarrow> (string \<Rightarrow> string option) \<Rightarrow> string \<Rightarrow> string \<Rightarrow> bool \<Rightarrow> string list \<times> string list" where
  "PrintAgentLogsDiagnostics fmt zero readDir sortRuns read logRoot workspaceRoot verbose =
     (let (runs, err, src) = collect_runs fmt zero readDir logRoot workspaceRoot;
          runs = take 10 (sortRuns runs);
          head = ['''', ''--- Agent Logs ---''] @ (if src \<noteq> '''' then [println [''Source:'', src]] else []);
          warnings = (case err of Some e \<Rightarrow> if verbose then [''Warning: failed to read '' @ src @ '': '' @ e] else []
                      | None \<Rightarrow> [])
      in case runs of
           [] \<Rightarrow>
             (head @ [if logRoot = '''' \<and> workspaceRoot = '''' then ''No log-root or workspace-root configured.''
                      else ''No agent runs found.'', ''------------------''], warnings)
         | r # _ \<Rightarrow>
             (head @ [''Recent runs (last '' @ dec_of_nat (length runs) @ ''):''] @ map run_line runs
              @ (if ri_HasErr r \<or> verbose then tail_lines read ''stderr'' r ''agent.stderr.log'' else [])
              @ (if verbose then tail_lines read ''stdout'' r ''agent.stdout.log'' else [])
              @ [''------------------''], warnings))"

subsection \<open>What is shown\<close>

lemma split_char_join_drop: "join [c] (drop k (split_char c s)) = drop (length s - length (join [c] (drop k (split_char c s)))) s
  \<and> length (join [c] (drop k (split_char c s))) \<le> length s"
proof (induction s arbitrary: k)
  case Nil
  then show ?case by (cases k) auto
next
  case (Cons d s)
  show ?case
  proof (cases k)
    case 0
    have "join [c] (split_char c (d # s)) = d # s" by (rule join_split_char)
    then show ?thesis using 0 by simp
  next
    case (Suc j)
    obtain w ws where w: "split_char c s = w # ws" by (cases "split_char c s") auto
    define k' where "k' = (if d = c then j else Suc j)"
    have e: "drop k (split_char c (d # s)) = drop k' (split_char c s)"
      by (auto simp: Suc w k'_def)
    have "length (join [c] (drop k' (split_char c s))) \<le> length s" using Cons.IH [of k'] by blast
    then show ?thesis using Cons.IH [of k'] unfolding e by (simp add: Suc_diff_le)
  qed
qed

lemma length_split_char: "length (split_char c s) = Suc (count_list s c)"
  by (induction s) (auto split: list.split)

text \<open>The tail of a log is the end of its last mebibyte without its last line ends, at most \<open>n\<close> lines
  of it.\<close>

lemma tailFile_suffix:
  assumes "0 < n"
  shows "suffix (tailFile (Some bytes) n) (trim_right_chars {CHR 0x0A} (drop (length bytes - maxReadSize) bytes))
    \<and> count_list (tailFile (Some bytes) n) CHR 0x0A < n"
proof -
  define s where "s = trim_right_chars {CHR 0x0A} (drop (length bytes - maxReadSize) bytes)"
  define ls where "ls = split_char CHR 0x0A s"
  define t where "t = join [CHR 0x0A] (drop (length ls - n) ls)"
  have "suffix t s" using split_char_join_drop [of "CHR 0x0A" "length ls - n" s] unfolding t_def ls_def
    by (metis suffix_drop)
  moreover have "count_list t CHR 0x0A < n"
  proof -
    have j: "count_list (join [c] vs) c = length vs - 1" if "\<forall>v \<in> set vs. c \<notin> set v" for c and vs :: "string list"
      using that
    proof (induction vs)
      case (Cons v vs)
      then show ?case by (cases vs) (auto simp: count_list_0_iff)
    qed simp
    have "CHR 0x0A \<notin> set v" if "v \<in> set (drop (length ls - n) ls)" for v
      using split_char_no_sep in_set_dropD [OF that] unfolding ls_def by blast
    then show ?thesis using j [of "drop (length ls - n) ls"] assms by (simp add: t_def)
  qed
  moreover have "tailFile (Some bytes) n = (if drop (length bytes - maxReadSize) bytes = '''' then '''' else t)"
    by (simp add: tailFile_def t_def ls_def s_def Let_def)
  ultimately show ?thesis using assms by (auto simp: s_def trim_right_chars_def)
qed

text \<open>Where the relay URL names no port the diagnosis looks at another port than the worker uses: the
  worker dials 8081, the report probes port 80, or 443 for a secure URL. It probes the dialled port
  exactly when the URL names one or the worker's.\<close>

theorem diagnosis_probes_other_port:
  assumes "parse (cfg_RelayURL cfg) = Inr u" "trim_space (cfg_RelayURL cfg) = cfg_RelayURL cfg"
    and "u_Scheme u \<noteq> ''''" "url_Hostname u \<noteq> ''''"
  shows "\<exists>v auth base scheme port. dial parse cfg = Inr (v, auth)
    \<and> relayToBase parse (cfg_RelayURL cfg) = Inr (base, scheme, url_Hostname u, port)
    \<and> (if url_Port u = '''' then url_Port v = ''8081'' \<and> port \<in> {''80'', ''443''} else port = url_Port v)"
proof -
  obtain v auth where v: "dial parse cfg = Inr (v, auth)"
    "url_Port v = (if url_Port u = '''' then ''8081'' else url_Port u)"
    using dial_ok [of parse cfg u] assms(1,4) by metis
  have "split_host '''' = ('''', '''')" by code_simp
  then have "u_Host u \<noteq> ''''" using assms(4) by (auto simp: url_Hostname_def)
  with assms(1-3) v show ?thesis
    by (auto simp: relayToBase_def default_port_def Let_def)
qed

lemma diagnosis_probes_other_port_witness:
  "\<exists>v auth base scheme port. dial (\<lambda>s. Inr \<lparr>u_Scheme = ''wss'', u_Host = s, u_Path = '''', u_RawQuery = '''', u_Fragment = ''''\<rparr>)
       (empty_config\<lparr>cfg_RelayURL := ''gate''\<rparr>) = Inr (v, auth)
    \<and> relayToBase (\<lambda>s. Inr \<lparr>u_Scheme = ''wss'', u_Host = s, u_Path = '''', u_RawQuery = '''', u_Fragment = ''''\<rparr>) ''gate''
       = Inr (base, scheme, ''gate'', port)
    \<and> url_Port v = ''8081'' \<and> port \<in> {''80'', ''443''}"
proof -
  define u where "u = \<lparr>u_Scheme = ''wss'', u_Host = ''gate'', u_Path = '''', u_RawQuery = '''', u_Fragment = ''''\<rparr>"
  have h: "url_Hostname u = ''gate''" "url_Port u = ''''" "trim_space ''gate'' = ''gate''" unfolding u_def by code_simp+
  show ?thesis
    using diagnosis_probes_other_port [of "\<lambda>s. Inr \<lparr>u_Scheme = ''wss'', u_Host = s, u_Path = '''', u_RawQuery = '''', u_Fragment = ''''\<rparr>"
        "empty_config\<lparr>cfg_RelayURL := ''gate''\<rparr>" u] h
    by (simp add: u_def)
qed

end
