(* ===== verification/WorkerCommand.thy ===== *)
theory WorkerCommand
  imports Diagnose Bootstrap
begin

text \<open>
  The worker's command line (\<^verbatim>\<open>cmd/worker/main.go\<close>): which subcommand runs, the
  configuration a worker starts with, where the logs of a run are looked for, editing the two
  configuration files, and the wizard. Files, the YAML library and the terminal are arguments; what
  is printed is modelled where it is the result, not where it accompanies it.
\<close>

subsection \<open>Subcommands\<close>

definition parseLabels :: "string \<Rightarrow> string list" where
  "parseLabels s0 =
     (let s = trim_space s0 in if s = '''' then [] else nonempty_parts (split_char CHR '','' s))"

datatype command =
    CmdConfig "string list"
  | CmdQuickstart
  | CmdDiagnose
  | CmdTroubleshoot string
  | CmdInspect string
  | CmdLogs string bool bool
  | CmdRun
  | CmdFatal string

definition parse_command :: "string list \<Rightarrow> command" where
  "parse_command args =
     (case args of [] \<Rightarrow> CmdRun
      | a # rest \<Rightarrow>
          if a = ''config'' then CmdConfig rest
          else if a = ''quickstart'' then CmdQuickstart
          else if a = ''diagnose'' then CmdDiagnose
          else if a = ''troubleshoot'' then
            (case rest of [] \<Rightarrow> CmdFatal ''troubleshoot requires a run_id'' | r # _ \<Rightarrow> CmdTroubleshoot r)
          else if a = ''inspect'' then
            (case rest of [] \<Rightarrow> CmdFatal ''inspect requires a run_id'' | r # _ \<Rightarrow> CmdInspect r)
          else if a = ''logs'' then
            (case rest of [] \<Rightarrow> CmdFatal ''logs requires a run_id''
             | r # opts \<Rightarrow> CmdLogs r (list_ex (\<lambda>x. x = ''--stderr'' \<or> x = ''stderr'') opts)
                                    (list_ex (\<lambda>x. x = ''--follow'' \<or> x = ''-f'') opts))
          else if a = ''run'' then CmdRun
          else if \<not> prefix ''-'' a then CmdFatal (''unknown subcommand: '' @ a)
          else CmdRun)"

subsection \<open>The configuration of a worker that starts\<close>

record worker_flags =
  fl_relay :: string
  fl_enrollToken :: string
  fl_stateDir :: string
  fl_workspaceRoot :: string
  fl_hostWorkspaceRoot :: string
  fl_hostStateRoot :: string
  fl_logRoot :: string
  fl_labels :: string

definition actual_relay :: "(string \<Rightarrow> string) \<Rightarrow> worker_flags \<Rightarrow> string" where
  "actual_relay getenv fl = (if fl_relay fl = '''' then getenv ''RELAY_URL'' else fl_relay fl)"

definition use_remote :: "Config option \<Rightarrow> string \<Rightarrow> worker_flags \<Rightarrow> bool" where
  "use_remote cfg relay fl =
     (case cfg of None \<Rightarrow> True
      | Some c \<Rightarrow> cfg_EnrollToken c \<noteq> '''' \<or> cfg_StateDir c \<noteq> ''''
                  \<or> relay \<noteq> '''' \<or> fl_enrollToken fl \<noteq> '''' \<or> fl_stateDir fl \<noteq> '''')"

definition or_flag :: "string \<Rightarrow> string \<Rightarrow> string" where
  "or_flag fl v = (if fl \<noteq> '''' then fl else v)"

definition boot_config :: "Config option \<Rightarrow> string \<Rightarrow> worker_flags \<Rightarrow> BootstrapConfig" where
  "boot_config cfg relay fl =
     (let c = (case cfg of None \<Rightarrow> empty_config | Some c \<Rightarrow> c) in
      \<lparr>bc_RelayURL = or_flag relay (cfg_RelayURL c),
       bc_EnrollToken = or_flag (fl_enrollToken fl) (cfg_EnrollToken c),
       bc_WorkspaceRoot = or_flag (fl_workspaceRoot fl) (cfg_WorkspaceRoot c),
       bc_HostWorkspaceRoot = or_flag (fl_hostWorkspaceRoot fl) (cfg_HostWorkspaceRoot c),
       bc_HostStateRoot = or_flag (fl_hostStateRoot fl) (cfg_HostStateRoot c),
       bc_StateDir = or_flag (fl_stateDir fl) (cfg_StateDir c),
       bc_LogRoot = or_flag (fl_logRoot fl) (cfg_LogRoot c),
       bc_Labels = (if parseLabels (fl_labels fl) \<noteq> [] then parseLabels (fl_labels fl) else cfg_Labels c),
       bc_WorkerID = cfg_WorkerID c\<rparr>)"

text \<open>The result of the bootstrap goes into the local configuration, where there is one.\<close>

definition merge_bootstrap :: "Config option \<Rightarrow> string \<Rightarrow> Config \<Rightarrow> string + Config" where
  "merge_bootstrap cfg relay b =
     (case cfg of None \<Rightarrow> Inr b
      | Some c \<Rightarrow>
          (let c = c\<lparr>cfg_WorkerID := cfg_WorkerID b, cfg_Token := cfg_Token b, cfg_StateDir := cfg_StateDir b\<rparr> in
           if relay \<noteq> '''' then
             (if cfg_RelayURL c \<noteq> '''' \<and> cfg_RelayURL c \<noteq> relay
              then Inl (''relay URL mismatch: config specifies '' @ go_quote (cfg_RelayURL c)
                        @ '' but -relay/RELAY_URL provided '' @ go_quote relay)
              else Inr (c\<lparr>cfg_RelayURL := cfg_RelayURL b\<rparr>))
           else if cfg_RelayURL c = '''' then Inr (c\<lparr>cfg_RelayURL := cfg_RelayURL b\<rparr>)
           else Inr c))"

definition override_paths :: "worker_flags \<Rightarrow> Config \<Rightarrow> Config" where
  "override_paths fl c =
     c\<lparr>cfg_HostWorkspaceRoot := or_flag (fl_hostWorkspaceRoot fl) (cfg_HostWorkspaceRoot c),
       cfg_HostStateRoot := or_flag (fl_hostStateRoot fl) (cfg_HostStateRoot c),
       cfg_LogRoot := or_flag (fl_logRoot fl) (cfg_LogRoot c)\<rparr>"

text \<open>\<^verbatim>\<open>None\<close>: the bootstrap is still waiting for its approval.\<close>

definition worker_config ::
  "(BootstrapConfig \<Rightarrow> (string + Config) option) \<Rightarrow> (string \<Rightarrow> string) \<Rightarrow> worker_flags \<Rightarrow> Config option
    \<Rightarrow> (string + Config) option" where
  "worker_config bootstrap getenv fl cfg =
     (let relay = actual_relay getenv fl in
      if use_remote cfg relay fl then
        (case bootstrap (boot_config cfg relay fl) of
           None \<Rightarrow> None
         | Some (Inl e) \<Rightarrow> Some (Inl (''bootstrap failed: '' @ e))
         | Some (Inr b) \<Rightarrow> Some (map_sum (\<lambda>e. e) (override_paths fl) (merge_bootstrap cfg relay b)))
      else
        (case cfg of None \<Rightarrow> Some (Inl ''missing -config or (-relay + -enroll-token)'')
         | Some c \<Rightarrow> Some (Inr (override_paths fl c))))"

subsection \<open>Reports\<close>

definition final_relay :: "Config option \<Rightarrow> string \<Rightarrow> string" where
  "final_relay cfg relayURL =
     (let r = trim_space relayURL;
          r = (case cfg of None \<Rightarrow> r
               | Some c \<Rightarrow> if trim_space (cfg_RelayURL c) \<noteq> '''' then trim_space (cfg_RelayURL c) else r)
      in if r = '''' then ''ws://localhost:8081'' else r)"

definition or_config :: "(Config \<Rightarrow> string) \<Rightarrow> Config option \<Rightarrow> string \<Rightarrow> string" where
  "or_config sel cfg v =
     (let t = trim_space v in
      if t = '''' then (case cfg of None \<Rightarrow> '''' | Some c \<Rightarrow> trim_space (sel c)) else t)"

text \<open>\<open>gateway\<close> and \<open>logs\<close> print the two reports of the diagnosis from their arguments.\<close>

definition diagnoseWorker ::
  "(string \<Rightarrow> string \<Rightarrow> bool \<Rightarrow> bool \<Rightarrow> printed) \<Rightarrow> (string \<Rightarrow> string \<Rightarrow> bool \<Rightarrow> string list \<times> string list)
    \<Rightarrow> Config option \<Rightarrow> string \<Rightarrow> string \<Rightarrow> string \<Rightarrow> string \<Rightarrow> bool \<Rightarrow> bool
    \<Rightarrow> printed \<times> (string list \<times> string list) option" where
  "diagnoseWorker gateway logs cfg relayURL flagStateDir workspaceRoot logRoot verbose jsonOut =
     (gateway (final_relay cfg relayURL) (or_config cfg_StateDir cfg flagStateDir) verbose jsonOut,
      if \<not> jsonOut
      then Some (logs (or_config cfg_LogRoot cfg logRoot) (or_config cfg_WorkspaceRoot cfg workspaceRoot) verbose)
      else None)"

definition inspectRun :: "string \<Rightarrow> string list" where
  "inspectRun runID =
     [''Inspecting run '' @ runID @ ''...'', ''Run ID: '' @ runID, ''Note: To view live logs, use:'',
      ''  curl -NsS '' @ in_quotes (''http://localhost:8081/v1/runs/'' @ runID @ ''/events'')
        @ '' -H '' @ in_quotes ''Authorization: Bearer <your-token>'']"

definition troubleshoot_base :: "string \<Rightarrow> string" where
  "troubleshoot_base finalRelay =
     (if prefix ''wss://'' finalRelay then ''https://'' @ trim_prefix ''wss://'' finalRelay
      else if prefix ''ws://'' finalRelay then ''http://'' @ trim_prefix ''ws://'' finalRelay
      else ''http://localhost:8081'')"

definition troubleshoot_lines :: "Config option \<Rightarrow> string \<Rightarrow> string \<Rightarrow> string list" where
  "troubleshoot_lines cfg relayURL runID =
     (let relay = final_relay cfg relayURL in
      [''=== Troubleshoot ==='', println [''Relay:'', relay], println [''Run ID:'', runID], ''SSE:'',
       ''  curl -NsS '' @ in_quotes (troubleshoot_base relay @ ''/v1/runs/'' @ runID @ ''/events'')
         @ '' -H '' @ in_quotes ''Authorization: Bearer <token>'',
       ''Logs:'', ''  worker logs '' @ runID @ '' --follow'', '''', ''-- Diagnostics --''])"

subsection \<open>The logs of a run\<close>

text \<open>\<^verbatim>\<open>filepath.Base\<close>: the last word of a path.\<close>

definition Base :: "string \<Rightarrow> string" where
  "Base p =
     (if p = '''' then ''.''
      else (let q = trim_right_chars {CHR ''/''} p in
            if q = '''' then ''/'' else last (split_char CHR ''/'' q)))"

text \<open>A directory of the workspace root: its name, whether it is one, and the run and workspace
  identifiers of its metadata, where it can be read and decoded.\<close>

record ws_entry =
  we_Name :: string
  we_IsDir :: bool
  we_Meta :: "(string \<times> string) option"

fun find_workspace :: "string \<Rightarrow> ws_entry list \<Rightarrow> string option" where
  "find_workspace runID [] = None"
| "find_workspace runID (e # es) =
     (if we_IsDir e \<and> (case we_Meta e of None \<Rightarrow> False | Some m \<Rightarrow> fst m = runID) then Some (we_Name e)
      else find_workspace runID es)"

text \<open>
  The file that is read, or the message the command stops with. \<open>stat\<close> tells whether a path exists,
  \<open>readDir\<close> lists a directory, empty where it cannot. The name that is matched decides, so the
  workspace identifier of the metadata is never used.
\<close>

definition logsWorker ::
  "(string \<Rightarrow> bool) \<Rightarrow> (string \<Rightarrow> ws_entry list) \<Rightarrow> string \<Rightarrow> Config option \<Rightarrow> string \<Rightarrow> string \<Rightarrow> string \<Rightarrow> bool
    \<Rightarrow> string + string" where
  "logsWorker stat readDir tmp cfg flagWorkspaceRoot flagLogRoot runID useStderr =
     (let file = (if useStderr then ''agent.stderr.log'' else ''agent.stdout.log'');
          cleanID = Base (Clean runID)
      in if cleanID = ''.'' \<or> cleanID = ''..'' \<or> cleanID = '''' then Inl (''invalid run_id: '' @ runID)
         else
           (let lr = or_config cfg_LogRoot cfg flagLogRoot;
                logPath = Join [lr, cleanID, file] in
            if lr \<noteq> '''' \<and> stat logPath then Inr logPath
            else
              (let root = or_config cfg_WorkspaceRoot cfg flagWorkspaceRoot;
                   root = (if root = '''' then tmp @ ''/nano-workspaces'' else root);
                   dir = (case find_workspace runID (readDir root) of
                            None \<Rightarrow> Join [root, runID] | Some name \<Rightarrow> Join [root, name])
               in Inr (Join [dir, file]))))"

text \<open>Following a file: what each look at it finds, and what is printed; nothing where it cannot be opened.\<close>

fun follow_loop :: "nat \<Rightarrow> string option list \<Rightarrow> string list" where
  "follow_loop off [] = []"
| "follow_loop off (None # looks) = '''' # follow_loop off looks"
| "follow_loop off (Some bytes # looks) =
     (if length bytes > off then drop off bytes # follow_loop (length bytes) looks
      else '''' # follow_loop off looks)"

definition readLogFile :: "string option \<Rightarrow> bool \<Rightarrow> string option list \<Rightarrow> string + string list" where
  "readLogFile f follow looks =
     (case f of None \<Rightarrow> Inl ''open log''
      | Some bytes \<Rightarrow> Inr (if \<not> follow then [bytes] else follow_loop (length bytes) looks))"

text \<open>What is shown of a run in trouble, with the two logs one after the other; a log that cannot be
  shown ends the command.\<close>

definition show_log ::
  "(bool \<Rightarrow> string + string) \<Rightarrow> (string \<Rightarrow> string option) \<Rightarrow> bool \<Rightarrow> string + string list" where
  "show_log locate read useStderr =
     (case locate useStderr of Inl e \<Rightarrow> Inl e | Inr path \<Rightarrow> readLogFile (read path) False [])"

definition troubleshootRun ::
  "(string \<Rightarrow> string \<Rightarrow> bool \<Rightarrow> bool \<Rightarrow> printed) \<Rightarrow> (bool \<Rightarrow> string + string) \<Rightarrow> (string \<Rightarrow> string option)
    \<Rightarrow> Config option \<Rightarrow> string \<Rightarrow> string \<Rightarrow> string \<Rightarrow> bool \<Rightarrow> string option \<times> printed list" where
  "troubleshootRun gateway locate read cfg relayURL stateDir runID verbose =
     (let shown = [PrintedLines (troubleshoot_lines cfg relayURL runID),
            gateway (final_relay cfg relayURL) stateDir verbose False,
            PrintedLines ['''', ''-- Logs Tail (stdout) --'']]
      in case show_log locate read False of Inl e \<Rightarrow> (Some e, shown)
         | Inr out \<Rightarrow>
             (let shown = shown @ [PrintedLines out, PrintedLines ['''', ''-- Logs Tail (stderr) --'']] in
              case show_log locate read True of Inl e \<Rightarrow> (Some e, shown)
              | Inr err \<Rightarrow> (None, shown @ [PrintedLines err])))"

subsection \<open>The token and the gateway\<close>

lemma bootstrap_relay:
  assumes "BootstrapFromRemote parse show w boot = (Some (Inr b), calls)"
  shows "cfg_RelayURL b = bc_RelayURL boot" "bc_RelayURL boot \<noteq> ''''"
    "\<exists>u. httpBaseURLFromRelayURL parse (bc_RelayURL boot) = Inr u"
proof -
  obtain st where "b = buildConfigFromBootstrap st (boot\<lparr>bc_StateDir := state_dir w boot\<rparr>)"
    using bootstrap_ok [OF assms] by metis
  then show "cfg_RelayURL b = bc_RelayURL boot" by (simp add: buildConfigFromBootstrap_def)
  show "bc_RelayURL boot \<noteq> ''''"
    using assms by (auto simp: BootstrapFromRemote_def)
  show "\<exists>u. httpBaseURLFromRelayURL parse (bc_RelayURL boot) = Inr u"
    using assms by (auto simp: BootstrapFromRemote_def Let_def split: if_splits option.splits sum.splits)
qed

lemma worker_config_remote:
  assumes "worker_config bootstrap getenv fl cfg = Some (Inr c)" "use_remote cfg (actual_relay getenv fl) fl"
    and "\<And>b. bootstrap (boot_config cfg (actual_relay getenv fl) fl) = Some (Inr b)
      \<Longrightarrow> cfg_RelayURL b = bc_RelayURL (boot_config cfg (actual_relay getenv fl) fl)"
  obtains b where "bootstrap (boot_config cfg (actual_relay getenv fl) fl) = Some (Inr b)"
    "cfg_Token c = cfg_Token b" "cfg_WorkerID c = cfg_WorkerID b"
    "cfg_RelayURL c = bc_RelayURL (boot_config cfg (actual_relay getenv fl) fl)"
proof -
  define relay where "relay = actual_relay getenv fl"
  obtain b m where b: "bootstrap (boot_config cfg relay fl) = Some (Inr b)"
    and m: "merge_bootstrap cfg relay b = Inr m" and c: "c = override_paths fl m"
    using assms(1,2) unfolding worker_config_def Let_def relay_def [symmetric]
    by (auto simp: map_sum_Inr_iff split: option.splits sum.splits)
  have r: "cfg_RelayURL b = bc_RelayURL (boot_config cfg relay fl)" using assms(3) b by (simp add: relay_def)
  have "cfg_Token m = cfg_Token b \<and> cfg_WorkerID m = cfg_WorkerID b \<and> cfg_RelayURL m = bc_RelayURL (boot_config cfg relay fl)"
    using m r by (auto simp: merge_bootstrap_def boot_config_def or_flag_def Let_def split: option.splits if_splits)
  with b that show thesis unfolding c relay_def by (simp add: override_paths_def)
qed

lemma bootstrap_urls:
  assumes "BootstrapFromRemote parse show w boot = (Some (Inr b), calls)" "httpBaseURLFromRelayURL parse (bc_RelayURL boot) = Inr base"
  shows "\<forall>url \<in> set (List.map_filter call_url calls). \<exists>path. url = trim_right_chars {CHR ''/''} (show base) @ ''/v1/worker/'' @ path"
    and "(List.map_filter call_url calls \<noteq> [] \<and> answered_with w (cfg_Token b)) \<or> (\<exists>st. bw_state w = Some st \<and> cfg_Token b = bs_WorkerToken st \<and> cfg_Token b \<noteq> '''')"
proof -
  define boot' where "boot' = boot\<lparr>bc_StateDir := state_dir w boot\<rparr>"
  obtain st more where o: "obtain_token (trim_right_chars {CHR ''/''} (show base)) w boot' (initial_state w boot') = (Some (Inr st), more)"
    and c: "calls = CallMkdir (state_dir w boot) # more" "b = buildConfigFromBootstrap st boot'"
    using bootstrap_ok [OF assms(1)] assms(2) unfolding boot'_def by (metis sum.inject(2))
  have m: "List.map_filter call_url calls = List.map_filter call_url more" by (simp add: c(1) List.map_filter_def)
  show "\<forall>url \<in> set (List.map_filter call_url calls). \<exists>path. url = trim_right_chars {CHR ''/''} (show base) @ ''/v1/worker/'' @ path"
    unfolding m using obtain_token_urls(1) [OF o] .
  show "(List.map_filter call_url calls \<noteq> [] \<and> answered_with w (cfg_Token b)) \<or> (\<exists>st. bw_state w = Some st \<and> cfg_Token b = bs_WorkerToken st \<and> cfg_Token b \<noteq> '''')"
  proof (cases "bs_WorkerToken (initial_state w boot') = ''''")
    case True
    then show ?thesis
      unfolding m using obtain_token_urls(2) [OF o refl] by (simp add: c(2) buildConfigFromBootstrap_def)
  next
    case False
    then have "st = initial_state w boot'" using obtain_token_ok [OF o] by blast
    with False show ?thesis
      by (auto simp: c(2) buildConfigFromBootstrap_def initial_state_def Let_def split: option.splits if_splits)
  qed
qed

text \<open>C27: A worker presents its token where it has bootstrapped. Every request of a bootstrap goes to the base URL made
  from the relay address; the configuration the worker starts with carries the token and identity of that bootstrap,
  and the address it dials with them has the host and port of that base URL, whatever the configuration
  file, the flags and the environment say. The token is in the reply to one of those requests or is the one of the
  state file, which no request has checked: that one goes to the host of the relay address, even if another
  gateway once issued it.\<close>

theorem token_goes_to_its_gateway:
  assumes "worker_config (\<lambda>b. fst (BootstrapFromRemote parse show w b)) getenv fl cfg = Some (Inr c)"
    and "use_remote cfg (actual_relay getenv fl) fl"
    and "boot = boot_config cfg (actual_relay getenv fl) fl"
    and "parse (bc_RelayURL boot) = Inr u"
    and "trim_space (url_Hostname u) = url_Hostname u" "trim_space (url_Port u) = url_Port u"
  shows "\<exists>b calls base v. BootstrapFromRemote parse show w boot = (Some (Inr b), calls)
    \<and> cfg_Token c = cfg_Token b \<and> cfg_WorkerID c = cfg_WorkerID b
    \<and> httpBaseURLFromRelayURL parse (bc_RelayURL boot) = Inr base
    \<and> (\<forall>url \<in> set (List.map_filter call_url calls). \<exists>path. url = trim_right_chars {CHR ''/''} (show base) @ ''/v1/worker/'' @ path)
    \<and> ((List.map_filter call_url calls \<noteq> [] \<and> answered_with w (cfg_Token b))
        \<or> (\<exists>st. bw_state w = Some st \<and> cfg_Token b = bs_WorkerToken st \<and> cfg_Token b \<noteq> ''''))
    \<and> dial parse c = Inr (v, if cfg_Token b \<noteq> '''' then Some (''Bearer '' @ cfg_Token b) else None)
    \<and> u_Host v = u_Host base"
proof -
  have rel: "cfg_RelayURL b = bc_RelayURL x" if "fst (BootstrapFromRemote parse show w x) = Some (Inr b)" for b x
    using bootstrap_relay(1) [of parse "show" w x b "snd (BootstrapFromRemote parse show w x)"] that
    by (metis prod.collapse)
  obtain b where b: "fst (BootstrapFromRemote parse show w boot) = Some (Inr b)"
    and c: "cfg_Token c = cfg_Token b" "cfg_WorkerID c = cfg_WorkerID b" "cfg_RelayURL c = bc_RelayURL boot"
    using worker_config_remote [OF assms(1,2) rel] assms(3) by metis
  obtain calls where bc: "BootstrapFromRemote parse show w boot = (Some (Inr b), calls)"
    using b by (metis prod.collapse)
  obtain base where base: "httpBaseURLFromRelayURL parse (bc_RelayURL boot) = Inr base"
    using bootstrap_relay(3) [OF bc] by blast
  obtain v auth where v: "dial parse c = Inr (v, auth)" "u_Host v = u_Host base"
    using relay_hosts_agree [of parse c u base] assms(4-6) base unfolding c(3) by metis
  then have "auth = (if cfg_Token b \<noteq> '''' then Some (''Bearer '' @ cfg_Token b) else None)"
    using assms(4) by (auto simp: dial_def c Let_def split: if_splits)
  with bc c base v bootstrap_urls [OF bc base] show ?thesis by blast
qed

lemma token_goes_to_its_gateway_witness:
  "\<exists>calls v. BootstrapFromRemote demo_parse u_Host demo_boot_world demo_boot = (Some (Inr demo_paired), calls)
    \<and> (\<forall>url \<in> set (List.map_filter call_url calls). \<exists>path. url = trim_right_chars {CHR ''/''} ''gate:8081'' @ ''/v1/worker/'' @ path)
    \<and> dial demo_parse demo_paired = Inr (v, Some ''Bearer t1'') \<and> u_Host v = ''gate:8081''"
proof -
  define fl where "fl = \<lparr>fl_relay = ''gate'', fl_enrollToken = '''', fl_stateDir = ''/s'', fl_workspaceRoot = ''/w'',
    fl_hostWorkspaceRoot = '''', fl_hostStateRoot = '''', fl_logRoot = '''', fl_labels = ''''\<rparr>"
  have r: "actual_relay (\<lambda>_. '''') fl = ''gate''" by (simp add: actual_relay_def fl_def)
  have boot: "demo_boot = boot_config None (actual_relay (\<lambda>_. '''') fl) fl"
    unfolding r by (simp add: boot_config_def fl_def demo_boot_def or_flag_def empty_config_def parseLabels_def)
  have ru: "use_remote None (actual_relay (\<lambda>_. '''') fl) fl" by (simp add: use_remote_def)
  have c: "worker_config (\<lambda>b. fst (BootstrapFromRemote demo_parse u_Host demo_boot_world b)) (\<lambda>_. '''') fl None
      = Some (Inr demo_paired)"
  proof -
    have "override_paths fl demo_paired = demo_paired"
      by (simp add: override_paths_def or_flag_def fl_def demo_paired_def empty_config_def)
    then show ?thesis
      using demo_bootstrap ru by (simp add: worker_config_def boot [symmetric] merge_bootstrap_def Let_def)
  qed
  define u where "u = \<lparr>u_Scheme = ''ws'', u_Host = ''gate'', u_Path = '''', u_RawQuery = '''', u_Fragment = ''''\<rparr>"
  define base where "base = \<lparr>u_Scheme = ''http'', u_Host = ''gate:8081'', u_Path = '''', u_RawQuery = '''', u_Fragment = ''''\<rparr>"
  have g: "bc_RelayURL demo_boot = ''gate''" by (simp add: demo_boot_def)
  have p: "demo_parse (bc_RelayURL demo_boot) = Inr u" by (simp add: g demo_parse_def u_def)
  have t: "trim_space (url_Hostname u) = url_Hostname u" "trim_space (url_Port u) = url_Port u"
    unfolding u_def by code_simp+
  have h: "httpBaseURLFromRelayURL demo_parse ''gate'' = Inr base" unfolding base_def by code_simp
  have tok: "cfg_Token demo_paired = ''t1''" by (simp add: demo_paired_def)
  have base: "u_Host base = ''gate:8081''" by (simp add: base_def)
  from token_goes_to_its_gateway [OF c ru boot p t] obtain b calls v where
    x: "BootstrapFromRemote demo_parse u_Host demo_boot_world demo_boot = (Some (Inr b), calls)"
      "\<forall>url \<in> set (List.map_filter call_url calls). \<exists>path. url = trim_right_chars {CHR ''/''} (u_Host base) @ ''/v1/worker/'' @ path"
      "dial demo_parse demo_paired = Inr (v, if cfg_Token b \<noteq> '''' then Some (''Bearer '' @ cfg_Token b) else None)"
      "u_Host v = u_Host base"
    unfolding g h sum.inject by blast
  have "b = demo_paired" using x(1) demo_bootstrap by simp
  with x show ?thesis unfolding base by (auto simp: tok)
qed

text \<open>With a configuration file, the flags for the workspace root and the labels have no effect.\<close>

lemma config_file_hides_flags:
  assumes "worker_config bootstrap getenv fl (Some c0) = Some (Inr c)"
  shows "cfg_WorkspaceRoot c = cfg_WorkspaceRoot c0 \<and> cfg_Labels c = cfg_Labels c0"
  using assms
  by (auto simp: worker_config_def Let_def map_sum_Inr_iff merge_bootstrap_def override_paths_def
      split: if_splits option.splits sum.splits)

subsection \<open>Where logs are read\<close>

lemma log_name: "child_name (if b then ''agent.stderr.log'' else ''agent.stdout.log'')"
  by (simp add: child_name_def path_word_def)

lemma Base_good:
  assumes "list_all path_word ws" "ws \<noteq> []"
  shows "Base (path_string r ws) = last ws"
proof -
  obtain vs w where ws: "ws = vs @ [w]" using assms(2) by (cases ws rule: rev_cases) auto
  have w: "w \<noteq> ''''" "CHR ''/'' \<notin> set w" using assms(1) by (auto simp: ws path_word_def)
  define d where "d = (if r then ''/'' else '''') @ (if vs = [] then '''' else join ''/'' vs @ ''/'')"
  have "join ''/'' (vs @ [w]) = (if vs = [] then '''' else join ''/'' vs @ ''/'') @ w"
    by (induction vs) (auto simp: join_Cons)
  then have s: "path_string r ws = d @ w" by (simp add: path_string_def ws d_def)
  have "trim_right_chars {CHR ''/''} (d @ w) = d @ w"
  proof -
    have "last w \<noteq> CHR ''/''" using w by (metis last_in_set)
    then show ?thesis using w(1) by (cases w rule: rev_cases) (auto simp: trim_right_chars_def)
  qed
  moreover have "last (split_char CHR ''/'' (d @ w)) = w"
  proof -
    have "d = '''' \<or> (\<exists>e. d = e @ ''/'')" by (auto simp: d_def)
    then show ?thesis using w(2) by (auto simp: split_char_append split_char_none)
  qed
  ultimately show ?thesis unfolding s Base_def using w(1) by (simp add: ws)
qed

text \<open>The check of the run identifier does not confine the log command to the workspace root. For an identifier
  that steps out of its directory the check passes, as it looks at the last word only, and where there is
  no central log and no matching workspace the file that is read lies beside the root and not below it.
  An identifier that is a plain name is read below the root.\<close>

theorem logs_leave_workspace:
  assumes "child_name x" "rooted root" "trim_space root = root" "path_comps root \<noteq> []"
    and "or_config cfg_LogRoot cfg logRoot = ''''" "or_config cfg_WorkspaceRoot cfg wsRoot = root"
    and "find_workspace (''../'' @ x) (readDir root) = None" "find_workspace x (readDir root) = None"
  shows "\<exists>p q. logsWorker stat readDir tmp cfg wsRoot logRoot (''../'' @ x) useStderr = Inr p
    \<and> logsWorker stat readDir tmp cfg wsRoot logRoot x useStderr = Inr q
    \<and> rooted p \<and> path_comps p = butlast (path_comps root)
        @ [x, if useStderr then ''agent.stderr.log'' else ''agent.stdout.log'']
    \<and> rooted q \<and> path_comps q = path_comps root
        @ [x, if useStderr then ''agent.stderr.log'' else ''agent.stdout.log'']"
proof -
  define lf where "lf = (if useStderr then ''agent.stderr.log'' else ''agent.stdout.log'')"
  have lf: "child_name lf" unfolding lf_def by (rule log_name)
  have x: "path_word x" "x \<noteq> ''..''" "x \<noteq> ''''" "x \<noteq> ''.''"
    using assms(1) by (auto simp: child_name_def path_word_def)
  have root: "root \<noteq> ''''" using assms(2) by (auto simp: rooted_def)
  have up: "path_words (''../'' @ x) = [''..'', x]"
    using path_words_append [of "''..''" x] path_words_word [OF x(1)] path_words_word [of "''..''"]
    by (simp add: path_word_def)
  have nr: "\<not> rooted x" using rooted_join [of "[x]"] x(1) by simp
  have "path_comps (''../'' @ x) = [''..'', x]" "path_comps x = [x]"
    using x(2) path_words_word [OF x(1)] by (simp_all add: path_comps_def up [simplified] rooted_def nr [unfolded rooted_def])
  then have b: "Base (Clean (''../'' @ x)) = x" "Base (Clean x) = x"
    using Base_good [of "[''..'', x]"] Base_good [of "[x]"] x(1)
    by (simp_all add: Clean_def path_word_def)
  define up_dir where "up_dir = Join [root, ''../'' @ x]"
  have d1: "rooted up_dir" "path_comps up_dir = butlast (path_comps root) @ [x]"
  proof -
    obtain vs w where vs: "path_comps root = vs @ [w]" using assms(4) by (cases "path_comps root" rule: rev_cases) auto
    have "w \<noteq> ''..''" using resolved_comps [of root] assms(2) by (auto simp: resolved_def vs)
    then show "rooted up_dir" "path_comps up_dir = butlast (path_comps root) @ [x]"
      using Join_words [OF root, of "''../'' @ x"] assms(2) x(2) up by (simp_all add: up_dir_def vs)
  qed
  have d2: "rooted (Join [root, x])" "path_comps (Join [root, x]) = path_comps root @ [x]"
    using Join_child [OF root assms(1)] assms(2) by simp_all
  have ne: "up_dir \<noteq> ''''" "Join [root, x] \<noteq> ''''" using d1(1) d2(1) by (auto simp: rooted_def)
  have "logsWorker stat readDir tmp cfg wsRoot logRoot (''../'' @ x) useStderr = Inr (Join [up_dir, lf])"
    "logsWorker stat readDir tmp cfg wsRoot logRoot x useStderr = Inr (Join [Join [root, x], lf])"
    using x root assms(5-8) by (simp_all add: logsWorker_def Let_def b [simplified] lf_def [symmetric] up_dir_def)
  then show ?thesis
    using Join_child [OF ne(1) lf] Join_child [OF ne(2) lf] d1 d2 unfolding lf_def by auto
qed

lemma logs_leave_workspace_witness:
  "\<exists>p. logsWorker (\<lambda>_. False) (\<lambda>_. []) ''/tmp'' None ''/var/ws'' '''' ''../etc'' False = Inr p
    \<and> path_comps p = [''var'', ''etc'', ''agent.stdout.log'']"
proof -
  have h: "child_name ''etc''" "rooted ''/var/ws''" "trim_space ''/var/ws'' = ''/var/ws''"
    "path_comps ''/var/ws'' = [''var'', ''ws'']" "or_config cfg_LogRoot None '''' = ''''"
    "or_config cfg_WorkspaceRoot None ''/var/ws'' = ''/var/ws''"
    by code_simp+
  have "path_comps ''/var/ws'' \<noteq> []" by (simp add: h(4))
  from logs_leave_workspace [OF h(1-3) this h(5,6), of "\<lambda>_. []" "\<lambda>_. False" "''/tmp''" False]
  show ?thesis by (auto simp: h(4))
qed

end
