(* ===== verification/Console.thy ===== *)
theory Console
  imports AdminApi RunMonitors
begin

text \<open>
  The console pages of \<^verbatim>\<open>pkg/server/server.go\<close>: the overview with its public and
  its private part, creating a run from a form, the page of one run. A page is the list of its
  pieces in the order they are written. The style sheets, the script, the forms without data and
  the notices that are not in ASCII are fixed texts and pieces of their own; everything with data in it
  is written out. \<open>rfc\<close> formats a Unix time in the zone of the gateway's machine.
\<close>

subsection \<open>Escaping\<close>

text \<open>\<^verbatim>\<open>html.EscapeString\<close>, \<^verbatim>\<open>url.PathEscape\<close>,
  \<^verbatim>\<open>url.QueryEscape\<close>, \<^verbatim>\<open>strings.ToUpper\<close> (with the two runes
  beyond ASCII whose upper case is an ASCII letter).\<close>

definition html_char :: "char \<Rightarrow> string" where
  "html_char c =
     (if c = CHR ''&'' then ''&amp;'' else if c = CHR 0x27 then ''&#39;'' else if c = CHR ''<'' then ''&lt;''
      else if c = CHR ''>'' then ''&gt;'' else if c = CHR 0x22 then ''&#34;'' else [c])"

definition htmlEscape :: "string \<Rightarrow> string" where
  "htmlEscape s = concat (map html_char s)"

definition unreserved :: "char \<Rightarrow> bool" where
  "unreserved c \<longleftrightarrow> ascii_letter c \<or> is_digit c \<or> c \<in> set ''-_.~''"

definition percent :: "char \<Rightarrow> string" where
  "percent c = (let n = of_char c in [CHR ''%'', ''0123456789ABCDEF'' ! (n div 16), ''0123456789ABCDEF'' ! (n mod 16)])"

definition PathEscape :: "string \<Rightarrow> string" where
  "PathEscape s = concat (map (\<lambda>c. if unreserved c \<or> c \<in> set ''$&+=:@'' then [c] else percent c) s)"

definition QueryEscape :: "string \<Rightarrow> string" where
  "QueryEscape s = concat (map (\<lambda>c. if unreserved c then [c] else if c = CHR '' '' then ''+'' else percent c) s)"

definition ascii_upper :: "char \<Rightarrow> char" where
  "ascii_upper c = (if CHR ''a'' \<le> c \<and> c \<le> CHR ''z'' then char_of (of_char c - (32 :: nat)) else c)"

fun to_upper :: "string \<Rightarrow> string" where
  "to_upper [] = []"
| "to_upper (c # cs) =
     (if c = CHR 0xC4 \<and> take 1 cs = [CHR 0xB1] then CHR ''I'' # to_upper (drop 1 cs)
      else if c = CHR 0xC5 \<and> take 1 cs = [CHR 0xBF] then CHR ''S'' # to_upper (drop 1 cs)
      else ascii_upper c # to_upper cs)"

subsection \<open>Rows\<close>

record consoleWorkerRow =
  cw_IDPrefix :: string
  cw_Name :: string
  cw_Version :: string
  cw_Labels :: string
  cw_Supported :: string
  cw_LastSeen :: int

record consolePublicWorkerRow =
  cp_Name :: string
  cp_Version :: string
  cp_Supported :: string
  cp_LastSeen :: int

record consoleRunRow =
  cr_RunIDPrefix :: string
  cr_WorkerIDPrefix :: string
  cr_EventCount :: nat
  cr_LastSeq :: "64 word"

definition supported :: "WorkerHello \<Rightarrow> string" where
  "supported h = join '','' (map runtime_label (wh_SupportedRuntimes h))"

text \<open>Sorting puts the latest first; \<^verbatim>\<open>sort.Slice\<close> promises nothing of equal
  rows, here they keep their order.\<close>

definition public_workers :: "gateway \<Rightarrow> consolePublicWorkerRow list" where
  "public_workers g = sort_key (\<lambda>r. - cp_LastSeen r)
     (List.map_filter (\<lambda>(wid, w). map_option (\<lambda>h. \<lparr>cp_Name = wh_Name h, cp_Version = wh_Version h,
         cp_Supported = supported h, cp_LastSeen = second_of (sess_LastHeartbeat w)\<rparr>) (sess_Hello w)) (gw_workers g))"

definition private_workers :: "gateway \<Rightarrow> consoleWorkerRow list" where
  "private_workers g = sort_key (\<lambda>r. - cw_LastSeen r)
     (List.map_filter (\<lambda>(wid, w). map_option (\<lambda>h. \<lparr>cw_IDPrefix = take 12 wid, cw_Name = wh_Name h,
         cw_Version = wh_Version h, cw_Labels = join '','' (wh_Labels h), cw_Supported = supported h,
         cw_LastSeen = second_of (sess_LastHeartbeat w)\<rparr>) (sess_Hello w)) (gw_workers g))"

definition recent_runs :: "gateway \<Rightarrow> consoleRunRow list" where
  "recent_runs g = take 30 (sort_key (\<lambda>r. - uint (cr_LastSeq r))
     (map (\<lambda>(rid, wid). \<lparr>cr_RunIDPrefix = take 12 rid, cr_WorkerIDPrefix = take 12 wid,
         cr_EventCount = length (gw_events g rid),
         cr_LastSeq = (if gw_events g rid = [] then 0 else env_Seq (List.last (gw_events g rid)))\<rparr>) (gw_runs g)))"

definition pending_pairings :: "int \<Rightarrow> config_store \<Rightarrow> PairingRequest list" where
  "pending_pairings now cs = filter (\<lambda>r. pr_Status r = ''pending'') (ListPairingRequests now cs)"

subsection \<open>The overview\<close>

text \<open>What the pages read of a request besides its authentication.\<close>

record console_query =
  cq_login :: string
  cq_run :: string
  cq_reason :: string
  cq_pairing :: string
  cq_Host :: string
  cq_TLS :: bool

datatype piece =
    Html string
  | StyleSheet
  | CreateRunForm
  | PublicOnlyNotice
  | WrongTokenNotice
  | LoginForm
  | LoggedInNotice
  | LogoutForm
  | NoTokenNotice
  | ApproveByCodeForm string
  | Script

definition tag :: "string \<Rightarrow> string \<Rightarrow> string" where
  "tag t s = ''<'' @ t @ ''>'' @ s @ ''</'' @ t @ ''>''"

definition get_started :: "bool \<Rightarrow> nat \<Rightarrow> nat \<Rightarrow> console_query \<Rightarrow> piece list" where
  "get_started loggedIn pendingCount workerCount q =
     [Html ''<div class=\"panel\"><h2 style=\"margin-top:0\">GET STARTED</h2>'',
      Html ''<ol style=\"margin:0;padding-left:20px\">'',
      Html ''<li><span class=\"ok\">Gateway is running</span></li>'',
      Html (if pendingCount > 0 then
              ''<li><span class=\"bad\">'' @ dec_of_nat pendingCount
                @ '' worker pairing request(s) need approval below</span></li>''
            else if workerCount > 0 then ''<li><span class=\"ok\">Worker is online</span></li>''
            else if loggedIn then
              ''<li><span class=\"bad\">No worker is online yet. Run <code>make quickstart</code> and approve the worker code.</span></li>''
            else ''<li>Login to approve workers and view private setup details.</li>''),
      Html ''<li>Set LLM credentials in <code>.env</code> before creating real <code>nano_agent</code> runs.</li>'',
      Html ''</ol>'']
     @ (if cq_run q = ''failed''
        then [Html (''<div class=\"err\">Test run failed: '' @ htmlEscape (cq_reason q) @ ''</div>'')] else [])
     @ (if loggedIn then [CreateRunForm] else [])
     @ [Html ''</div>'']"

definition login_panel :: "bool \<Rightarrow> bool \<Rightarrow> console_query \<Rightarrow> piece list" where
  "login_panel authEnabled loggedIn q =
     (if authEnabled \<and> \<not> loggedIn then
        [Html ''<div class=\"panel\"><h2>LOGIN REQUIRED FOR SENSITIVE DATA</h2>'', PublicOnlyNotice]
        @ (if cq_login q = ''failed'' then [WrongTokenNotice] else [])
        @ [LoginForm]
      else [])
     @ (if authEnabled \<and> loggedIn then [LoggedInNotice, LogoutForm] else [])
     @ (if \<not> authEnabled then [NoTokenNotice] else [])"

definition pairing_row :: "(int \<Rightarrow> string) \<Rightarrow> PairingRequest \<Rightarrow> string" where
  "pairing_row rfc r =
     (let actionForm =
        ''<div class=\"action-form\"><form method=\"post\" action=\"/v1/admin/pairing/'' @ pr_ID r
        @ ''/approve\"><button class=\"btn\" style=\"margin-top:0;padding:6px 12px;\">Approve</button></form><form method=\"post\" action=\"/v1/admin/pairing/''
        @ pr_ID r @ ''/reject\"><button class=\"btn danger\" style=\"margin-top:0;padding:6px 12px;\">Reject</button></form></div>''
      in tag ''tr'' (tag ''td'' (tag ''strong'' (htmlEscape (pr_UserCode r))) @ tag ''td'' (htmlEscape (pr_WorkerName r))
           @ tag ''td'' (htmlEscape (pr_HostInfo r)) @ tag ''td'' (htmlEscape (join '','' (pr_Labels r)))
           @ tag ''td'' (rfc (pr_CreatedAt r)) @ tag ''td'' actionForm))"

definition pairing_section :: "(int \<Rightarrow> string) \<Rightarrow> PairingRequest list \<Rightarrow> console_query \<Rightarrow> piece list" where
  "pairing_section rfc pending q =
     Html (tag ''h2'' ''PENDING PAIRING REQUESTS'')
     # (if pending \<noteq> [] then
          [Html ''<table><thead><tr><th>code</th><th>worker</th><th>host</th><th>labels</th><th>created</th><th>action</th></tr></thead><tbody>'']
          @ map (\<lambda>r. Html (pairing_row rfc r)) pending @ [Html ''</tbody></table>'']
        else [Html ''<div class=\"empty-state\">No pending pairing requests.</div>''])
     @ [ApproveByCodeForm (htmlEscape (cq_pairing q))]"

definition public_row :: "(int \<Rightarrow> string) \<Rightarrow> consolePublicWorkerRow \<Rightarrow> string" where
  "public_row rfc r =
     tag ''tr'' (tag ''td'' (htmlEscape (cp_Name r)) @ tag ''td'' (htmlEscape (cp_Version r))
       @ tag ''td'' (htmlEscape (cp_Supported r)) @ tag ''td'' (tag ''code'' (rfc (cp_LastSeen r))))"

definition public_section :: "(int \<Rightarrow> string) \<Rightarrow> consolePublicWorkerRow list \<Rightarrow> piece list" where
  "public_section rfc rows =
     Html (tag ''h2'' ''PUBLIC WORKERS'')
     # (if rows = [] then [Html ''<div class=\"empty-state\">No public workers connected.</div>'']
        else [Html ''<table><thead><tr><th>name</th><th>version</th><th>runtimes</th><th>last_seen</th></tr></thead><tbody>'']
          @ map (\<lambda>r. Html (public_row rfc r)) rows @ [Html ''</tbody></table>''])"

definition private_row :: "(int \<Rightarrow> string) \<Rightarrow> consoleWorkerRow \<Rightarrow> string" where
  "private_row rfc r =
     tag ''tr'' (tag ''td'' (tag ''code'' (htmlEscape (cw_IDPrefix r))) @ tag ''td'' (htmlEscape (cw_Name r))
       @ tag ''td'' (htmlEscape (cw_Version r)) @ tag ''td'' (htmlEscape (cw_Labels r))
       @ tag ''td'' (htmlEscape (cw_Supported r)) @ tag ''td'' (tag ''code'' (rfc (cw_LastSeen r))))"

definition private_section :: "(int \<Rightarrow> string) \<Rightarrow> consoleWorkerRow list \<Rightarrow> piece list" where
  "private_section rfc rows =
     Html (tag ''h2'' ''PRIVATE WORKERS'')
     # (if rows = [] then [Html ''<div class=\"empty-state\">No private workers registered.</div>'']
        else [Html ''<table><thead><tr><th>id</th><th>name</th><th>version</th><th>labels</th><th>runtimes</th><th>last_seen</th></tr></thead><tbody>'']
          @ map (\<lambda>r. Html (private_row rfc r)) rows @ [Html ''</tbody></table>''])"

definition events_url :: "string \<Rightarrow> consoleRunRow \<Rightarrow> string" where
  "events_url baseURL r = baseURL @ ''/v1/runs/'' @ cr_RunIDPrefix r @ ''/events''"

definition detail_url :: "consoleRunRow \<Rightarrow> string" where
  "detail_url r = ''/console/runs/'' @ cr_RunIDPrefix r"

definition run_row :: "string \<Rightarrow> consoleRunRow \<Rightarrow> string" where
  "run_row baseURL r =
     (let cmdCurl = ''curl -NsS '' @ in_quotes (events_url baseURL r) @ '' -H '' @ in_quotes ''Authorization: Bearer <token>'';
          cmdLogs = ''worker logs '' @ cr_RunIDPrefix r @ '' --follow'';
          block = ''<code style=\"display:block;margin-top:4px\">'';
          actionHTML = ''<a href=\"'' @ events_url baseURL r @ ''\" target=\"_blank\">events</a> '' @ [CHR 0xC2, CHR 0xB7]
            @ '' <a href=\"'' @ detail_url r @ ''\">detail</a><br/>'' @ block @ htmlEscape cmdCurl @ ''</code>''
            @ block @ htmlEscape cmdLogs @ ''</code>''
      in tag ''tr'' (tag ''td'' (tag ''code'' (htmlEscape (cr_RunIDPrefix r)))
           @ tag ''td'' (tag ''code'' (htmlEscape (cr_WorkerIDPrefix r))) @ tag ''td'' (dec_of_nat (cr_EventCount r))
           @ tag ''td'' (tag ''code'' (dec_of_nat (unat (cr_LastSeq r)))) @ tag ''td'' actionHTML))"

definition runs_section :: "string \<Rightarrow> consoleRunRow list \<Rightarrow> piece list" where
  "runs_section baseURL rows =
     Html (tag ''h2'' ''RECENT RUNS'')
     # (if rows = [] then [Html ''<div class=\"empty-state\">No runs have been executed yet.</div>'']
        else [Html ''<table><thead><tr><th>run</th><th>worker</th><th>events</th><th>last_seq</th><th>action</th></tr></thead><tbody>'']
          @ map (\<lambda>r. Html (run_row baseURL r)) rows @ [Html ''</tbody></table>''])"

definition base_url :: "console_query \<Rightarrow> string" where
  "base_url q = (if cq_TLS q then ''https://'' else ''http://'') @ cq_Host q"

text \<open>The page for a visitor of whom it is known whether he is logged in; the store is listed twice.\<close>

definition console_page ::
  "(int \<Rightarrow> string) \<Rightarrow> bool \<Rightarrow> int \<Rightarrow> PairingRequest list \<Rightarrow> PairingRequest list \<Rightarrow> console_query \<Rightarrow> gateway \<Rightarrow> piece list" where
  "console_page rfc loggedIn now pending1 pending2 q g =
     (let public = public_workers g; runs = recent_runs g in
      [Html ''<!DOCTYPE html><html><head><meta charset=\"utf-8\" /><title>Nano Cloud Console</title>'', StyleSheet,
       Html ''</head><body>'', Html (tag ''h1'' ''Nano Cloud Console''),
       Html (tag ''small'' (''server_time='' @ rfc (second_of now) @ '' | workers_online='' @ dec_of_nat (length public)
         @ '' | runs_tracked='' @ dec_of_nat (length runs)))]
      @ get_started loggedIn (if loggedIn then length pending1 else 0) (length public) q
      @ login_panel (consoleAuthEnabled (gw_token g)) loggedIn q
      @ (if loggedIn then pairing_section rfc pending2 q else [])
      @ public_section rfc public
      @ (if loggedIn then private_section rfc (private_workers g) @ runs_section (base_url q) runs @ [Script] else [])
      @ [Html ''</body></html>''])"

definition handleConsole ::
  "(int \<Rightarrow> string) \<Rightarrow> int \<Rightarrow> int \<Rightarrow> int \<Rightarrow> http_request \<Rightarrow> console_query \<Rightarrow> config_store \<Rightarrow> gateway \<Rightarrow> piece list \<times> gateway" where
  "handleConsole rfc now t1 t2 r q cs g =
     (let (loggedIn, ss) = consoleSessionValid (gw_token g) now r (gw_sessions g);
          g = g\<lparr>gw_sessions := ss\<rparr>
      in (console_page rfc loggedIn now (pending_pairings t1 cs) (pending_pairings t2 cs) q g, g))"

subsection \<open>Creating a run\<close>

datatype console_reply = Redirect string | Page "piece list"

text \<open>A form is its three values, or does not parse. The query's keys are sorted.\<close>

definition handleConsoleCreateRun ::
  "http_request \<Rightarrow> (string \<times> string \<times> string) option \<Rightarrow> int \<Rightarrow> gateway \<Rightarrow> console_reply \<times> gateway" where
  "handleConsoleCreateRun r form now g =
     (let (valid, g) = (if consoleAuthEnabled (gw_token g)
          then (let (ok, ss) = consoleSessionValid (gw_token g) now r (gw_sessions g) in (ok, g\<lparr>gw_sessions := ss\<rparr>))
          else (True, g))
      in if \<not> valid then (Redirect ''/console?login=failed'', g)
         else (case form of None \<Rightarrow> (Redirect ''/console?run=bad_request'', g)
           | Some (rt, prompt, network) \<Rightarrow>
               (let runtimeName = (if trim_space rt = '''' then ''nano_agent'' else trim_space rt);
                    prompt = (if trim_space prompt = '''' then ''hello from nano cloud'' else trim_space prompt);
                    req = \<lparr>crq_Runtime = runtimeName, crq_Prompt = prompt, crq_SessionID = '''', crq_WorkerID = '''',
                      crq_WorkspaceID = '''', crq_TimeoutSeconds = 0, crq_Resources = None,
                      crq_Network = trim_space network, crq_Approval = ''''\<rparr>
                in case createRun req now g of
                     (Inl (status, message), g) \<Rightarrow>
                       (Redirect (''/console?'' @ (if message \<noteq> '''' then ''reason='' @ QueryEscape message @ ''&'' else '''')
                          @ ''run=failed''), g)
                   | (Inr resp, g) \<Rightarrow> (Redirect (''/console/runs/'' @ PathEscape (cro_RunID resp)), g))))"

subsection \<open>The page of a run\<close>

definition utf8 :: "nat list \<Rightarrow> string" where "utf8 bs = map char_of bs"

text \<open>The hints, mostly in Chinese.\<close>

definition hint_table :: "(string \<times> string) list" where
  "hint_table = [
     (''RUNTIME_NOT_CONFIGURED'',
        utf8 [229, 156, 168] @ '' worker-config.yaml '' @ utf8 [231, 154, 132] @ '' runtimes '' @ utf8
        [228, 184, 139, 230, 183, 187, 229, 138, 160, 232, 175, 165] @ '' runtime '' @ utf8 [233, 133,
        141, 231, 189, 174]),
     (''RUNTIME_IMAGE_EMPTY'',
        utf8 [228, 184, 186, 232, 175, 165] @ '' runtime '' @ utf8 [232, 174, 190, 231, 189, 174, 233,
        149, 156, 229, 131, 143, 229, 144, 141]),
     (''EXEC_COMMAND_EMPTY'',
        utf8 [228, 184, 186, 232, 175, 165] @ '' runtime '' @ utf8 [233, 133, 141, 231, 189, 174, 229,
        143, 175, 230, 137, 167, 232, 161, 140, 229, 145, 189, 228, 187, 164]),
     (''DOCKER_RUN_FAILED'',
        utf8 [230, 163, 128, 230, 159, 165, 233, 149, 156, 229, 131, 143, 230, 152, 175, 229, 144, 166,
        229, 173, 152, 229, 156, 168, 228, 184, 142, 229, 144, 175, 229, 138, 168, 229, 145, 189, 228,
        187, 164]),
     (''DOCKER_WAIT_FAILED'',
        utf8 [229, 174, 185, 229, 153, 168, 229, 188, 130, 229, 184, 184, 233, 128, 128, 229, 135, 186,
        239, 188, 140, 230, 159, 165, 231, 156, 139] @ '' agent.stderr.log''),
     (''NETWORK_ALLOWLIST_EMPTY'',
        utf8 [229, 156, 168] @ '' worker-config.yaml '' @ utf8 [233, 133, 141, 231, 189, 174] @
        '' network_allowlist''),
     (''NETWORK_ALLOWLIST_INVALID'',
        utf8 [228, 191, 174, 230, 173, 163] @ '' allowlist '' @ utf8 [232, 167, 132, 229, 136, 153, 230,
        160, 188, 229, 188, 143]),
     (''DOCKER_NETWORK_CREATE_FAILED'',
        utf8 [230, 163, 128, 230, 159, 165] @ '' Docker '' @ utf8 [230, 157, 131, 233, 153, 144, 228,
        184, 142] @ '' network '' @ utf8 [229, 144, 141, 231, 167, 176, 229, 134, 178, 231, 170, 129]),
     (''DOCKER_NET_POLICY_FAILED'',
        utf8 [230, 163, 128, 230, 159, 165, 231, 173, 150, 231, 149, 165, 233, 149, 156, 229, 131, 143,
        228, 184, 142, 231, 189, 145, 231, 187, 156, 232, 191, 158, 230, 142, 165])]"

definition errorHintForCode :: "string \<Rightarrow> string" where
  "errorHintForCode code = (case map_of hint_table (to_upper (trim_space code)) of None \<Rightarrow> '''' | Some h \<Rightarrow> h)"

text \<open>\<^verbatim>\<open>Duration.Milliseconds\<close> cuts towards zero.\<close>

definition milliseconds :: "int \<Rightarrow> int" where
  "milliseconds d = (if d < 0 then - ((- d) div 1000000) else d div 1000000)"

fun stage_rows :: "int option \<Rightarrow> (Envelope \<times> int) list \<Rightarrow> (string \<times> int \<times> string) list" where
  "stage_rows lastT [] = []"
| "stage_rows lastT ((env, t) # rest) =
     (case Option.bind (GetRunEvent env) GetStatus of
        None \<Rightarrow> stage_rows lastT rest
      | Some (status, _) \<Rightarrow>
          (status, second_of t, (case lastT of None \<Rightarrow> '''' | Some t0 \<Rightarrow> dec_of_int (milliseconds (t - t0))))
          # stage_rows (Some t) rest)"

definition last_run_error :: "Envelope list \<Rightarrow> proto_Error option" where
  "last_run_error history =
     (case List.map_filter (\<lambda>env. Option.bind (GetRunEvent env) GetError) (rev history) of
        [] \<Rightarrow> None | e # _ \<Rightarrow> Some e)"

definition last_stats :: "Envelope list \<Rightarrow> string option" where
  "last_stats history =
     (case filter (\<lambda>c. trim_space (ce_StatsJson c) \<noteq> '''')
         (List.map_filter (\<lambda>env. Option.bind (GetRunEvent env) GetCompleted) (rev history)) of
        [] \<Rightarrow> None | c # _ \<Rightarrow> Some (ce_StatsJson c))"

text \<open>\<open>indent\<close> decodes a JSON object and prints it indented, or gives nothing where there is none.\<close>

definition run_detail ::
  "(int \<Rightarrow> string) \<Rightarrow> (string \<Rightarrow> string option) \<Rightarrow> string \<Rightarrow> Envelope list \<Rightarrow> int list \<Rightarrow> piece list" where
  "run_detail rfc indent rid history stamps =
     (let rows = stage_rows None (zip history stamps) in
      [Html ''<!DOCTYPE html><html><head><meta charset=\"utf-8\" /><title>Run Detail</title>'', StyleSheet,
       Html ''</head><body>'',
       Html (''<a href=\"/console\" class=\"back\">Back to Console</a>'' @ tag ''h2'' (''Run '' @ htmlEscape rid))]
      @ (if rows \<noteq> [] then
           [Html ''<div class=\"panel\"><h3>Stages</h3><table><thead><tr><th>stage</th><th>time</th><th>delta_ms</th></tr></thead><tbody>'']
           @ map (\<lambda>(status, t, delta). Html (tag ''tr'' (tag ''td'' (htmlEscape status)
               @ tag ''td'' (tag ''code'' (htmlEscape (rfc t))) @ tag ''td'' (tag ''code'' (htmlEscape delta))))) rows
           @ [Html ''</tbody></table></div>'']
         else [Html ''<div class=\"panel\"><h3>Stages</h3><div class=\"err\" style=\"background:transparent;border:1px dashed #30363d;color:#8b949e;text-align:center;padding:32px;\">No stages recorded yet.</div></div>''])
      @ (case last_run_error history of None \<Rightarrow> []
         | Some e \<Rightarrow>
             if err_Code e = '''' then []
             else [Html (''<div class=\"panel\"><h3>Error</h3><div class=\"err\">'' @ tag ''strong'' (htmlEscape (err_Code e))
                     @ '': '' @ htmlEscape (err_Message e) @ ''</div>'')]
               @ (if errorHintForCode (err_Code e) \<noteq> ''''
                  then [Html (''<div class=\"hint\">'' @ htmlEscape (errorHintForCode (err_Code e)) @ ''</div>'')] else [])
               @ [Html ''</div>''])
      @ (case Option.bind (last_stats history) indent of None \<Rightarrow> []
         | Some b \<Rightarrow> [Html (''<div class=\"panel\"><h3>Stats</h3>'' @ tag ''pre'' (htmlEscape b) @ ''</div>'')])
      @ [Html ''</body></html>''])"

definition handleConsoleRunDetail ::
  "(int \<Rightarrow> string) \<Rightarrow> (string \<Rightarrow> string option) \<Rightarrow> int \<Rightarrow> http_request \<Rightarrow> string \<Rightarrow> gateway \<Rightarrow> console_reply \<times> gateway" where
  "handleConsoleRunDetail rfc indent now r rid g =
     (let (loggedIn, ss) = consoleSessionValid (gw_token g) now r (gw_sessions g);
          g = g\<lparr>gw_sessions := ss\<rparr>
      in if consoleAuthEnabled (gw_token g) \<and> \<not> loggedIn then (Redirect ''/console?login=failed'', g)
         else (Page (run_detail rfc indent rid (gw_events g rid) (gw_times g rid)), g))"


subsection \<open>Markup\<close>

text \<open>The characters that delimit tags and attributes, and what of a page consists of them.\<close>

definition markup :: "char \<Rightarrow> bool" where
  "markup c \<longleftrightarrow> c \<in> {CHR ''<'', CHR ''>'', CHR 0x22, CHR 0x27}"

definition bones :: "string \<Rightarrow> string" where "bones s = filter markup s"

fun piece_bones :: "piece \<Rightarrow> piece" where
  "piece_bones (Html s) = Html (bones s)"
| "piece_bones (ApproveByCodeForm s) = ApproveByCodeForm (bones s)"
| "piece_bones p = p"

lemma bones_append [simp]: "bones (s @ t) = bones s @ bones t" "bones [] = []"
  by (simp_all add: bones_def)

lemma bones_empty: "(\<And>c. c \<in> set s \<Longrightarrow> \<not> markup c) \<Longrightarrow> bones s = []"
  by (simp add: bones_def)

lemma bones_htmlEscape [simp]: "bones (htmlEscape s) = []"
  by (rule bones_empty) (auto simp: htmlEscape_def html_char_def markup_def split: if_splits)

lemma digit_no_markup: "is_digit c \<Longrightarrow> \<not> markup c"
  by (auto simp: is_digit_def markup_def less_eq_char_def)

lemma bones_dec [simp]: "bones (dec_of_nat n) = []" "bones (dec_of_int i) = []"
proof -
  show n: "bones (dec_of_nat n) = []" for n
    using dec_of_nat_digits [of n] by (intro bones_empty) (auto simp: list_all_iff digit_no_markup)
  have "bones (CHR ''-'' # s) = bones s" for s by (simp add: bones_def markup_def)
  with n show "bones (dec_of_int i) = []" by (simp add: dec_of_int_def)
qed

lemma bones_take: "bones s = [] \<Longrightarrow> bones (take n s) = []"
  by (auto simp: bones_def filter_empty_conv dest: in_set_takeD)

lemma bones_run_id [simp]: "bones (take n (run_id t)) = []"
proof -
  have "bones ''run-'' = []" by (simp add: bones_def markup_def)
  then have "bones (run_id t) = []" unfolding run_id_def by (simp only: bones_append bones_dec append_Nil)
  then show ?thesis by (rule bones_take)
qed

lemma bones_tag [simp]: "bones (tag t s) = bones (''<'' @ t @ ''>'') @ bones s @ bones (''</'' @ t @ ''>'')"
  by (simp add: tag_def bones_def)

text \<open>The rows of a table differ in no markup.\<close>

lemma bones_rows:
  assumes "\<And>x y. x \<in> set xs \<Longrightarrow> y \<in> set ys \<Longrightarrow> bones (f x) = bones (f' y)" "length xs = length ys"
  shows "map (piece_bones \<circ> (\<lambda>x. Html (f x))) xs = map (piece_bones \<circ> (\<lambda>y. Html (f' y))) ys"
  using assms(2,1) by (induction xs ys rule: list_induct2) simp_all

text \<open>The identifiers a page shows unescaped are made by the gateway: UUIDs for the pairing requests,
  run-<time> for the runs.\<close>

definition uuid_text :: "string \<Rightarrow> bool" where
  "uuid_text s \<longleftrightarrow> length s = 36 \<and> set s \<subseteq> set ''0123456789abcdef-''"

definition made_ids :: "PairingRequest list \<Rightarrow> gateway \<Rightarrow> bool" where
  "made_ids pending g \<longleftrightarrow> (\<forall>r \<in> set pending. uuid_text (pr_ID r)) \<and> (\<forall>rid \<in> fst ` set (gw_runs g). \<exists>t. rid = run_id t)"

lemma bones_uuid: "uuid_text s \<Longrightarrow> bones s = []"
  by (rule bones_empty) (auto simp: uuid_text_def markup_def)

lemma recent_run_ids:
  assumes "made_ids pending g" "r \<in> set (recent_runs g)"
  shows "bones (cr_RunIDPrefix r) = []"
  using assms by (fastforce simp: recent_runs_def made_ids_def dest!: in_set_takeD)

lemma bones_public_row: "(\<And>t. bones (rfc t) = []) \<Longrightarrow> bones (public_row rfc r) = bones (public_row rfc r')"
  by (simp add: public_row_def)

lemma bones_private_row: "(\<And>t. bones (rfc t) = []) \<Longrightarrow> bones (private_row rfc r) = bones (private_row rfc r')"
  by (simp add: private_row_def)

lemma bones_pairing_row:
  "(\<And>t. bones (rfc t) = []) \<Longrightarrow> bones (pr_ID r) = [] \<Longrightarrow> bones (pr_ID r') = []
    \<Longrightarrow> bones (pairing_row rfc r) = bones (pairing_row rfc r')"
  by (simp add: pairing_row_def del: append_Cons append.simps)

text \<open>The parts of the overview: each has the markup of its shape.\<close>

lemmas no_unfold = append_Cons append.simps

lemma started_bones:
  assumes "n > 0 \<longleftrightarrow> n' > 0" "w > 0 \<longleftrightarrow> w' > 0" "cq_run q = ''failed'' \<longleftrightarrow> cq_run q' = ''failed''"
  shows "map piece_bones (get_started b n w q) = map piece_bones (get_started b n' w' q')"
  using assms by (simp add: get_started_def del: no_unfold)

lemma login_bones:
  assumes "cq_login q = ''failed'' \<longleftrightarrow> cq_login q' = ''failed''"
  shows "login_panel a b q = login_panel a b q'"
  using assms by (simp add: login_panel_def)

lemma pairing_bones:
  assumes "\<And>t. bones (rfc t) = []" "\<forall>r \<in> set p. bones (pr_ID r) = []" "\<forall>r \<in> set p'. bones (pr_ID r) = []"
    and "length p = length p'"
  shows "map piece_bones (pairing_section rfc p q) = map piece_bones (pairing_section rfc p' q')"
proof -
  have "map (piece_bones \<circ> (\<lambda>r. Html (pairing_row rfc r))) p = map (piece_bones \<circ> (\<lambda>r. Html (pairing_row rfc r))) p'"
    using assms by (intro bones_rows bones_pairing_row) auto
  moreover have "p = [] \<longleftrightarrow> p' = []" using assms(4) by auto
  ultimately show ?thesis by (simp add: pairing_section_def)
qed

lemma public_bones:
  assumes "\<And>t. bones (rfc t) = []" "length rows = length rows'"
  shows "map piece_bones (public_section rfc rows) = map piece_bones (public_section rfc rows')"
proof -
  have "map (piece_bones \<circ> (\<lambda>r. Html (public_row rfc r))) rows = map (piece_bones \<circ> (\<lambda>r. Html (public_row rfc r))) rows'"
    using assms by (intro bones_rows bones_public_row) auto
  moreover have "rows = [] \<longleftrightarrow> rows' = []" using assms(2) by auto
  ultimately show ?thesis by (simp add: public_section_def)
qed

lemma private_bones:
  assumes "\<And>t. bones (rfc t) = []" "length rows = length rows'"
  shows "map piece_bones (private_section rfc rows) = map piece_bones (private_section rfc rows')"
proof -
  have "map (piece_bones \<circ> (\<lambda>r. Html (private_row rfc r))) rows = map (piece_bones \<circ> (\<lambda>r. Html (private_row rfc r))) rows'"
    using assms by (intro bones_rows bones_private_row) auto
  moreover have "rows = [] \<longleftrightarrow> rows' = []" using assms(2) by auto
  ultimately show ?thesis by (simp add: private_section_def)
qed

lemma bones_run_row:
  assumes "bones (cr_RunIDPrefix r) = []" "bones (cr_RunIDPrefix r') = []" "bones url = bones url'"
  shows "bones (run_row url r) = bones (run_row url' r')"
  using assms by (simp add: run_row_def Let_def events_url_def detail_url_def del: no_unfold)

lemma runs_bones:
  assumes "\<forall>r \<in> set rows. bones (cr_RunIDPrefix r) = []" "\<forall>r \<in> set rows'. bones (cr_RunIDPrefix r) = []"
    and "bones url = bones url'" "length rows = length rows'"
  shows "map piece_bones (runs_section url rows) = map piece_bones (runs_section url' rows')"
proof -
  have "map (piece_bones \<circ> (\<lambda>r. Html (run_row url r))) rows = map (piece_bones \<circ> (\<lambda>r. Html (run_row url' r))) rows'"
    using assms by (intro bones_rows bones_run_row) auto
  moreover have "rows = [] \<longleftrightarrow> rows' = []" using assms(4) by auto
  ultimately show ?thesis by (simp add: runs_section_def)
qed

lemma base_bones: "bones (base_url q) = bones (cq_Host q)"
  by (simp add: base_url_def) (simp add: bones_def markup_def)

text \<open>The host is written into the row of a run as it is.\<close>

lemma host_here: "\<exists>a b. \<forall>host. bones host @ y = a @ bones host @ b"
  by (intro exI [of _ "[]"] exI [of _ y]) simp

lemma host_later: "\<exists>a b. \<forall>host. f host = a @ bones host @ b \<Longrightarrow> \<exists>a b. \<forall>host. x @ f host = a @ bones host @ b"
  by (metis append_assoc)

lemma run_row_host: "\<exists>a b. \<forall>host. bones (run_row (scheme @ host) r) = a @ bones host @ b"
  unfolding run_row_def Let_def events_url_def detail_url_def tag_def bones_append bones_htmlEscape append_assoc
  by ((rule host_here | rule host_later)+)

text \<open>What the markup of a run's page depends on: the number of its stages, and whether it has an error, a hint
  and stats.\<close>

definition run_shape :: "(string \<Rightarrow> string option) \<Rightarrow> Envelope list \<Rightarrow> int list \<Rightarrow> nat \<times> bool \<times> bool \<times> bool" where
  "run_shape indent history stamps =
     (length (stage_rows None (zip history stamps)),
      (case last_run_error history of None \<Rightarrow> False | Some e \<Rightarrow> err_Code e \<noteq> ''''),
      (case last_run_error history of None \<Rightarrow> False | Some e \<Rightarrow> errorHintForCode (err_Code e) \<noteq> ''''),
      Option.bind (last_stats history) indent \<noteq> None)"

lemma bones_stage_rows:
  assumes "length xs = length ys"
  shows "map (piece_bones \<circ> (\<lambda>(status, t, delta). Html (tag ''tr'' (tag ''td'' (htmlEscape status)
          @ tag ''td'' (tag ''code'' (htmlEscape (rfc t))) @ tag ''td'' (tag ''code'' (htmlEscape delta)))))) xs
    = map (piece_bones \<circ> (\<lambda>(status, t, delta). Html (tag ''tr'' (tag ''td'' (htmlEscape status)
          @ tag ''td'' (tag ''code'' (htmlEscape (rfc t))) @ tag ''td'' (tag ''code'' (htmlEscape delta)))))) ys"
  using assms by (induction xs ys rule: list_induct2) (auto simp del: no_unfold)

lemma detail_bones:
  assumes "run_shape indent h st = run_shape indent h' st'"
  shows "map piece_bones (run_detail rfc indent rid h st) = map piece_bones (run_detail rfc indent rid' h' st')"
proof -
  have len: "length (stage_rows None (zip h st)) = length (stage_rows None (zip h' st'))"
    using assms by (simp add: run_shape_def)
  then have "stage_rows None (zip h st) = [] \<longleftrightarrow> stage_rows None (zip h' st') = []" by auto
  with assms bones_stage_rows [OF len, of rfc] show ?thesis
    by (auto simp: run_detail_def run_shape_def Let_def simp del: no_unfold split: option.splits)
qed

lemma rows_of_workers: "length (public_workers g) = length (private_workers g)"
  by (simp add: public_workers_def private_workers_def map_filter_def comp_def case_prod_unfold)

lemma session_updates [simp]:
  "public_workers (g\<lparr>gw_sessions := ss\<rparr>) = public_workers g" "private_workers (g\<lparr>gw_sessions := ss\<rparr>) = private_workers g"
  "recent_runs (g\<lparr>gw_sessions := ss\<rparr>) = recent_runs g"
  by (simp_all add: public_workers_def private_workers_def recent_runs_def cong: if_cong)

text \<open>C31: Nobody's text becomes markup of the console, with one exception. For visitors in the same position, logged in or
  not, the tags and quotes of the overview are the same whatever workers, pairing requests and query parameters
  say, given the number of their rows, and those of a run's page whatever statuses, errors and stats its worker
  has sent, given which of them there are; the identifiers of pairing requests and runs, which the gateway makes
  itself and writes as they are, have the form it gives them. The exception is the Host header of the request: its
  markup is the only thing in the overview that may differ, and it is written into the row of every
  run as it is.\<close>

theorem console_markup_fixed:
  assumes "fst (handleConsole rfc now t1 t2 r q cs g) = page" "fst (handleConsole rfc now' t1' t2' r' q' cs' g') = page'"
    and "fst (consoleSessionValid (gw_token g) now r (gw_sessions g))
      \<longleftrightarrow> fst (consoleSessionValid (gw_token g') now' r' (gw_sessions g'))"
    and "gw_token g = '''' \<longleftrightarrow> gw_token g' = ''''"
    and "cq_run q = ''failed'' \<longleftrightarrow> cq_run q' = ''failed''" "cq_login q = ''failed'' \<longleftrightarrow> cq_login q' = ''failed''"
    and "length (public_workers g) = length (public_workers g')" "length (recent_runs g) = length (recent_runs g')"
    and "length (pending_pairings t1 cs) = length (pending_pairings t1' cs')"
      "length (pending_pairings t2 cs) = length (pending_pairings t2' cs')"
    and "\<And>t. bones (rfc t) = []"
    and "made_ids (pending_pairings t2 cs) g" "made_ids (pending_pairings t2' cs') g'"
  shows "(bones (cq_Host q) = bones (cq_Host q') \<longrightarrow> map piece_bones page = map piece_bones page')
    \<and> (\<forall>row. \<exists>a b. \<forall>host. bones (run_row (base_url (q\<lparr>cq_Host := host\<rparr>)) row) = a @ bones host @ b)
    \<and> (\<forall>indent rid rid'. run_shape indent (gw_events g rid) (gw_times g rid) = run_shape indent (gw_events g' rid') (gw_times g' rid')
        \<longrightarrow> map piece_bones (run_detail rfc indent rid (gw_events g rid) (gw_times g rid))
          = map piece_bones (run_detail rfc indent rid' (gw_events g' rid') (gw_times g' rid')))"
proof (intro conjI allI impI)
  let ?in = "fst (consoleSessionValid (gw_token g) now r (gw_sessions g))"
  assume host: "bones (cq_Host q) = bones (cq_Host q')"
  have hidden: "map piece_bones (private_section rfc (private_workers g)) = map piece_bones (private_section rfc (private_workers g'))"
    using assms(7) by (intro private_bones assms(11)) (simp add: rows_of_workers)
  have pairing: "map piece_bones (pairing_section rfc (pending_pairings t2 cs) q)
      = map piece_bones (pairing_section rfc (pending_pairings t2' cs') q')"
    using assms(10,12,13) by (intro pairing_bones assms(11)) (auto simp: made_ids_def bones_uuid)
  have runs: "map piece_bones (runs_section (base_url q) (recent_runs g)) = map piece_bones (runs_section (base_url q') (recent_runs g'))"
    using recent_run_ids [OF assms(12)] recent_run_ids [OF assms(13)] assms(8) host
    by (intro runs_bones) (auto simp: base_bones)
  have started: "map piece_bones (get_started ?in (if ?in then length (pending_pairings t1 cs) else 0) (length (public_workers g)) q)
      = map piece_bones (get_started ?in (if ?in then length (pending_pairings t1' cs') else 0) (length (public_workers g')) q')"
    using assms by (intro started_bones) simp_all
  have login: "login_panel (consoleAuthEnabled (gw_token g)) ?in q = login_panel (consoleAuthEnabled (gw_token g')) ?in q'"
    using assms(4,6) by (simp add: consoleAuthEnabled_def login_bones [of q q'])
  show "map piece_bones page = map piece_bones page'"
    using hidden pairing runs started login public_bones [OF assms(11) assms(7)] assms(3,7,8,11)
    by (simp add: assms(1,2) [symmetric] handleConsole_def console_page_def case_prod_unfold Let_def del: no_unfold)
next
  fix row
  show "\<exists>a b. \<forall>host. bones (run_row (base_url (q\<lparr>cq_Host := host\<rparr>)) row) = a @ bones host @ b"
    using run_row_host [of "if cq_TLS q then ''https://'' else ''http://''" row] by (simp add: base_url_def)
qed (rule detail_bones)

definition demo_visitor :: http_request where
  "demo_visitor = \<lparr>rq_Authorization = '''', rq_GatewayToken = '''', rq_WorkerToken = '''', rq_QueryToken = '''', rq_Cookie = Some ''sid''\<rparr>"

definition demo_query :: "string \<Rightarrow> console_query" where
  "demo_query reason = \<lparr>cq_login = '''', cq_run = ''failed'', cq_reason = reason, cq_pairing = '''', cq_Host = ''gw'', cq_TLS = False\<rparr>"

definition demo_console :: "string \<Rightarrow> gateway" where
  "demo_console name = (NewGatewayServer ''tok'')\<lparr>gw_workers := [(''w1'', \<lparr>sess_ID = ''w1'', sess_Conn = 0,
       sess_Hello = Some \<lparr>wh_Name = name, wh_Version = name, wh_Labels = [name], wh_SupportedRuntimes = [RUNTIME_NANO_AGENT],
         wh_Capacity = None, wh_Docker = None\<rparr>, sess_LastHeartbeat = 0\<rparr>)],
     gw_runs := [(''run-1700000000000000000'', ''w1'')], gw_sessions := (\<lambda>_. None)(''sid'' := Some 100)\<rparr>"

lemma demo_run_id: "run_id 1700000000000000000 = ''run-1700000000000000000''"
  by (simp add: run_id_def dec_of_int_def dec_of_nat.simps digit_char_def) code_simp

lemma demo_console_facts:
  "fst (consoleSessionValid (gw_token (demo_console x)) 0 demo_visitor (gw_sessions (demo_console x)))"
  "length (public_workers (demo_console x)) = 1" "length (recent_runs (demo_console x)) = 1"
  "gw_token (demo_console x) \<noteq> ''''" "fst ` set (gw_runs (demo_console x)) = {''run-1700000000000000000''}"
  by (simp_all add: demo_console_def demo_visitor_def consoleSessionValid_def consoleAuthEnabled_def NewGatewayServer_def
      public_workers_def recent_runs_def map_filter_def) (code_simp)?


lemma console_markup_fixed_witness:
  "map piece_bones (fst (handleConsole (\<lambda>_. '''') 0 0 0 demo_visitor (demo_query ''</div><script>'') (demo_store []) (demo_console ''<script>'')))
   = map piece_bones (fst (handleConsole (\<lambda>_. '''') 0 0 0 demo_visitor (demo_query ''why'') (demo_store []) (demo_console ''mybox'')))"
proof -
  have "pending_pairings 0 (demo_store []) = []" by code_simp
  then have "made_ids (pending_pairings 0 (demo_store [])) (demo_console y)" for y
    using demo_run_id by (auto simp: made_ids_def demo_console_facts intro: exI [of _ 1700000000000000000])
  then show ?thesis
    by (intro console_markup_fixed [OF refl refl, THEN conjunct1, THEN mp])
      (simp_all only: demo_console_facts bones_append, simp_all add: demo_query_def)
qed


subsection \<open>Who sees what\<close>

text \<open>C32: The page without a login shows nothing private: it is determined by the names, versions, runtimes and
  times of the connected workers, the number of runs up to thirty, and the query; what is in the
  store, the identifiers and labels of workers, the runs and their events make no difference.\<close>

theorem anonymous_page_hides_private:
  assumes "\<not> fst (consoleSessionValid (gw_token g) now r (gw_sessions g))"
    and "\<not> fst (consoleSessionValid (gw_token g') now r' (gw_sessions g'))"
    and "gw_token g = '''' \<longleftrightarrow> gw_token g' = ''''"
    and "public_workers g = public_workers g'"
    and "min 30 (length (gw_runs g)) = min 30 (length (gw_runs g'))"
  shows "fst (handleConsole rfc now t1 t2 r q cs g) = fst (handleConsole rfc now t1' t2' r' q cs' g')"
proof -
  have "length (recent_runs g) = length (recent_runs g')" using assms(5) by (simp add: recent_runs_def min.commute)
  with assms show ?thesis
    by (simp add: handleConsole_def console_page_def case_prod_unfold Let_def consoleAuthEnabled_def del: no_unfold)
qed

lemma anonymous_page_hides_private_witness:
  "fst (handleConsole (\<lambda>_. '''') 0 0 0 (demo_visitor\<lparr>rq_Cookie := None\<rparr>) (demo_query ''x'') (demo_store []) (demo_console ''w''))
   = fst (handleConsole (\<lambda>_. '''') 0 0 0 (demo_visitor\<lparr>rq_Cookie := None\<rparr>) (demo_query ''x'') (demo_store [True])
       ((demo_console ''w'')\<lparr>gw_token := ''other'', gw_events := (\<lambda>_. []), gw_runs := [(''secret'', ''w9'')]\<rparr>))"
  by (rule anonymous_page_hides_private)
    (simp_all add: consoleSessionValid_def consoleAuthEnabled_def demo_visitor_def demo_console_def public_workers_def
      NewGatewayServer_def)

lemma session_kept: "consoleSessionValid tok now r ss = (True, ss') \<Longrightarrow> ss' = ss"
  by (auto simp: consoleSessionValid_def split: option.splits if_splits)

lemma concat_map_keep: "(\<And>c. c \<in> set s \<Longrightarrow> f c = [c]) \<Longrightarrow> concat (map f s) = s"
  by (induction s) auto

lemma run_id_unreserved: "c \<in> set (run_id t) \<Longrightarrow> unreserved c"
proof -
  have "unreserved (CHR ''r'')" "unreserved (CHR ''u'')" "unreserved (CHR ''n'')" "unreserved (CHR ''-'')"
    by (simp_all add: unreserved_def ascii_letter_def)
  moreover have "unreserved c" if "c \<in> set (dec_of_nat n)" for n
    using that dec_of_nat_digits [of n] by (auto simp: list_all_iff unreserved_def)
  ultimately show "c \<in> set (run_id t) \<Longrightarrow> unreserved c" by (auto simp: run_id_def dec_of_int_def split: if_splits)
qed

lemma PathEscape_run_id: "PathEscape (run_id t) = run_id t"
  unfolding PathEscape_def by (rule concat_map_keep) (simp add: run_id_unreserved)

definition form_request :: "string \<times> string \<times> string \<Rightarrow> createRunRequest" where
  "form_request form = (case form of (rt, prompt, network) \<Rightarrow>
     \<lparr>crq_Runtime = (if trim_space rt = '''' then ''nano_agent'' else trim_space rt),
      crq_Prompt = (if trim_space prompt = '''' then ''hello from nano cloud'' else trim_space prompt),
      crq_SessionID = '''', crq_WorkerID = '''', crq_WorkspaceID = '''', crq_TimeoutSeconds = 0, crq_Resources = None,
      crq_Network = trim_space network, crq_Approval = ''''\<rparr>)"

text \<open>C33: A run started from the console is one started over the API: for an administrator who is logged in the
  form does to the gateway what the request with the form's trimmed values, or their defaults, does
  over the API with the token, and leads to the page of the run that the API would have
  answered; and without a session a form does nothing on a gateway with a token.\<close>

theorem console_run_is_api_run:
  assumes "gw_token g \<noteq> ''''" and "checkToken e (gw_token g) r'"
  shows "if fst (consoleSessionValid (gw_token g) now r (gw_sessions g)) then
      handleConsoleCreateRun r (Some form) now g
      = (case handleCreateRun e r' (Some (form_request form)) now g of
           (Inr resp, g') \<Rightarrow> (Redirect (''/console/runs/'' @ cro_RunID resp), g')
         | (Inl (status, message), g') \<Rightarrow>
             (Redirect (''/console?'' @ (if message \<noteq> '''' then ''reason='' @ QueryEscape message @ ''&'' else '''') @ ''run=failed''), g'))
    else fst (handleConsoleCreateRun r form' now g) = Redirect ''/console?login=failed''
      \<and> (snd (handleConsoleCreateRun r form' now g))\<lparr>gw_sessions := gw_sessions g\<rparr> = g"
proof -
  obtain ok ss where v: "consoleSessionValid (gw_token g) now r (gw_sessions g) = (ok, ss)" by fastforce
  have rid: "cro_RunID resp = run_id now" if "createRun req now g = (Inr resp, g')" for req resp g'
    using that by (auto simp: createRun_def Let_def split: sum.splits prod.splits)
  show ?thesis
  proof (cases ok)
    case True
    with v session_kept [of "gw_token g" now r "gw_sessions g" ss] assms show ?thesis
      by (auto simp: handleConsoleCreateRun_def handleCreateRun_def form_request_def consoleAuthEnabled_def Let_def
          PathEscape_run_id rid split: prod.split sum.split)
  next
    case False
    with v assms show ?thesis by (simp add: handleConsoleCreateRun_def consoleAuthEnabled_def Let_def)
  qed
qed

definition demo_api :: http_request where
  "demo_api = demo_visitor\<lparr>rq_Authorization := ''Bearer tok'', rq_Cookie := None\<rparr>"

definition no_env :: gateway_env where
  "no_env = \<lparr>ge_AllowTokenQuery = '''', ge_DevMode = '''', ge_SessionTTLMinutes = ''''\<rparr>"

lemma demo_created:
  "fst (handleCreateRun no_env demo_api (Some (form_request ('''', '''', ''''))) 5 (demo_console ''w''))
   = Inr \<lparr>cro_RunID = ''run-5'', cro_WorkerID = ''w1'', cro_EventsURL = ''/v1/runs/run-5/events''\<rparr>"
  by code_simp

lemma console_run_is_api_run_witness:
  "fst (handleConsoleCreateRun demo_visitor (Some ('''', '''', '''')) 5 (demo_console ''w'')) = Redirect ''/console/runs/run-5''"
proof -
  have "gw_token (demo_console ''w'') \<noteq> ''''"
    "checkToken no_env (gw_token (demo_console ''w'')) demo_api"
    "fst (consoleSessionValid (gw_token (demo_console ''w'')) 5 demo_visitor (gw_sessions (demo_console ''w'')))"
    by code_simp+
  from console_run_is_api_run [OF this(1,2), of 5 demo_visitor "('''', '''', '''')" None] this(3) demo_created
  show ?thesis by (simp split: prod.splits sum.splits)
qed


subsection \<open>Links\<close>


lemma run_id_long:
  assumes "10 ^ 8 \<le> t"
  shows "12 < length (run_id t)"
proof -
  have "(10::nat) ^ 8 < 10 ^ length (dec_of_nat (nat t))"
    by (rule le_less_trans [OF _ dec_bound]) (use assms in simp)
  then have "8 < length (dec_of_nat (nat t))" by (simp only: power_strict_increasing_iff [of "10::nat"])
  with assms show ?thesis by (simp add: run_id_def dec_of_int_def)
qed

lemma no_events_page: "run_detail rfc indent rid [] stamps = run_detail rfc indent rid [] []"
  by (simp add: run_detail_def)


text \<open>The links of the overview lead nowhere. A run's row cuts its identifier to twelve characters and builds
  the links to its events and to its page from what is left; no identifier the gateway makes up
  after the first hundred milliseconds of 1970 is that short, so the page behind the one link is that of
  a run without events, and the history behind the other is empty, whatever the run has done.\<close>

theorem console_links_find_nothing:
  assumes "r \<in> set (recent_runs g)"
    and "\<And>sid. gw_events g sid \<noteq> [] \<Longrightarrow> \<exists>t \<ge> 10 ^ 8. sid = run_id t"
    and "fst (consoleSessionValid (gw_token g) now v (gw_sessions g))"
  shows "\<exists>linked. detail_url r = ''/console/runs/'' @ linked
    \<and> events_url url r = url @ ''/v1/runs/'' @ linked @ ''/events''
    \<and> fst (handleConsoleRunDetail rfc indent now v linked g) = Page (run_detail rfc indent linked [] [])
    \<and> fst (subscribe linked ch g) = []"
proof -
  have "length (cr_RunIDPrefix r) \<le> 12"
    using assms(1) by (fastforce simp: recent_runs_def dest!: in_set_takeD)
  then have none: "gw_events g (cr_RunIDPrefix r) = []"
    using assms(2) [of "cr_RunIDPrefix r"] run_id_long by fastforce
  show ?thesis
    using assms(3) none no_events_page
    by (intro exI [of _ "cr_RunIDPrefix r"])
      (simp add: detail_url_def events_url_def handleConsoleRunDetail_def subscribe_def case_prod_unfold Let_def)
qed

lemma console_links_find_nothing_witness:
  "\<exists>linked. events_url ''http://gw'' \<lparr>cr_RunIDPrefix = ''run-17000000'', cr_WorkerIDPrefix = ''w1'', cr_EventCount = 1, cr_LastSeq = 1\<rparr>
      = ''http://gw/v1/runs/'' @ linked @ ''/events''
    \<and> fst (subscribe linked 0 ((demo_console ''w'')\<lparr>gw_events := (\<lambda>_. [])(''run-1700000000000000000'' :=
        [\<lparr>env_ProtocolVersion = ''1.0'', env_TunnelId = '''', env_WorkerId = ''w1'', env_StreamId = ''run-1700000000000000000'',
          env_Seq = 1, env_Message = Some (Envelope_RunEvent \<lparr>ev_Kind = EVENT_KIND_STATUS,
            ev_Payload = Some (RunEvent_Status ''starting'' '''')\<rparr>)\<rparr>])\<rparr>)) = []"
    (is "\<exists>linked. events_url _ ?r = _ \<and> fst (subscribe linked 0 ?g) = []")
proof -
  have r: "?r \<in> set (recent_runs ?g)" by (simp add: recent_runs_def demo_console_def)
  have valid: "fst (consoleSessionValid (gw_token ?g) 0 demo_visitor (gw_sessions ?g))"
    using demo_console_facts(1) by simp
  have ids: "\<exists>t \<ge> 10 ^ 8. sid = run_id t" if "gw_events ?g sid \<noteq> []" for sid
    using that demo_run_id by (auto split: if_splits intro!: exI [of _ 1700000000000000000])
  from console_links_find_nothing [OF r ids valid, of "''http://gw''" "\<lambda>_. ''''" "\<lambda>_. None" 0]
  show ?thesis by auto
qed

end
