(* ===== verification/Server.thy ===== *)
theory Server
  imports Console GoPath
begin

text \<open>
  The gateway as one server: the routes of \<^verbatim>\<open>setupRoutes\<close> with their handlers over the
  gateway's state and the store, the two middlewares around them, and the command that starts it. The router
  and the decoding of bodies are libraries: a call below is a request that was routed, with its variables
  and its decoded body.
\<close>

subsection \<open>Routes\<close>

record server =
  sv_gateway :: gateway
  sv_store :: config_store

text \<open>What a handler takes from outside: the environment variables, the hash, what is drawn at random, the
  time in nanoseconds, marshalling, whether directories can be read, whether the connection can stream, the
  formats of times and JSON.\<close>

record surroundings =
  sr_env :: gateway_env
  sr_hash :: "string \<Rightarrow> string"
  sr_rand :: "string option"
  sr_uuid :: string
  sr_bytes :: "nat list"
  sr_now :: int
  sr_marshals :: "Envelope \<Rightarrow> bool"
  sr_dirOk :: bool
  sr_flushes :: bool
  sr_rfc :: "int \<Rightarrow> string"
  sr_indent :: "string \<Rightarrow> string option"

datatype call =
    WorkerConnect nat "Envelope option"
  | WorkerPoll "workerPollRequest option"
  | WorkerEvents "Envelope option list option"
  | PairingStart "pairingStartRequest option"
  | PairingPoll string
  | AdminListPairing
  | AdminApprove string
  | AdminApproveCode string
  | AdminReject string
  | AdminListWorkers
  | AdminDeleteWorker string
  | AdminRotate string
  | ListWorkersCall
  | CreateRun "createRunRequest option"
  | RunEvents string nat
  | CancelRun string
  | ConsolePage console_query
  | ConsoleCreateRun "(string \<times> string \<times> string) option"
  | ConsoleRunDetail string
  | ConsoleLogin "(string \<times> string) option"
  | ConsoleLogout

datatype answer =
    AConnect connect_result
  | APoll "nat + Envelope list"
  | AEvents "nat + nat"
  | AApi api_reply
  | AWorkers "nat + workerInfo list"
  | ARun "(nat \<times> string) + createRunResponse"
  | AStream "nat + Envelope list"
  | ACancel nat
  | AConsole console_reply
  | ALogin login_response
  | ALoggedOut

text \<open>The events of a run: the check, then the history, with the channel subscribed; from then on the
  channel is received from until the client leaves.\<close>

definition handleRunEvents ::
  "gateway_env \<Rightarrow> http_request \<Rightarrow> bool \<Rightarrow> string \<Rightarrow> nat \<Rightarrow> gateway \<Rightarrow> (nat + Envelope list) \<times> gateway" where
  "handleRunEvents e r flushes rid ch g =
     (if \<not> checkToken e (gw_token g) r then (Inl 401, g)
      else if \<not> flushes then (Inl 500, g)
      else (let (history, g) = subscribe rid ch g in (Inr history, g)))"

definition on_gateway :: "('a \<Rightarrow> answer) \<Rightarrow> 'a \<times> gateway \<Rightarrow> server \<Rightarrow> answer \<times> server" where
  "on_gateway k res sv = (k (fst res), sv\<lparr>sv_gateway := snd res\<rparr>)"

definition on_store :: "api_reply \<times> config_store \<Rightarrow> server \<Rightarrow> answer \<times> server" where
  "on_store res sv = (AApi (fst res), sv\<lparr>sv_store := snd res\<rparr>)"

text \<open>An administrator's handler works on the store and on the sessions of the gateway.\<close>

definition as_admin :: "(sessions \<Rightarrow> config_store \<Rightarrow> api_reply \<times> config_store \<times> sessions) \<Rightarrow> server \<Rightarrow> answer \<times> server" where
  "as_admin handler sv =
     (let (rep, cs, ss) = handler (gw_sessions (sv_gateway sv)) (sv_store sv)
      in (AApi rep, \<lparr>sv_gateway = (sv_gateway sv)\<lparr>gw_sessions := ss\<rparr>, sv_store = cs\<rparr>))"

fun serve :: "surroundings \<Rightarrow> http_request \<Rightarrow> call \<Rightarrow> server \<Rightarrow> answer \<times> server" where
  "serve sr r (WorkerConnect conn hello) sv =
     on_gateway AConnect (handleWorkerConnect (sr_env sr) (sr_hash sr) r conn hello (sr_now sr) (sv_store sv) (sv_gateway sv)) sv"
| "serve sr r (WorkerPoll body) sv = on_gateway APoll (handleWorkerPoll (sr_marshals sr) r body (sv_gateway sv)) sv"
| "serve sr r (WorkerEvents body) sv = on_gateway AEvents (handleWorkerEvents r body (sr_now sr) (sv_gateway sv)) sv"
| "serve sr r (PairingStart body) sv =
     on_store (handleWorkerPairingStart (sr_hash sr) (sr_rand sr) (sr_uuid sr) (sr_bytes sr) (second_of (sr_now sr))
       (second_of (sr_now sr)) body (sv_store sv)) sv"
| "serve sr r (PairingPoll rid) sv =
     on_store (handleWorkerPairingStatus (sr_hash sr) (second_of (sr_now sr)) rid r (sv_store sv)) sv"
| "serve sr r AdminListPairing sv =
     as_admin (handleAdminListPairingRequests (gw_token (sv_gateway sv)) (sr_now sr) r) sv"
| "serve sr r (AdminApprove rid) sv =
     as_admin (handleAdminApprovePairingRequest (sr_hash sr) (sr_rand sr) (sr_uuid sr) (gw_token (sv_gateway sv)) (sr_now sr) r rid) sv"
| "serve sr r (AdminApproveCode code) sv =
     as_admin (handleAdminApprovePairingRequestByCode (sr_hash sr) (sr_rand sr) (sr_uuid sr) (gw_token (sv_gateway sv)) (sr_now sr) r code) sv"
| "serve sr r (AdminReject rid) sv =
     as_admin (handleAdminRejectPairingRequest (gw_token (sv_gateway sv)) (sr_now sr) r rid) sv"
| "serve sr r AdminListWorkers sv =
     as_admin (handleAdminListWorkers (gw_token (sv_gateway sv)) (sr_now sr) r (sr_dirOk sr) (sv_gateway sv)) sv"
| "serve sr r (AdminDeleteWorker wid) sv =
     as_admin (handleAdminDeleteWorker (gw_token (sv_gateway sv)) (sr_now sr) r wid) sv"
| "serve sr r (AdminRotate wid) sv =
     as_admin (handleAdminRotateWorkerToken (sr_hash sr) (sr_rand sr) (gw_token (sv_gateway sv)) (sr_now sr) r wid) sv"
| "serve sr r ListWorkersCall sv = (AWorkers (handleListWorkers (sr_env sr) r (sv_gateway sv)), sv)"
| "serve sr r (CreateRun body) sv = on_gateway ARun (handleCreateRun (sr_env sr) r body (sr_now sr) (sv_gateway sv)) sv"
| "serve sr r (RunEvents rid ch) sv =
     on_gateway AStream (handleRunEvents (sr_env sr) r (sr_flushes sr) rid ch (sv_gateway sv)) sv"
| "serve sr r (CancelRun rid) sv = on_gateway ACancel (handleCancelRun (sr_env sr) r rid (sv_gateway sv)) sv"
| "serve sr r (ConsolePage q) sv =
     on_gateway (AConsole \<circ> Page) (handleConsole (sr_rfc sr) (sr_now sr) (second_of (sr_now sr)) (second_of (sr_now sr)) r q
       (sv_store sv) (sv_gateway sv)) sv"
| "serve sr r (ConsoleCreateRun form) sv =
     on_gateway AConsole (handleConsoleCreateRun r form (sr_now sr) (sv_gateway sv)) sv"
| "serve sr r (ConsoleRunDetail rid) sv =
     on_gateway AConsole (handleConsoleRunDetail (sr_rfc sr) (sr_indent sr) (sr_now sr) r rid (sv_gateway sv)) sv"
| "serve sr r (ConsoleLogin form) sv =
     (let (res, ss) = handleConsoleLogin (sr_env sr) (gw_token (sv_gateway sv)) (sr_rand sr) (sr_now sr) form
            (gw_sessions (sv_gateway sv))
      in (ALogin res, sv\<lparr>sv_gateway := (sv_gateway sv)\<lparr>gw_sessions := ss\<rparr>\<rparr>))"
| "serve sr r ConsoleLogout sv =
     (ALoggedOut, sv\<lparr>sv_gateway := (sv_gateway sv)\<lparr>gw_sessions := handleConsoleLogout r (gw_sessions (sv_gateway sv))\<rparr>\<rparr>)"

subsection \<open>What goes out\<close>

text \<open>One event of a stream of server-sent events; a message that does not marshal is left out.\<close>

definition sse_event :: "(Envelope \<Rightarrow> string option) \<Rightarrow> Envelope \<Rightarrow> string" where
  "sse_event marshal env =
     (case marshal env of None \<Rightarrow> ''''
      | Some b \<Rightarrow> ''event: run_event'' @ [CHR 0x0A] @ ''data: '' @ b @ [CHR 0x0A, CHR 0x0A])"

text \<open>The cookie of a session; times in nanoseconds.\<close>

record cookie =
  ck_Name :: string
  ck_Value :: string
  ck_HttpOnly :: bool
  ck_Secure :: bool
  ck_MaxAge :: int
  ck_Expires :: int

definition setConsoleSessionCookie :: "bool \<Rightarrow> string \<Rightarrow> int \<Rightarrow> cookie" where
  "setConsoleSessionCookie tls sid exp = \<lparr>ck_Name = ''nano_console_session'', ck_Value = sid, ck_HttpOnly = True,
     ck_Secure = tls, ck_MaxAge = 0, ck_Expires = exp\<rparr>"

definition clearConsoleSessionCookie :: cookie where
  "clearConsoleSessionCookie = \<lparr>ck_Name = ''nano_console_session'', ck_Value = '''', ck_HttpOnly = True,
     ck_Secure = False, ck_MaxAge = - 1, ck_Expires = 0\<rparr>"

subsection \<open>Middleware\<close>

text \<open>
  The recording of the answer: the status and the number of bytes as recorded, and the status that
  went out; the connection takes the first one it is given. A handler is the list of its writes, and
  whether it panics after them.
\<close>

record statusWriter =
  sw_status :: nat
  sw_bytes :: nat
  sw_sent :: "nat option"

datatype write_op = WriteHeader nat | WriteBody nat

fun apply_write :: "write_op \<Rightarrow> statusWriter \<Rightarrow> statusWriter" where
  "apply_write (WriteHeader code) w = w\<lparr>sw_status := code, sw_sent := (case sw_sent w of None \<Rightarrow> Some code | Some c \<Rightarrow> Some c)\<rparr>"
| "apply_write (WriteBody n) w =
     (let w = (if sw_status w = 0 then w\<lparr>sw_status := 200\<rparr> else w)
      in w\<lparr>sw_bytes := sw_bytes w + n, sw_sent := (case sw_sent w of None \<Rightarrow> Some 200 | Some c \<Rightarrow> Some c)\<rparr>)"

definition recoverMiddleware :: "write_op list \<Rightarrow> bool \<Rightarrow> statusWriter \<Rightarrow> statusWriter" where
  "recoverMiddleware ops panics w =
     (let w = fold apply_write ops w in
      if panics then fold apply_write [WriteHeader 500, WriteBody (length ''Internal Server Error'' + 1)] w else w)"

definition accessLogMiddleware :: "write_op list \<Rightarrow> bool \<Rightarrow> string \<Rightarrow> (nat \<times> nat \<times> string) \<times> nat option" where
  "accessLogMiddleware ops panics remoteAddr =
     (let sw = recoverMiddleware ops panics \<lparr>sw_status = 0, sw_bytes = 0, sw_sent = None\<rparr>;
          host = (case SplitHostPort remoteAddr of None \<Rightarrow> '''' | Some (h, _) \<Rightarrow> h);
          host = (if host = '''' then remoteAddr else host)
      in ((sw_status sw, sw_bytes sw, host), sw_sent sw))"

subsection \<open>The command\<close>

record gateway_flags =
  gf_addr :: string
  gf_token :: string
  gf_configStoreDir :: string
  gf_logFile :: string
  gf_logLevel :: string

text \<open>\<^verbatim>\<open>filepath.Dir\<close>: what comes before the last slash.\<close>

definition filepath_Dir :: "string \<Rightarrow> string" where
  "filepath_Dir p = Clean (rev (dropWhile (\<lambda>c. c \<noteq> CHR ''/'') (rev p)))"

text \<open>The level's name is the logging library's to parse; what is started: the log level, the log file if
  there is one, and the server, unless the directory of the log file cannot be made.\<close>

definition gateway_main ::
  "(string \<Rightarrow> 'level option) \<Rightarrow> 'level \<Rightarrow> (string \<Rightarrow> string option) \<Rightarrow> gateway_flags
    \<Rightarrow> string + 'level \<times> string option \<times> gateway" where
  "gateway_main parseLevel info mkdirAll fl =
     (let level = (case parseLevel (gf_logLevel fl) of None \<Rightarrow> info | Some l \<Rightarrow> l);
          lf = Clean (gf_logFile fl)
      in if lf \<noteq> '''' \<and> lf \<noteq> ''.'' then
           (case mkdirAll (filepath_Dir lf) of Some e \<Rightarrow> Inl e
            | None \<Rightarrow> Inr (level, Some lf, NewGatewayServer (gf_token fl)))
         else Inr (level, None, NewGatewayServer (gf_token fl)))"


subsection \<open>Requests without credentials\<close>

text \<open>A request that presents nothing the gateway knows: no gateway token, in any of its forms, no valid
  session, no token of a worker, and no gateway token in the login form.\<close>

definition anonymous :: "surroundings \<Rightarrow> http_request \<Rightarrow> call \<Rightarrow> server \<Rightarrow> bool" where
  "anonymous sr r c sv \<longleftrightarrow>
     gw_token (sv_gateway sv) \<noteq> '''' \<and> \<not> checkToken (sr_env sr) (gw_token (sv_gateway sv)) r
     \<and> \<not> checkBearerToken (gw_token (sv_gateway sv)) r
     \<and> \<not> fst (consoleSessionValid (gw_token (sv_gateway sv)) (sr_now sr) r (gw_sessions (sv_gateway sv)))
     \<and> (case ValidateWorkerToken (sr_hash sr) (if parseBearerToken r = '''' then rq_WorkerToken r else parseBearerToken r)
            (sv_store sv) of Inl _ \<Rightarrow> True | Inr _ \<Rightarrow> False)
     \<and> (case c of ConsoleLogin (Some form) \<Rightarrow> presented form \<noteq> gw_token (sv_gateway sv) | _ \<Rightarrow> True)"

text \<open>The calls that are for everyone.\<close>

definition open_call :: "call \<Rightarrow> bool" where
  "open_call c = (case c of PairingStart _ \<Rightarrow> True | PairingPoll _ \<Rightarrow> True | ConsolePage _ \<Rightarrow> True
     | ConsoleLogin _ \<Rightarrow> True | ConsoleLogout \<Rightarrow> True | _ \<Rightarrow> False)"

definition refusal :: "answer \<Rightarrow> bool" where
  "refusal a \<longleftrightarrow> a \<in> {AConnect ConnUnauthorized, APoll (Inl 401), AEvents (Inl 401), AApi (ApiError 401 ''Unauthorized''),
     AWorkers (Inl 401), ARun (Inl (401, ''Unauthorized'')), AStream (Inl 401), ACancel 401,
     AConsole (Redirect ''/console?login=failed'')}"

lemma anonymousD:
  assumes "anonymous sr r c sv"
  shows "gw_token (sv_gateway sv) \<noteq> ''''" "\<not> checkToken (sr_env sr) (gw_token (sv_gateway sv)) r"
    and "\<not> checkBearerToken (gw_token (sv_gateway sv)) r"
    and "\<not> fst (consoleSessionValid (gw_token (sv_gateway sv)) (sr_now sr) r (gw_sessions (sv_gateway sv)))"
    and "connect_auth (sr_env sr) (sr_hash sr) r (sv_gateway sv) (sv_store sv) = Inl ()"
  using assms by (auto simp: anonymous_def connect_auth_def Let_def split: sum.splits if_splits)

text \<open>A session that is looked up may turn out to have expired; none is made.\<close>

definition only_less :: "sessions \<Rightarrow> sessions \<Rightarrow> bool" where
  "only_less ss ss' \<longleftrightarrow> (\<forall>sid. ss' sid = ss sid \<or> ss' sid = None)"

lemma session_check_less: "only_less ss (snd (consoleSessionValid tok now r ss))"
  by (auto simp: only_less_def consoleSessionValid_def split: option.split)

lemma only_less_refl [simp]: "only_less ss ss"
  by (simp add: only_less_def)

lemma admin_refused:
  assumes "anonymous sr r c sv"
  shows "with_admin (gw_token (sv_gateway sv)) (sr_now sr) r (gw_sessions (sv_gateway sv)) k cs
    = (ApiError 401 ''Unauthorized'', cs, snd (consoleSessionValid (gw_token (sv_gateway sv)) (sr_now sr) r (gw_sessions (sv_gateway sv))))"
proof -
  have "parseBearerToken r \<noteq> gw_token (sv_gateway sv)"
    using anonymousD(1,2) [OF assms] by (auto simp: checkToken_def)
  then show ?thesis
    using anonymousD(1,4) [OF assms] by (simp add: with_admin_def requireAdmin_def case_prod_unfold Let_def)
qed

lemmas admin_handlers = handleAdminListPairingRequests_def handleAdminApprovePairingRequest_def
  handleAdminApprovePairingRequestByCode_def handleAdminRejectPairingRequest_def handleAdminListWorkers_def
  handleAdminDeleteWorker_def handleAdminRotateWorkerToken_def

lemma pairing_keeps_records:
  "cs_workers (snd (handleWorkerPairingStart h rand uuid bytes now now' body cs)) = cs_workers cs"
  "cs_index (snd (handleWorkerPairingStart h rand uuid bytes now now' body cs)) = cs_index cs"
  "cs_workers (snd (handleWorkerPairingStatus h now rid r cs)) = cs_workers cs"
  "cs_index (snd (handleWorkerPairingStatus h now rid r cs)) = cs_index cs"
  by (auto simp: handleWorkerPairingStart_def handleWorkerPairingStatus_def CreatePairingRequest_def PollPairingRequest_def
      write_pairing_def next_fault_def Let_def split: option.splits list.splits sum.splits prod.splits json_file.splits store_err.splits if_splits)

lemma refusals [simp]:
  "refusal (AConnect ConnUnauthorized)" "refusal (APoll (Inl 401))" "refusal (AEvents (Inl 401))"
  "refusal (AApi (ApiError 401 ''Unauthorized''))" "refusal (AWorkers (Inl 401))" "refusal (ARun (Inl (401, ''Unauthorized'')))"
  "refusal (AStream (Inl 401))" "refusal (ACancel 401)" "refusal (AConsole (Redirect ''/console?login=failed''))"
  by (simp_all add: refusal_def)


lemma console_refused:
  assumes "anonymous sr r c sv"
  shows "handleConsoleCreateRun r form (sr_now sr) (sv_gateway sv)
      = (Redirect ''/console?login=failed'', (sv_gateway sv)\<lparr>gw_sessions := snd (consoleSessionValid (gw_token (sv_gateway sv)) (sr_now sr) r (gw_sessions (sv_gateway sv)))\<rparr>)"
    and "handleConsoleRunDetail rfc indent (sr_now sr) r rid (sv_gateway sv)
      = (Redirect ''/console?login=failed'', (sv_gateway sv)\<lparr>gw_sessions := snd (consoleSessionValid (gw_token (sv_gateway sv)) (sr_now sr) r (gw_sessions (sv_gateway sv)))\<rparr>)"
  using anonymousD [OF assms]
  by (simp_all add: handleConsoleCreateRun_def handleConsoleRunDetail_def consoleAuthEnabled_def case_prod_unfold Let_def)

lemma login_refused:
  "presented form \<noteq> tok \<Longrightarrow> snd (handleConsoleLogin e tok rand now (Some form) ss) = ss"
  by (auto simp: handleConsoleLogin_def presented_def Let_def split: prod.splits)

lemma logout_less: "only_less ss (handleConsoleLogout r ss)"
  by (auto simp: only_less_def handleConsoleLogout_def clearConsoleSession_def split: option.split)

definition harmless :: "call \<Rightarrow> answer \<Rightarrow> server \<Rightarrow> server \<Rightarrow> bool" where
  "harmless c a sv sv' \<longleftrightarrow>
     (sv_gateway sv')\<lparr>gw_sessions := gw_sessions (sv_gateway sv)\<rparr> = sv_gateway sv
     \<and> only_less (gw_sessions (sv_gateway sv)) (gw_sessions (sv_gateway sv'))
     \<and> cs_workers (sv_store sv') = cs_workers (sv_store sv) \<and> cs_index (sv_store sv') = cs_index (sv_store sv)
     \<and> (\<not> open_call c \<longrightarrow> refusal a \<and> sv_store sv' = sv_store sv)"

lemma harmless_session:
  "only_less (gw_sessions (sv_gateway sv)) ss \<Longrightarrow> open_call c \<or> refusal a
    \<Longrightarrow> harmless c a sv (sv\<lparr>sv_gateway := (sv_gateway sv)\<lparr>gw_sessions := ss\<rparr>\<rparr>)"
  by (auto simp: harmless_def)

text \<open>C4: A request without credentials does no harm. On a gateway with a token, a request that presents neither it
  nor a valid session nor a worker's token is refused with 401, or sent to the login, by every route that is not
  meant for everyone; whatever the route, no run, queue, stream, worker connection or sequence number of the
  gateway changes, no session is made, and no worker record and no entry of the token index is touched. What such a
  request can write is the list of pairing requests.\<close>

theorem anonymous_requests_harmless:
  assumes "anonymous sr r c sv" and "serve sr r c sv = (a, sv')"
  shows "(sv_gateway sv')\<lparr>gw_sessions := gw_sessions (sv_gateway sv)\<rparr> = sv_gateway sv
     \<and> only_less (gw_sessions (sv_gateway sv)) (gw_sessions (sv_gateway sv'))
     \<and> cs_workers (sv_store sv') = cs_workers (sv_store sv) \<and> cs_index (sv_store sv') = cs_index (sv_store sv)
     \<and> (\<not> open_call c \<longrightarrow> refusal a \<and> sv_store sv' = sv_store sv)"
proof -
  note no = anonymousD [OF assms(1)]
  note refused = admin_refused [OF assms(1)] console_refused [OF assms(1)]
  have less: "only_less (gw_sessions (sv_gateway sv)) (snd (consoleSessionValid (gw_token (sv_gateway sv)) (sr_now sr) r (gw_sessions (sv_gateway sv))))"
    by (rule session_check_less)
  have "harmless c a sv sv'"
  proof (cases c)
    case (WorkerConnect conn hello)
    with assms(2) no(5) show ?thesis by (auto simp: on_gateway_def handleWorkerConnect_def harmless_def)
  next
    case (WorkerPoll body)
    with assms(2) no(3) show ?thesis by (auto simp: on_gateway_def handleWorkerPoll_def harmless_def)
  next
    case (WorkerEvents body)
    with assms(2) no(3) show ?thesis by (auto simp: on_gateway_def handleWorkerEvents_def harmless_def)
  next
    case (PairingStart body)
    with assms(2) show ?thesis by (auto simp: on_store_def harmless_def open_call_def pairing_keeps_records)
  next
    case (PairingPoll rid)
    with assms(2) show ?thesis by (auto simp: on_store_def harmless_def open_call_def pairing_keeps_records)
  next
    case (ConsolePage q)
    with assms(2) less show ?thesis
      by (auto simp: on_gateway_def handleConsole_def case_prod_unfold Let_def harmless_def open_call_def)
  next
    case (ConsoleLogin form)
    then have "snd (handleConsoleLogin (sr_env sr) (gw_token (sv_gateway sv)) (sr_rand sr) (sr_now sr) form (gw_sessions (sv_gateway sv)))
        = gw_sessions (sv_gateway sv)"
      using assms(1) login_refused by (cases form) (auto simp: anonymous_def handleConsoleLogin_def)
    with ConsoleLogin assms(2) show ?thesis by (auto simp: case_prod_unfold Let_def harmless_def open_call_def)
  next
    case ConsoleLogout
    then show ?thesis
      using assms(2) logout_less by (auto simp: harmless_def open_call_def)
  qed (use assms(2) no less refused in \<open>auto simp: on_gateway_def as_admin_def admin_handlers handleListWorkers_def
      handleCreateRun_def handleRunEvents_def handleCancelRun_def harmless_def\<close>)
  then show ?thesis by (simp add: harmless_def)
qed


definition demo_surroundings :: surroundings where
  "demo_surroundings = \<lparr>sr_env = no_env, sr_hash = demo_hash, sr_rand = Some ''r'', sr_uuid = ''u'', sr_bytes = [], sr_now = 0,
     sr_marshals = (\<lambda>_. True), sr_dirOk = True, sr_flushes = True, sr_rfc = (\<lambda>_. ''''), sr_indent = (\<lambda>_. None)\<rparr>"

lemma anonymous_requests_harmless_witness:
  "refusal (fst (serve demo_surroundings (demo_visitor\<lparr>rq_Cookie := None\<rparr>) (CancelRun ''run-1700000000000000000'')
     \<lparr>sv_gateway = demo_console ''w'', sv_store = demo_store []\<rparr>))"
proof -
  let ?r = "demo_visitor\<lparr>rq_Cookie := None\<rparr>"
  have "\<not> checkToken no_env ''tok'' ?r" "\<not> checkBearerToken ''tok'' ?r" "parseBearerToken ?r = ''''" by code_simp+
  then have "anonymous demo_surroundings ?r (CancelRun ''run-1700000000000000000'') \<lparr>sv_gateway = demo_console ''w'', sv_store = demo_store []\<rparr>"
    by (simp add: anonymous_def demo_surroundings_def demo_console_def NewGatewayServer_def consoleSessionValid_def
        consoleAuthEnabled_def ValidateWorkerToken_def) (simp add: demo_visitor_def)
  from anonymous_requests_harmless [OF this surjective_pairing] show ?thesis by (simp add: open_call_def)
qed

subsection \<open>The access log\<close>

lemma sent_kept: "sw_sent w = Some c \<Longrightarrow> sw_sent (fold apply_write ops w) = Some c"
proof (induction ops arbitrary: w)
  case (Cons op ops)
  then show ?case by (cases op) (simp_all add: Let_def)
qed simp

lemma status_kept:
  "sw_status w \<noteq> 0 \<Longrightarrow> \<forall>op \<in> set ops. \<forall>code. op \<noteq> WriteHeader code \<Longrightarrow> sw_status (fold apply_write ops w) = sw_status w"
proof (induction ops arbitrary: w)
  case (Cons op ops)
  then show ?case by (cases op) (auto simp: Let_def)
qed simp

definition first_status :: "write_op \<Rightarrow> nat" where
  "first_status op = (case op of WriteHeader code \<Rightarrow> code | WriteBody _ \<Rightarrow> 200)"

text \<open>The access log records the status of every answer that sets one, at most once and before its body, and
  does not panic. A panic after the answer has begun is recorded as 500 although the client got the
  status the answer began with, and a handler that writes nothing, as after a web socket has
  taken over the connection, is recorded with the status 0.\<close>

theorem access_log_status:
  shows "if ops = [] then
       fst (fst (accessLogMiddleware ops panics addr)) = (if panics then 500 else 0)
       \<and> snd (accessLogMiddleware ops panics addr) = (if panics then Some 500 else None)
     else
       snd (accessLogMiddleware ops panics addr) = Some (first_status (hd ops))
       \<and> (if panics then fst (fst (accessLogMiddleware ops panics addr)) = 500
          else first_status (hd ops) = 0 \<or> (\<exists>op \<in> set (tl ops). \<exists>code. op = WriteHeader code)
               \<or> fst (fst (accessLogMiddleware ops panics addr)) = first_status (hd ops))"
proof (cases ops)
  case Nil
  then show ?thesis by (simp add: accessLogMiddleware_def recoverMiddleware_def Let_def)
next
  case (Cons op rest)
  let ?w = "apply_write op \<lparr>sw_status = 0, sw_bytes = 0, sw_sent = None\<rparr>"
  have first: "sw_status ?w = first_status op" "sw_sent ?w = Some (first_status op)"
    by (cases op; simp add: first_status_def)+
  show ?thesis
    using sent_kept [OF first(2), of rest] status_kept [of ?w rest] first Cons
    by (auto simp: accessLogMiddleware_def recoverMiddleware_def Let_def)
qed

end
