(* ===== verification/WorkerLink.thy ===== *)
theory WorkerLink
  imports WorkerConn GatewayProps WorkerProps
begin

text \<open>
  What a worker writes to its web socket. Three kinds of goroutines share the connection, the
  counter of sequence numbers and one lock for writing: the main loop
  (\<^verbatim>\<open>connectAndServe\<close>), one \<^verbatim>\<open>heartbeatLoop\<close> for each connection, and
  the goroutines of runs, which outlive the connection they were started on. An envelope takes its
  number and is written in two steps (\<^verbatim>\<open>nextSeq\<close>, \<^verbatim>\<open>writeEnvelope\<close>);
  anything may happen between them. \<open>WorkerSystem\<close> has the same
  events with the two steps taken together; here the runs are left abstract. The last sections put the
  gateway at the other end.

  The marshalling of a message (\<^verbatim>\<open>proto.Marshal\<close>, \<^verbatim>\<open>proto.Unmarshal\<close>)
  and the web socket are libraries: \<open>marshal\<close> and \<open>unmarshal\<close> are parameters, and a
  message read is its type with its bytes, or an error.
\<close>

subsection \<open>Messages of the web socket\<close>

type_synonym ws_read = "string + int \<times> string"

definition BinaryMessage :: int where "BinaryMessage = 2"

text \<open>The same function on both sides.\<close>

definition readWorkerEnvelope :: "(string \<Rightarrow> string + Envelope) \<Rightarrow> ws_read \<Rightarrow> string + Envelope" where
  "readWorkerEnvelope unmarshal r =
     (case r of Inl err \<Rightarrow> Inl err
      | Inr (msgType, data) \<Rightarrow>
          if msgType \<noteq> BinaryMessage then Inl (''unexpected websocket message type: '' @ dec_of_int msgType)
          else unmarshal data)"

definition readEnvelope :: "(string \<Rightarrow> string + Envelope) \<Rightarrow> ws_read \<Rightarrow> string + Envelope" where
  "readEnvelope unmarshal r =
     (case r of Inl err \<Rightarrow> Inl err
      | Inr (msgType, data) \<Rightarrow>
          if msgType \<noteq> BinaryMessage then Inl (''unexpected websocket message type: '' @ dec_of_int msgType)
          else unmarshal data)"

text \<open>\<^verbatim>\<open>CheckOrigin\<close> of the upgrade: no origin, or one with the host that was asked.
  \<open>parseURL\<close> is \<^verbatim>\<open>url.Parse\<close>.\<close>

definition CheckOrigin :: "(string \<Rightarrow> string + url) \<Rightarrow> string \<Rightarrow> string \<Rightarrow> bool" where
  "CheckOrigin parseURL origin host =
     (if origin = '''' then True
      else (case parseURL origin of Inl _ \<Rightarrow> False | Inr u \<Rightarrow> u_Host u = host))"

text \<open>The first message of a connection as \<open>handleWorkerConnect\<close> gets it: there is none where the
  upgrade is refused or the read fails.\<close>

definition first_message ::
    "(string \<Rightarrow> string + url) \<Rightarrow> (string \<Rightarrow> string + Envelope) \<Rightarrow> string \<Rightarrow> string \<Rightarrow> ws_read \<Rightarrow> Envelope option" where
  "first_message parseURL unmarshal origin host r =
     (if \<not> CheckOrigin parseURL origin host then None
      else (case readWorkerEnvelope unmarshal r of Inl _ \<Rightarrow> None | Inr env \<Rightarrow> Some env))"

subsection \<open>The goroutines\<close>

datatype writer = MainLoop | HeartbeatOf nat | RunGoroutine nat

text \<open>
  The main loop is about to dial, has dialled connection \<open>k\<close>, has made it the
  worker's, has a number for its greeting, or reads from it.
\<close>

datatype main_pc = Dialling | Dialled nat | Installed nat | Greeting nat | Serving nat

text \<open>
  Connections are counted. \<open>lk_up\<close> tells whether a write to one succeeds, \<open>lk_held\<close> the
  envelope a goroutine has numbered and not yet written, \<open>lk_wire\<close> everything that was written,
  with the connection and the goroutine. \<open>lk_panic\<close> is set by a write through a nil pointer.
\<close>

record link =
  lk_seq :: "64 word"
  lk_dials :: nat
  lk_conn :: "nat option"
  lk_up :: "nat \<Rightarrow> bool"
  lk_main :: main_pc
  lk_beats :: "nat \<Rightarrow> bool"
  lk_goroutines :: nat
  lk_held :: "writer \<Rightarrow> Envelope option"
  lk_wire :: "(nat \<times> writer \<times> Envelope) list"
  lk_panic :: bool

definition start_link :: link where
  "start_link = \<lparr>lk_seq = 0, lk_dials = 0, lk_conn = None, lk_up = (\<lambda>_. False), lk_main = Dialling,
     lk_beats = (\<lambda>_. False), lk_goroutines = 0, lk_held = (\<lambda>_. None), lk_wire = [], lk_panic = False\<rparr>"

text \<open>\<^verbatim>\<open>nextSeq\<close> in the envelope that is being built.\<close>

definition take_number :: "writer \<Rightarrow> (64 word \<Rightarrow> Envelope) \<Rightarrow> link \<Rightarrow> link" where
  "take_number wr mk lk =
     (let seq = lk_seq lk + 1 in lk\<lparr>lk_seq := seq, lk_held := (lk_held lk)(wr := Some (mk seq))\<rparr>)"

text \<open>\<^verbatim>\<open>writeEnvelope\<close> on the connection the worker has now; the result is whether it
  returned without an error.\<close>

definition writeEnvelope :: "(Envelope \<Rightarrow> string option) \<Rightarrow> writer \<Rightarrow> Envelope \<Rightarrow> link \<Rightarrow> bool \<times> link" where
  "writeEnvelope marshal wr env lk =
     (case marshal env of None \<Rightarrow> (False, lk)
      | Some data \<Rightarrow>
          (case lk_conn lk of None \<Rightarrow> (False, lk\<lparr>lk_panic := True\<rparr>)
           | Some c \<Rightarrow>
               if lk_up lk c then (True, lk\<lparr>lk_wire := lk_wire lk @ [(c, wr, env)]\<rparr>) else (False, lk)))"

text \<open>The end of \<^verbatim>\<open>connectAndServe\<close>: its deferred calls close the connection.\<close>

definition leave_connection :: "nat \<Rightarrow> link \<Rightarrow> link" where
  "leave_connection k lk = lk\<lparr>lk_up := (lk_up lk)(k := False), lk_main := Dialling\<rparr>"

definition written :: "(Envelope \<Rightarrow> string option) \<Rightarrow> writer \<Rightarrow> link \<Rightarrow> link option" where
  "written marshal wr lk =
     (case lk_held lk wr of None \<Rightarrow> None
      | Some env \<Rightarrow>
          (let (ok, lk) = writeEnvelope marshal wr env lk; lk = lk\<lparr>lk_held := (lk_held lk)(wr := None)\<rparr>
           in case (wr, lk_main lk) of
                (MainLoop, Greeting k) \<Rightarrow>
                  Some (if ok then lk\<lparr>lk_main := Serving k, lk_beats := (lk_beats lk)(k := True)\<rparr>
                        else leave_connection k lk)
              | _ \<Rightarrow> Some lk))"

datatype link_act =
    Dial bool
  | Install
  | NumberHello
  | NumberBeat nat "64 word"
  | NumberEvent nat string RunEvent
  | Write writer
  | Receive ws_read
  | Go
  | Lose nat
  | BeatEnd nat

text \<open>
  A message that is read starts a goroutine where it is a request or a cancellation, and ends the
  connection where it is an error. A goroutine of a run may start another one, which follows an output.
  The other end or the network may lose a connection at any time; a heartbeat loop whose
  context is cancelled may still choose the ticker, so it ends when it likes.
\<close>

fun link_step ::
    "(Envelope \<Rightarrow> string option) \<Rightarrow> (string \<Rightarrow> string + Envelope) \<Rightarrow> Config \<Rightarrow> link_act \<Rightarrow> link \<Rightarrow> link option" where
  "link_step marshal unmarshal cfg (Dial ok) lk =
     (if lk_main lk \<noteq> Dialling then None
      else if \<not> ok then Some lk
      else Some (lk\<lparr>lk_main := Dialled (lk_dials lk), lk_up := (lk_up lk)(lk_dials lk := True), lk_dials := lk_dials lk + 1\<rparr>))"
| "link_step marshal unmarshal cfg Install lk =
     (case lk_main lk of Dialled k \<Rightarrow> Some (lk\<lparr>lk_conn := Some k, lk_main := Installed k\<rparr>) | _ \<Rightarrow> None)"
| "link_step marshal unmarshal cfg NumberHello lk =
     (case lk_main lk of
        Installed k \<Rightarrow> Some ((take_number MainLoop (hello_envelope cfg) lk)\<lparr>lk_main := Greeting k\<rparr>)
      | _ \<Rightarrow> None)"
| "link_step marshal unmarshal cfg (NumberBeat k nowMillis) lk =
     (if lk_beats lk k \<and> lk_held lk (HeartbeatOf k) = None
      then Some (take_number (HeartbeatOf k) (\<lambda>seq. heartbeat_envelope cfg seq nowMillis) lk) else None)"
| "link_step marshal unmarshal cfg (NumberEvent g streamID evt) lk =
     (if g < lk_goroutines lk \<and> lk_held lk (RunGoroutine g) = None
      then Some (take_number (RunGoroutine g) (\<lambda>seq. run_envelope cfg streamID seq evt) lk) else None)"
| "link_step marshal unmarshal cfg (Write wr) lk = written marshal wr lk"
| "link_step marshal unmarshal cfg (Receive r) lk =
     (case lk_main lk of
        Serving k \<Rightarrow>
          (case readEnvelope unmarshal r of Inl _ \<Rightarrow> Some (leave_connection k lk)
           | Inr env \<Rightarrow>
               Some (if on_envelope 0 env = None then lk else lk\<lparr>lk_goroutines := lk_goroutines lk + 1\<rparr>))
      | _ \<Rightarrow> None)"
| "link_step marshal unmarshal cfg Go lk =
     (if 0 < lk_goroutines lk then Some (lk\<lparr>lk_goroutines := lk_goroutines lk + 1\<rparr>) else None)"
| "link_step marshal unmarshal cfg (Lose k) lk = Some (lk\<lparr>lk_up := (lk_up lk)(k := False)\<rparr>)"
| "link_step marshal unmarshal cfg (BeatEnd k) lk =
     (if lk_held lk (HeartbeatOf k) = None then Some (lk\<lparr>lk_beats := (lk_beats lk)(k := False)\<rparr>) else None)"

fun link_run ::
    "(Envelope \<Rightarrow> string option) \<Rightarrow> (string \<Rightarrow> string + Envelope) \<Rightarrow> Config \<Rightarrow> link_act list \<Rightarrow> link \<Rightarrow> link option" where
  "link_run marshal unmarshal cfg [] lk = Some lk"
| "link_run marshal unmarshal cfg (a # as) lk =
     (case link_step marshal unmarshal cfg a lk of None \<Rightarrow> None | Some lk' \<Rightarrow> link_run marshal unmarshal cfg as lk')"

text \<open>What was written on one connection, and by one goroutine.\<close>

definition on_conn :: "nat \<Rightarrow> link \<Rightarrow> Envelope list" where
  "on_conn c lk = map (snd \<circ> snd) (filter (\<lambda>x. fst x = c) (lk_wire lk))"

definition by_writer :: "writer \<Rightarrow> link \<Rightarrow> Envelope list" where
  "by_writer wr lk = map (snd \<circ> snd) (filter (\<lambda>x. fst (snd x) = wr) (lk_wire lk))"

subsection \<open>Invariants\<close>

locale link_invariant =
  fixes marshal :: "Envelope \<Rightarrow> string option"
    and unmarshal :: "string \<Rightarrow> string + Envelope"
    and cfg :: Config
    and I :: "link \<Rightarrow> bool"
  assumes init: "I start_link"
    and step: "\<lbrakk>I lk; link_step marshal unmarshal cfg a lk = Some lk'\<rbrakk> \<Longrightarrow> I lk'"
begin

lemma run_from: "\<lbrakk>link_run marshal unmarshal cfg acts lk = Some lk'; I lk\<rbrakk> \<Longrightarrow> I lk'"
  by (induction acts arbitrary: lk) (auto split: option.splits intro: step)

lemma run: "link_run marshal unmarshal cfg acts start_link = Some lk \<Longrightarrow> I lk"
  by (rule run_from [OF _ init])

end

text \<open>Where an envelope is held, written or lost.\<close>

inductive link_effect :: "(Envelope \<Rightarrow> string option) \<Rightarrow> link \<Rightarrow> link \<Rightarrow> bool" for marshal lk where
  keep: "\<lbrakk>lk_seq lk' = lk_seq lk; lk_held lk' = lk_held lk; lk_wire lk' = lk_wire lk\<rbrakk> \<Longrightarrow> link_effect marshal lk lk'"
| number: "\<lbrakk>lk_seq lk' = lk_seq lk + 1; lk_held lk' = (lk_held lk)(wr \<mapsto> e); env_Seq e = lk_seq lk + 1; lk_wire lk' = lk_wire lk\<rbrakk>
    \<Longrightarrow> link_effect marshal lk lk'"
| lost: "\<lbrakk>lk_seq lk' = lk_seq lk; lk_held lk wr = Some e; lk_held lk' = (lk_held lk)(wr := None); lk_wire lk' = lk_wire lk\<rbrakk>
    \<Longrightarrow> link_effect marshal lk lk'"
| sent: "\<lbrakk>lk_seq lk' = lk_seq lk; lk_held lk wr = Some e; lk_held lk' = (lk_held lk)(wr := None);
     lk_conn lk = Some c; lk_up lk c; marshal e \<noteq> None; lk_wire lk' = lk_wire lk @ [(c, wr, e)]\<rbrakk>
    \<Longrightarrow> link_effect marshal lk lk'"

lemma written_cases:
  assumes "written marshal wr lk = Some lk'"
  obtains e lk1 ok where "lk_held lk wr = Some e" "writeEnvelope marshal wr e lk = (ok, lk1)"
    "lk' = (case (wr, lk_main lk) of
        (MainLoop, Greeting k) \<Rightarrow>
          if ok then lk1\<lparr>lk_held := (lk_held lk)(wr := None), lk_main := Serving k, lk_beats := (lk_beats lk)(k := True)\<rparr>
          else leave_connection k (lk1\<lparr>lk_held := (lk_held lk)(wr := None)\<rparr>)
      | _ \<Rightarrow> lk1\<lparr>lk_held := (lk_held lk)(wr := None)\<rparr>)"
proof -
  have same: "lk_main lk1 = lk_main lk \<and> lk_held lk1 = lk_held lk \<and> lk_beats lk1 = lk_beats lk"
    if "writeEnvelope marshal wr e lk = (ok, lk1)" for e ok lk1
    using that by (auto simp: writeEnvelope_def split: option.splits if_splits)
  from assms obtain e where e: "lk_held lk wr = Some e" by (auto simp: written_def split: option.splits)
  obtain ok lk1 where w: "writeEnvelope marshal wr e lk = (ok, lk1)" by fastforce
  show thesis
    by (rule that [OF e w])
      (use assms e w same [OF w] in \<open>auto simp: written_def Let_def split: writer.splits main_pc.splits\<close>)
qed

lemma writeEnvelope_result:
  "writeEnvelope marshal wr e lk = (ok, lk1) \<Longrightarrow>
     ok \<and> (\<exists>c. lk_conn lk = Some c \<and> lk_up lk c \<and> marshal e \<noteq> None \<and> lk1 = lk\<lparr>lk_wire := lk_wire lk @ [(c, wr, e)]\<rparr>)
   \<or> \<not> ok \<and> lk_wire lk1 = lk_wire lk \<and> lk_seq lk1 = lk_seq lk"
  by (auto simp: writeEnvelope_def split: option.split_asm if_split_asm)

lemma writeEnvelope_frame:
  "writeEnvelope marshal wr e lk = (ok, lk1) \<Longrightarrow>
     lk_conn lk1 = lk_conn lk \<and> lk_up lk1 = lk_up lk \<and> lk_dials lk1 = lk_dials lk \<and> lk_main lk1 = lk_main lk"
  by (auto simp: writeEnvelope_def split: option.split_asm if_split_asm)

lemma writeEnvelope_cases:
  assumes "writeEnvelope marshal wr e lk = (ok, lk1)"
  obtains c where "ok" "lk_conn lk = Some c" "lk_up lk c" "marshal e \<noteq> None"
      "lk1 = lk\<lparr>lk_wire := lk_wire lk @ [(c, wr, e)]\<rparr>"
    | "\<not> ok" "lk_wire lk1 = lk_wire lk" "lk_seq lk1 = lk_seq lk"
  using writeEnvelope_result [OF assms] by blast

lemma written_fields:
  assumes "written marshal wr lk = Some lk'"
  obtains e lk1 ok where "lk_held lk wr = Some e" "writeEnvelope marshal wr e lk = (ok, lk1)"
    "lk_seq lk' = lk_seq lk1" "lk_wire lk' = lk_wire lk1" "lk_held lk' = (lk_held lk)(wr := None)"
proof -
  from written_cases [OF assms] obtain e lk1 ok where w: "lk_held lk wr = Some e" "writeEnvelope marshal wr e lk = (ok, lk1)"
    "lk' = (case (wr, lk_main lk) of
        (MainLoop, Greeting k) \<Rightarrow>
          if ok then lk1\<lparr>lk_held := (lk_held lk)(wr := None), lk_main := Serving k, lk_beats := (lk_beats lk)(k := True)\<rparr>
          else leave_connection k (lk1\<lparr>lk_held := (lk_held lk)(wr := None)\<rparr>)
      | _ \<Rightarrow> lk1\<lparr>lk_held := (lk_held lk)(wr := None)\<rparr>)" .
  show thesis
    by (rule that [OF w(1,2)]; unfold w(3) leave_connection_def; cases wr; cases "lk_main lk"; simp)
qed

lemma write_effect: "written marshal wr lk = Some lk' \<Longrightarrow> link_effect marshal lk lk'"
  by (erule written_fields, erule writeEnvelope_cases) (auto intro: link_effect.sent link_effect.lost)

lemma number_effect: "env_Seq (mk (lk_seq lk + 1)) = lk_seq lk + 1 \<Longrightarrow> link_effect marshal lk (take_number wr mk lk)"
  by (rule link_effect.number [of _ _ wr "mk (lk_seq lk + 1)"]) (simp_all add: take_number_def Let_def)

lemma number_effect_main: "link_effect marshal lk lk' \<Longrightarrow> link_effect marshal lk (lk'\<lparr>lk_main := m\<rparr>)"
  by (induction rule: link_effect.induct)
    (auto intro: link_effect.keep link_effect.sent link_effect.lost link_effect.number)

lemma step_effect:
  assumes "link_step marshal unmarshal cfg a lk = Some lk'"
  shows "link_effect marshal lk lk'"
proof (cases a)
  case NumberHello
  with assms show ?thesis
    by (auto intro!: number_effect_main number_effect simp: hello_envelope_def split: main_pc.splits)
next
  case (NumberBeat k ms)
  with assms show ?thesis by (auto intro!: number_effect simp: heartbeat_envelope_def split: if_splits)
next
  case (NumberEvent g s evt)
  with assms show ?thesis by (auto intro!: number_effect simp: run_envelope_def split: if_splits)
next
  case (Write wr)
  with assms show ?thesis by (simp add: write_effect)
qed (use assms in \<open>auto intro!: link_effect.keep simp: leave_connection_def split: if_splits main_pc.splits sum.splits\<close>)

subsection \<open>Numbers\<close>
subsection \<open>Numbers\<close>

definition held_list :: "writer \<Rightarrow> link \<Rightarrow> Envelope list" where
  "held_list wr lk = (case lk_held lk wr of None \<Rightarrow> [] | Some e \<Rightarrow> [e])"

definition numbers_of :: "writer \<Rightarrow> link \<Rightarrow> 64 word list" where
  "numbers_of wr lk = map env_Seq (by_writer wr lk @ held_list wr lk)"

definition wire_numbers :: "link \<Rightarrow> 64 word list" where
  "wire_numbers lk = map (env_Seq \<circ> snd \<circ> snd) (lk_wire lk)"

definition numbers_ok :: "link \<Rightarrow> bool" where
  "numbers_ok lk \<longleftrightarrow>
     distinct (wire_numbers lk)
   \<and> (\<forall>wr. sorted_wrt (<) (numbers_of wr lk) \<and> (\<forall>x \<in> set (numbers_of wr lk). x \<le> lk_seq lk))
   \<and> (\<forall>wr e. lk_held lk wr = Some e \<longrightarrow> env_Seq e \<notin> set (wire_numbers lk))
   \<and> (\<forall>wr wr' e e'. lk_held lk wr = Some e \<and> lk_held lk wr' = Some e' \<and> wr \<noteq> wr' \<longrightarrow> env_Seq e \<noteq> env_Seq e')"

lemma wire_le_seq: "numbers_ok lk \<Longrightarrow> x \<in> set (wire_numbers lk) \<Longrightarrow> x \<le> lk_seq lk"
proof -
  assume ok: "numbers_ok lk" and "x \<in> set (wire_numbers lk)"
  then obtain c wr e where "(c, wr, e) \<in> set (lk_wire lk)" "x = env_Seq e" by (auto simp: wire_numbers_def)
  then have "x \<in> set (numbers_of wr lk)" by (force simp: numbers_of_def by_writer_def)
  with ok show ?thesis by (simp add: numbers_ok_def)
qed

lemma held_le_seq: "numbers_ok lk \<Longrightarrow> lk_held lk wr = Some e \<Longrightarrow> env_Seq e \<le> lk_seq lk"
proof -
  assume ok: "numbers_ok lk" and "lk_held lk wr = Some e"
  then have "env_Seq e \<in> set (numbers_of wr lk)" by (simp add: numbers_of_def held_list_def)
  with ok show ?thesis by (simp add: numbers_ok_def)
qed

lemma numbers_prefix:
  assumes "numbers_ok lk"
  shows "sorted_wrt (<) (map env_Seq (by_writer wr lk))" "\<forall>x \<in> set (map env_Seq (by_writer wr lk)). x \<le> lk_seq lk"
proof -
  from assms have "sorted_wrt (<) (numbers_of wr lk)" "\<forall>x \<in> set (numbers_of wr lk). x \<le> lk_seq lk"
    by (simp_all add: numbers_ok_def)
  then show "sorted_wrt (<) (map env_Seq (by_writer wr lk))" "\<forall>x \<in> set (map env_Seq (by_writer wr lk)). x \<le> lk_seq lk"
    by (simp_all add: numbers_of_def sorted_wrt_append)
qed

lemma effect_numbers:
  assumes "link_effect marshal lk lk'" "numbers_ok lk" "lk_seq lk < lk_seq lk + 1"
  shows "numbers_ok lk'"
  using assms(1)
proof cases
  case keep
  then show ?thesis
    using assms(2) by (simp add: numbers_ok_def wire_numbers_def numbers_of_def by_writer_def held_list_def)
next
  case (number wr e)
  have w: "wire_numbers lk' = wire_numbers lk" "by_writer v lk' = by_writer v lk" for v
    by (simp_all add: wire_numbers_def by_writer_def number)
  have n: "numbers_of v lk' = (if v = wr then map env_Seq (by_writer wr lk) @ [lk_seq lk + 1] else numbers_of v lk)" for v
    by (simp add: numbers_of_def w held_list_def number)
  have below: "x < lk_seq lk + 1" if "x \<le> lk_seq lk" for x using that assms(3) by order
  note old = numbers_prefix [OF assms(2), of wr]
  have "sorted_wrt (<) (numbers_of v lk') \<and> (\<forall>x \<in> set (numbers_of v lk'). x \<le> lk_seq lk')" for v
  proof (cases "v = wr")
    case True
    with old below show ?thesis by (auto simp: n sorted_wrt_append number(1) intro: less_imp_le)
  next
    case False
    then have v: "numbers_of v lk' = numbers_of v lk" by (simp add: n)
    have "x \<le> lk_seq lk'" if "x \<in> set (numbers_of v lk)" for x
      using assms(2) that below [of x] by (auto simp: numbers_ok_def number(1) intro: less_imp_le)
    with assms(2) show ?thesis by (simp add: v numbers_ok_def)
  qed
  moreover have "lk_seq lk + 1 \<notin> set (wire_numbers lk)"
    using wire_le_seq [OF assms(2), of "lk_seq lk + 1"] assms(3) by (auto simp: not_le [symmetric])
  moreover have "env_Seq e' \<noteq> lk_seq lk + 1" if "lk_held lk v = Some e'" for v e'
    using below [OF held_le_seq [OF assms(2) that]] by auto
  moreover have "distinct (wire_numbers lk)" "\<And>v e'. lk_held lk v = Some e' \<Longrightarrow> env_Seq e' \<notin> set (wire_numbers lk)"
    "\<And>v v' e e'. \<lbrakk>lk_held lk v = Some e; lk_held lk v' = Some e'; v \<noteq> v'\<rbrakk> \<Longrightarrow> env_Seq e \<noteq> env_Seq e'"
    using assms(2) by (auto simp: numbers_ok_def)
  ultimately show ?thesis
    by (simp add: numbers_ok_def w number(2,3)) metis
next
  case (lost wr e)
  have "numbers_of v lk' = (if v = wr then map env_Seq (by_writer wr lk) else numbers_of v lk)" for v
    by (simp add: numbers_of_def by_writer_def held_list_def lost)
  with numbers_prefix [OF assms(2), of wr] show ?thesis
    using assms(2) by (auto simp: numbers_ok_def lost wire_numbers_def)
next
  case (sent wr e c)
  have "numbers_of v lk' = numbers_of v lk" for v
    using sent(2) by (auto simp: numbers_of_def by_writer_def held_list_def sent(3,7))
  moreover have "wire_numbers lk' = wire_numbers lk @ [env_Seq e]" by (simp add: wire_numbers_def sent)
  ultimately show ?thesis
    using assms(2) sent(2) by (auto simp: numbers_ok_def sent(1,3))
qed

lemma effect_seq: "link_effect marshal lk lk' \<Longrightarrow> unat (lk_seq lk') \<le> Suc (unat (lk_seq lk))"
  by (induction rule: link_effect.induct) (auto simp: unat_word_ariths)

lemma next_number: "unat x + 1 < 2 ^ 64 \<Longrightarrow> x < x + (1 :: 64 word)"
  by (simp add: word_less_nat_alt unat_word_ariths)

lemma run_numbers:
  assumes "link_run marshal unmarshal cfg acts lk = Some lk'" "numbers_ok lk" "unat (lk_seq lk) + length acts < 2 ^ 64"
  shows "numbers_ok lk'"
  using assms
proof (induction acts arbitrary: lk)
  case (Cons a acts)
  then obtain lk1 where s: "link_step marshal unmarshal cfg a lk = Some lk1" "link_run marshal unmarshal cfg acts lk1 = Some lk'"
    by (auto split: option.splits)
  note eff = step_effect [OF s(1)]
  have "numbers_ok lk1"
    by (rule effect_numbers [OF eff Cons.prems(2)]) (rule next_number, use Cons.prems(3) in simp)
  with Cons.IH [OF s(2)] effect_seq [OF eff] Cons.prems(3) show ?case by simp
qed simp

subsection \<open>The state of the link\<close>

definition link_wf :: "Config \<Rightarrow> link \<Rightarrow> bool" where
  "link_wf cfg lk \<longleftrightarrow>
     \<not> lk_panic lk
   \<and> (lk_conn lk = None \<longrightarrow> (lk_main lk = Dialling \<or> (\<exists>k. lk_main lk = Dialled k)) \<and> lk_goroutines lk = 0 \<and> (\<forall>k. \<not> lk_beats lk k))
   \<and> (\<forall>e. lk_held lk MainLoop = Some e \<longrightarrow> (\<exists>k s. lk_main lk = Greeting k \<and> e = hello_envelope cfg s))
   \<and> (\<forall>g e. lk_held lk (RunGoroutine g) = Some e \<longrightarrow> g < lk_goroutines lk)
   \<and> (\<forall>k e. lk_held lk (HeartbeatOf k) = Some e \<longrightarrow> lk_beats lk k)
   \<and> (\<forall>k. lk_main lk \<in> {Installed k, Greeting k, Serving k} \<longrightarrow> lk_conn lk = Some k)
   \<and> (\<forall>k. lk_main lk = Dialled k \<longrightarrow> lk_conn lk \<noteq> Some k \<and> k < lk_dials lk)
   \<and> (\<forall>c. lk_conn lk = Some c \<longrightarrow> c < lk_dials lk)
   \<and> (lk_main lk \<in> {Dialled 0, Installed 0, Greeting 0} \<longrightarrow> lk_goroutines lk = 0 \<and> (\<forall>k. \<not> lk_beats lk k))"

lemma wf_held_conn: "link_wf cfg lk \<Longrightarrow> lk_held lk wr = Some e \<Longrightarrow> lk_conn lk \<noteq> None"
  by (cases wr) (auto simp: link_wf_def)

lemma written_wf:
  assumes "link_wf cfg lk" "written marshal wr lk = Some lk'"
  shows "link_wf cfg lk'"
  using assms(2)
proof (rule written_cases)
  fix e lk1 ok
  assume e: "lk_held lk wr = Some e" and w: "writeEnvelope marshal wr e lk = (ok, lk1)"
    and lk': "lk' = (case (wr, lk_main lk) of
        (MainLoop, Greeting k) \<Rightarrow>
          if ok then lk1\<lparr>lk_held := (lk_held lk)(wr := None), lk_main := Serving k, lk_beats := (lk_beats lk)(k := True)\<rparr>
          else leave_connection k (lk1\<lparr>lk_held := (lk_held lk)(wr := None)\<rparr>)
      | _ \<Rightarrow> lk1\<lparr>lk_held := (lk_held lk)(wr := None)\<rparr>)"
  obtain c where c: "lk_conn lk = Some c" using wf_held_conn [OF assms(1) e] by auto
  then have "lk1 = lk\<lparr>lk_wire := lk_wire lk1\<rparr>"
    using w by (auto simp: writeEnvelope_def split: option.split_asm if_split_asm)
  then obtain ws where ws: "lk1 = lk\<lparr>lk_wire := ws\<rparr>" by blast
  show ?thesis
  proof (cases wr)
    case MainLoop
    with assms(1) e obtain k where "lk_main lk = Greeting k" by (auto simp: link_wf_def)
    with assms(1) c MainLoop show ?thesis by (simp add: lk' ws link_wf_def leave_connection_def)
  qed (use assms(1) in \<open>simp_all add: lk' ws link_wf_def\<close>)
qed

interpretation well_formed: link_invariant marshal unmarshal cfg "link_wf cfg" for marshal unmarshal cfg
proof
  show "link_wf cfg start_link" by (simp add: link_wf_def start_link_def)
next
  fix lk a lk'
  assume w: "link_wf cfg lk" and s: "link_step marshal unmarshal cfg a lk = Some lk'"
  show "link_wf cfg lk'"
  proof (cases a)
    case (Write wr)
    with w s show ?thesis by (simp add: written_wf)
  next
    case Install
    with s obtain k where k: "lk_main lk = Dialled k" "lk' = lk\<lparr>lk_conn := Some k, lk_main := Installed k\<rparr>"
      by (auto split: main_pc.split_asm)
    with w show ?thesis by (simp add: link_wf_def)
  next
    case NumberHello
    with s obtain k where k: "lk_main lk = Installed k" "lk' = (take_number MainLoop (hello_envelope cfg) lk)\<lparr>lk_main := Greeting k\<rparr>"
      by (auto split: main_pc.split_asm)
    with w show ?thesis by (simp add: link_wf_def take_number_def Let_def) blast
  next
    case (Receive r)
    with s obtain k where k: "lk_main lk = Serving k" by (auto split: main_pc.split_asm)
    with s Receive have "lk' = leave_connection k lk \<or> lk' = lk \<or> lk' = lk\<lparr>lk_goroutines := lk_goroutines lk + 1\<rparr>"
      by (auto split: sum.split_asm if_split_asm)
    with w k show ?thesis by (elim disjE) (simp_all add: link_wf_def leave_connection_def less_Suc_eq)
  next
    case (Dial ok)
    with s have "lk_main lk = Dialling" "lk' = lk \<or> lk' = lk\<lparr>lk_main := Dialled (lk_dials lk),
        lk_up := (lk_up lk)(lk_dials lk := True), lk_dials := lk_dials lk + 1\<rparr>"
      by (auto split: if_split_asm)
    moreover have "lk_conn lk \<noteq> Some (lk_dials lk)" "lk_dials lk = 0 \<Longrightarrow> lk_conn lk = None"
      using w by (auto simp: link_wf_def)
    ultimately show ?thesis using w by (elim disjE) (simp_all add: link_wf_def less_Suc_eq)
  next
    case (NumberBeat k ms)
    with s have "lk_beats lk k" "lk' = take_number (HeartbeatOf k) (\<lambda>seq. heartbeat_envelope cfg seq ms) lk"
      by (simp_all split: if_split_asm)
    with w show ?thesis by (simp add: link_wf_def take_number_def Let_def)
  next
    case (NumberEvent g streamID evt)
    with s have "g < lk_goroutines lk" "lk' = take_number (RunGoroutine g) (\<lambda>seq. run_envelope cfg streamID seq evt) lk"
      by (simp_all split: if_split_asm)
    with w show ?thesis by (simp add: link_wf_def take_number_def Let_def)
  next
    case Go
    with s have "0 < lk_goroutines lk" "lk' = lk\<lparr>lk_goroutines := lk_goroutines lk + 1\<rparr>" by (simp_all split: if_split_asm)
    with w show ?thesis by (simp add: link_wf_def less_Suc_eq)
  next
    case (Lose k)
    with s have "lk' = lk\<lparr>lk_up := (lk_up lk)(k := False)\<rparr>" by simp
    with w show ?thesis by (simp add: link_wf_def)
  next
    case (BeatEnd k)
    with s have "lk_held lk (HeartbeatOf k) = None" "lk' = lk\<lparr>lk_beats := (lk_beats lk)(k := False)\<rparr>"
      by (simp_all split: if_split_asm)
    with w show ?thesis by (simp add: link_wf_def)
  qed
qed

subsection \<open>The messages of one goroutine\<close>

definition messages_of :: "writer \<Rightarrow> link \<Rightarrow> Envelope_Message option list" where
  "messages_of wr lk = map env_Message (by_writer wr lk @ held_list wr lk)"

text \<open>What a goroutine has taken numbers for, and whether every write finds its connection open.\<close>

fun sent_by :: "Config \<Rightarrow> writer \<Rightarrow> link_act \<Rightarrow> Envelope_Message option list" where
  "sent_by cfg wr NumberHello = (if wr = MainLoop then [env_Message (hello_envelope cfg 0)] else [])"
| "sent_by cfg wr (NumberBeat k ms) = (if wr = HeartbeatOf k then [env_Message (heartbeat_envelope cfg 0 ms)] else [])"
| "sent_by cfg wr (NumberEvent g streamID evt) = (if wr = RunGoroutine g then [Some (Envelope_RunEvent evt)] else [])"
| "sent_by cfg wr _ = []"

fun write_ok :: "(Envelope \<Rightarrow> string option) \<Rightarrow> link_act \<Rightarrow> link \<Rightarrow> bool" where
  "write_ok marshal (Write wr) lk \<longleftrightarrow>
     (case (lk_held lk wr, lk_conn lk) of (Some e, Some c) \<Rightarrow> marshal e \<noteq> None \<and> lk_up lk c | _ \<Rightarrow> False)"
| "write_ok marshal _ lk \<longleftrightarrow> True"

fun writes_ok ::
    "(Envelope \<Rightarrow> string option) \<Rightarrow> (string \<Rightarrow> string + Envelope) \<Rightarrow> Config \<Rightarrow> link_act list \<Rightarrow> link \<Rightarrow> bool" where
  "writes_ok marshal unmarshal cfg [] lk \<longleftrightarrow> True"
| "writes_ok marshal unmarshal cfg (a # as) lk \<longleftrightarrow>
     write_ok marshal a lk \<and>
     (case link_step marshal unmarshal cfg a lk of None \<Rightarrow> True | Some lk' \<Rightarrow> writes_ok marshal unmarshal cfg as lk')"

lemma numbered_messages:
  assumes "lk_held lk wr = None"
  shows "messages_of v (take_number wr mk lk) =
    messages_of v lk @ (if v = wr then [env_Message (mk (lk_seq lk + 1))] else [])"
  using assms by (simp add: messages_of_def take_number_def Let_def by_writer_def held_list_def)

lemma write_messages:
  assumes "written marshal wr lk = Some lk'"
  shows "subseq (messages_of v lk') (messages_of v lk)"
    and "write_ok marshal (Write wr) lk \<Longrightarrow> messages_of v lk' = messages_of v lk"
proof -
  from written_fields [OF assms] obtain e lk1 ok where f: "lk_held lk wr = Some e"
    "writeEnvelope marshal wr e lk = (ok, lk1)" "lk_wire lk' = lk_wire lk1" "lk_held lk' = (lk_held lk)(wr := None)" .
  from writeEnvelope_result [OF f(2)] have "messages_of v lk' = messages_of v lk \<or>
    \<not> write_ok marshal (Write wr) lk \<and> lk_wire lk1 = lk_wire lk"
  proof (elim disjE conjE exE)
    fix c assume "lk1 = lk\<lparr>lk_wire := lk_wire lk @ [(c, wr, e)]\<rparr>"
    then have "lk_wire lk' = lk_wire lk @ [(c, wr, e)]" by (simp add: f(3))
    with f(1,4) show ?thesis by (auto simp: messages_of_def by_writer_def held_list_def)
  next
    assume "\<not> ok" "lk_wire lk1 = lk_wire lk"
    with f(1,2) show ?thesis by (auto simp: writeEnvelope_def split: option.split_asm)
  qed
  moreover have "subseq (messages_of v lk') (messages_of v lk)" if "lk_wire lk1 = lk_wire lk"
  proof -
    have "by_writer v lk' = by_writer v lk" "held_list v lk' = (if v = wr then [] else held_list v lk)"
      using that f(3,4) by (simp_all add: by_writer_def held_list_def)
    then show ?thesis by (auto simp: messages_of_def intro: prefix_imp_subseq)
  qed
  ultimately show "subseq (messages_of v lk') (messages_of v lk)"
    "write_ok marshal (Write wr) lk \<Longrightarrow> messages_of v lk' = messages_of v lk" by auto
qed

lemma step_messages:
  assumes "link_wf cfg lk" "link_step marshal unmarshal cfg a lk = Some lk'"
  shows "subseq (messages_of v lk') (messages_of v lk @ sent_by cfg v a)
    \<and> (write_ok marshal a lk \<longrightarrow> messages_of v lk' = messages_of v lk @ sent_by cfg v a)"
proof (cases a)
  case (Write wr)
  with assms(2) write_messages [of marshal wr lk lk' v] show ?thesis by simp
next
  case NumberHello
  with assms(2) obtain k where k: "lk_main lk = Installed k" "lk' = (take_number MainLoop (hello_envelope cfg) lk)\<lparr>lk_main := Greeting k\<rparr>"
    by (auto split: main_pc.split_asm)
  have "lk_held lk MainLoop = None" using assms(1) k(1) by (cases "lk_held lk MainLoop") (auto simp: link_wf_def)
  moreover have "messages_of v lk' = messages_of v (take_number MainLoop (hello_envelope cfg) lk)"
    by (simp add: k(2) messages_of_def by_writer_def held_list_def)
  ultimately show ?thesis using NumberHello by (simp add: numbered_messages hello_envelope_def)
next
  case (NumberBeat k ms)
  with assms(2) show ?thesis by (auto simp: numbered_messages heartbeat_envelope_def split: if_split_asm)
next
  case (NumberEvent g streamID evt)
  with assms(2) show ?thesis by (auto simp: numbered_messages run_envelope_def split: if_split_asm)
qed (use assms(2) in \<open>auto simp: messages_of_def by_writer_def held_list_def leave_connection_def
      split: if_split_asm main_pc.split_asm sum.split_asm\<close>)

lemma run_messages:
  assumes "link_run marshal unmarshal cfg acts lk = Some lk'" "link_wf cfg lk"
  shows "subseq (messages_of v lk') (messages_of v lk @ concat (map (sent_by cfg v) acts))
    \<and> (writes_ok marshal unmarshal cfg acts lk \<longrightarrow> messages_of v lk' = messages_of v lk @ concat (map (sent_by cfg v) acts))"
  using assms
proof (induction acts arbitrary: lk)
  case (Cons a acts)
  then obtain lk1 where s: "link_step marshal unmarshal cfg a lk = Some lk1" "link_run marshal unmarshal cfg acts lk1 = Some lk'"
    by (auto split: option.splits)
  note one = step_messages [OF Cons.prems(2) s(1), of v]
  note rest = Cons.IH [OF s(2) well_formed.step [OF Cons.prems(2) s(1)]]
  from one have "subseq (messages_of v lk1 @ concat (map (sent_by cfg v) acts))
      ((messages_of v lk @ sent_by cfg v a) @ concat (map (sent_by cfg v) acts))"
    by (intro list_emb_append_mono) auto
  with one rest s(1) show ?case by (auto intro: subseq_order.trans)
qed simp

subsection \<open>Greetings\<close>

text \<open>Connection \<open>c\<close> begins with the greeting, and nothing is written on it before.\<close>

definition greeted :: "Config \<Rightarrow> nat \<Rightarrow> link \<Rightarrow> bool" where
  "greeted cfg c lk \<longleftrightarrow>
     (on_conn c lk = [] \<or> (\<exists>s. hd (on_conn c lk) = hello_envelope cfg s))
   \<and> (lk_main lk \<in> {Dialled c, Installed c, Greeting c} \<or> lk_dials lk \<le> c \<longrightarrow> on_conn c lk = [])
   \<and> (lk_conn lk = Some c \<and> lk_main lk \<notin> {Installed c, Greeting c} \<and> on_conn c lk = [] \<longrightarrow> \<not> lk_up lk c)"

text \<open>The goroutines leave a connection alone until it is greeted.\<close>

fun waits_for_greeting :: "link_act \<Rightarrow> nat \<Rightarrow> link \<Rightarrow> bool" where
  "waits_for_greeting (Write wr) c lk \<longleftrightarrow> (wr \<noteq> MainLoop \<longrightarrow> lk_main lk \<notin> {Installed c, Greeting c})"
| "waits_for_greeting _ c lk \<longleftrightarrow> True"

lemma write_greeted:
  assumes "link_wf cfg lk" "greeted cfg c lk" "written marshal wr lk = Some lk'"
    and "waits_for_greeting (Write wr) c lk"
  shows "greeted cfg c lk'"
  using assms(3)
proof (rule written_cases)
  fix e lk1 ok
  assume e: "lk_held lk wr = Some e" and w: "writeEnvelope marshal wr e lk = (ok, lk1)"
    and lk': "lk' = (case (wr, lk_main lk) of
        (MainLoop, Greeting k) \<Rightarrow>
          if ok then lk1\<lparr>lk_held := (lk_held lk)(wr := None), lk_main := Serving k, lk_beats := (lk_beats lk)(k := True)\<rparr>
          else leave_connection k (lk1\<lparr>lk_held := (lk_held lk)(wr := None)\<rparr>)
      | _ \<Rightarrow> lk1\<lparr>lk_held := (lk_held lk)(wr := None)\<rparr>)"
  note frame = writeEnvelope_frame [OF w]
  show ?thesis
  proof (cases "wr = MainLoop")
    case True
    with e assms(1) obtain k s where k: "lk_main lk = Greeting k" "e = hello_envelope cfg s" "lk_conn lk = Some k" "k < lk_dials lk"
      by (auto simp: link_wf_def)
    have "on_conn c lk1 = on_conn c lk @ (if ok \<and> c = k then [e] else [])"
      using writeEnvelope_result [OF w] k(3) by (auto simp: on_conn_def)
    moreover have "lk_wire lk' = lk_wire lk1" using k(1) True by (simp add: lk' leave_connection_def)
    ultimately have "on_conn c lk' = on_conn c lk @ (if ok \<and> c = k then [e] else [])"
      by (simp add: on_conn_def del: map_append)
    moreover have "lk_main lk' = (if ok then Serving k else Dialling)" "lk_dials lk' = lk_dials lk" "lk_conn lk' = Some k"
      "lk_up lk' = (if ok then lk_up lk else (lk_up lk)(k := False))"
      using k(1,3) True frame by (simp_all add: lk' leave_connection_def)
    ultimately show ?thesis using assms(2) k unfolding greeted_def by (auto split: if_split_asm)
  next
    case False
    then have l: "lk' = lk1\<lparr>lk_held := (lk_held lk)(wr := None)\<rparr>"
      by (cases wr) (simp_all add: lk')
    from False assms(4) have m: "lk_main lk \<notin> {Installed c, Greeting c}" by simp
    show ?thesis
    proof (cases "ok \<and> lk_conn lk = Some c")
      case True
      then have "lk_up lk c" "on_conn c lk' = on_conn c lk @ [e]"
        using writeEnvelope_result [OF w] by (auto simp: on_conn_def l)
      moreover from this True m assms(2) have "on_conn c lk \<noteq> []" by (simp add: greeted_def)
      ultimately show ?thesis using assms(2) frame by (auto simp: greeted_def l hd_append)
    next
      case False
      then have "on_conn c lk' = on_conn c lk"
        using writeEnvelope_result [OF w] by (auto simp: on_conn_def l)
      with assms(2) frame show ?thesis by (simp add: greeted_def l)
    qed
  qed
qed

lemma same_greeted:
  assumes "greeted cfg c lk" "lk_wire lk' = lk_wire lk" "lk_conn lk' = lk_conn lk"
    and "lk_main lk' \<in> {Dialled c, Installed c, Greeting c} \<or> lk_dials lk' \<le> c \<Longrightarrow>
      lk_main lk \<in> {Dialled c, Installed c, Greeting c} \<or> lk_dials lk \<le> c"
    and "lk_main lk' \<notin> {Installed c, Greeting c} \<and> lk_up lk' c \<Longrightarrow> lk_main lk \<notin> {Installed c, Greeting c} \<and> lk_up lk c"
  shows "greeted cfg c lk'"
  using assms by (auto simp: greeted_def on_conn_def)

lemma step_greeted:
  assumes "link_wf cfg lk" "greeted cfg c lk" "link_step marshal unmarshal cfg a lk = Some lk'"
    and "waits_for_greeting a c lk"
  shows "greeted cfg c lk'"
proof -
  have unchanged: "greeted cfg c lk'"
    if "lk_wire lk' = lk_wire lk" "lk_conn lk' = lk_conn lk" "lk_main lk' = lk_main lk" "lk_dials lk' = lk_dials lk"
      "lk_up lk' = lk_up lk"
    by (rule same_greeted [OF assms(2)]) (simp_all add: that)
  show ?thesis
  proof (cases a)
    case (Write wr)
    with assms write_greeted [OF assms(1,2), of marshal wr lk'] show ?thesis by simp
  next
    case (Dial ok)
    with assms(3) have d: "lk_main lk = Dialling" "lk' = lk \<or> lk' = lk\<lparr>lk_main := Dialled (lk_dials lk),
        lk_up := (lk_up lk)(lk_dials lk := True), lk_dials := lk_dials lk + 1\<rparr>"
      by (auto split: if_split_asm)
    have "lk_conn lk \<noteq> Some (lk_dials lk)" using assms(1) by (auto simp: link_wf_def)
    then show ?thesis using assms(2) d by (elim disjE) (simp_all add: greeted_def on_conn_def)
  next
    case Install
    with assms(3) obtain k where k: "lk_main lk = Dialled k" "lk' = lk\<lparr>lk_conn := Some k, lk_main := Installed k\<rparr>"
      by (auto split: main_pc.split_asm)
    with assms(2) show ?thesis by (auto simp: greeted_def on_conn_def)
  next
    case NumberHello
    with assms(3) obtain k where k: "lk_main lk = Installed k" "lk' = (take_number MainLoop (hello_envelope cfg) lk)\<lparr>lk_main := Greeting k\<rparr>"
      by (auto split: main_pc.split_asm)
    then show ?thesis by (intro same_greeted [OF assms(2)]) (auto simp: take_number_def Let_def)
  next
    case (Receive r)
    with assms(3) obtain k where k: "lk_main lk = Serving k" by (auto split: main_pc.split_asm)
    with assms(3) Receive have "lk' = leave_connection k lk \<or> lk' = lk \<or> lk' = lk\<lparr>lk_goroutines := lk_goroutines lk + 1\<rparr>"
      by (auto split: sum.split_asm if_split_asm)
    with k show ?thesis
      by (elim disjE; intro same_greeted [OF assms(2)]) (simp_all add: leave_connection_def split: if_split_asm)
  next
    case (Lose k)
    with assms(3) show ?thesis by (intro same_greeted [OF assms(2)]) (auto split: if_split_asm)
  next
    case (NumberBeat k ms)
    with assms(3) show ?thesis by (intro unchanged) (auto simp: take_number_def Let_def split: if_split_asm)
  next
    case (NumberEvent g streamID evt)
    with assms(3) show ?thesis by (intro unchanged) (auto simp: take_number_def Let_def split: if_split_asm)
  next
    case Go
    with assms(3) show ?thesis by (intro unchanged) (auto split: if_split_asm)
  next
    case (BeatEnd k)
    with assms(3) show ?thesis by (intro unchanged) (auto split: if_split_asm)
  qed
qed

lemma first_greeting_undisturbed:
  assumes "link_wf cfg lk" "link_step marshal unmarshal cfg a lk = Some lk'"
  shows "waits_for_greeting a 0 lk"
proof (cases a)
  case (Write wr)
  with assms(2) obtain e where "lk_held lk wr = Some e" by (auto simp: written_def split: option.split_asm)
  with assms(1) Write show ?thesis by (cases wr) (auto simp: link_wf_def)
qed simp_all

fun greetings_first ::
    "(Envelope \<Rightarrow> string option) \<Rightarrow> (string \<Rightarrow> string + Envelope) \<Rightarrow> Config \<Rightarrow> nat \<Rightarrow> link_act list \<Rightarrow> link \<Rightarrow> bool" where
  "greetings_first marshal unmarshal cfg c [] lk \<longleftrightarrow> True"
| "greetings_first marshal unmarshal cfg c (a # as) lk \<longleftrightarrow>
     waits_for_greeting a c lk \<and>
     (case link_step marshal unmarshal cfg a lk of None \<Rightarrow> True | Some lk' \<Rightarrow> greetings_first marshal unmarshal cfg c as lk')"

lemma run_greeted:
  assumes "link_run marshal unmarshal cfg acts lk = Some lk'" "link_wf cfg lk" "greeted cfg c lk"
    and "c = 0 \<or> greetings_first marshal unmarshal cfg c acts lk"
  shows "greeted cfg c lk'"
  using assms
proof (induction acts arbitrary: lk)
  case (Cons a acts)
  then obtain lk1 where s: "link_step marshal unmarshal cfg a lk = Some lk1" "link_run marshal unmarshal cfg acts lk1 = Some lk'"
    by (auto split: option.splits)
  have "waits_for_greeting a c lk"
    using Cons.prems(4) first_greeting_undisturbed [OF Cons.prems(2) s(1)] by auto
  from step_greeted [OF Cons.prems(2,3) s(1) this] well_formed.step [OF Cons.prems(2) s(1)] Cons.prems(4) s(1)
  show ?case by (intro Cons.IH [OF s(2)]) auto
qed simp

lemma start_greeted: "greeted cfg c start_link"
  by (simp add: greeted_def on_conn_def start_link_def)

subsection \<open>The worker and the gateway\<close>

interpretation marshalled: link_invariant marshal unmarshal cfg "\<lambda>lk. \<forall>(c, wr, e) \<in> set (lk_wire lk). marshal e \<noteq> None"
  for marshal unmarshal cfg
proof
  fix lk a lk'
  assume "\<forall>(c, wr, e) \<in> set (lk_wire lk). marshal e \<noteq> None" "link_step marshal unmarshal cfg a lk = Some lk'"
  from step_effect [OF this(2)] this(1) show "\<forall>(c, wr, e) \<in> set (lk_wire lk'). marshal e \<noteq> None"
    by (induction rule: link_effect.induct) auto
qed (simp add: start_link_def)

lemma on_conn_marshalled:
  assumes "link_run marshal unmarshal cfg acts start_link = Some lk" "e \<in> set (on_conn c lk)"
  shows "marshal e \<noteq> None"
  using marshalled.run [OF assms(1)] assms(2) by (fastforce simp: on_conn_def)

lemma read_marshalled:
  assumes "\<And>e b. marshal e = Some b \<Longrightarrow> unmarshal b = Inr e" "marshal env \<noteq> None"
  shows "first_message parseURL unmarshal '''' host (Inr (BinaryMessage, the (marshal env))) = Some env"
  using assms by (auto simp: first_message_def CheckOrigin_def readWorkerEnvelope_def)

text \<open>C19: The first message on a worker's connection is its greeting, and the gateway that reads it from the web
  socket registers the worker under its identifier, with the gateway's token or with a token of that
  worker. This holds for the first connection of a worker always, and for a later one if the goroutines that
  outlive earlier connections do not write before the greeting.\<close>

theorem greeting_registers:
  assumes "link_run marshal unmarshal cfg acts start_link = Some lk" "on_conn c lk \<noteq> []"
    and "c = 0 \<or> greetings_first marshal unmarshal cfg c acts start_link"
    and "\<And>e b. marshal e = Some b \<Longrightarrow> unmarshal b = Inr e"
    and "connect_auth ge h r g cs = Inr expected" "expected = '''' \<or> expected = cfg_WorkerID cfg" "cfg_WorkerID cfg \<noteq> ''''"
  shows "fst (handleWorkerConnect ge h r conn
      (first_message parseURL unmarshal '''' host (Inr (BinaryMessage, the (marshal (hd (on_conn c lk)))))) now cs g)
    = ConnRegistered (cfg_WorkerID cfg)"
proof -
  have "greeted cfg c lk" using run_greeted [OF assms(1) well_formed.init start_greeted assms(3)] .
  then obtain s where s: "hd (on_conn c lk) = hello_envelope cfg s" using assms(2) by (auto simp: greeted_def)
  have "marshal (hello_envelope cfg s) \<noteq> None"
    using on_conn_marshalled [OF assms(1) hd_in_set [OF assms(2)]] by (simp add: s)
  then have "first_message parseURL unmarshal '''' host (Inr (BinaryMessage, the (marshal (hd (on_conn c lk))))) = Some (hello_envelope cfg s)"
    unfolding s by (intro read_marshalled assms(4))
  moreover have "hello_worker_id expected now (hello_envelope cfg s) \<noteq> None \<and>
      fst (the (hello_worker_id expected now (hello_envelope cfg s))) = cfg_WorkerID cfg"
    using assms(6,7) by (auto simp: hello_worker_id_def hello_envelope_def GetWorkerHello_def Let_def)
  ultimately show ?thesis using assms(5) by (auto simp: handleWorkerConnect_def)
qed

text \<open>C20: Whatever the main loop, the heartbeats and the runs of a worker do, in any interleaving and through losses of
  the connection: no two envelopes that are written have the same number, until the counter wraps; every
  goroutine's envelopes are written with rising numbers, in the order it sent them; one is missing
  only where a write failed, and if none did, everything has been written but what the goroutine is
  about to write; and no write finds the worker without a connection.\<close>

theorem goroutines_keep_order:
  assumes "link_run marshal unmarshal cfg acts start_link = Some lk" "length acts < 2 ^ 64"
  shows "\<not> lk_panic lk \<and> distinct (wire_numbers lk)
    \<and> sorted_wrt (<) (map env_Seq (by_writer wr lk))
    \<and> subseq (map env_Message (by_writer wr lk)) (concat (map (sent_by cfg wr) acts))
    \<and> (writes_ok marshal unmarshal cfg acts start_link \<longrightarrow>
        map env_Message (by_writer wr lk @ held_list wr lk) = concat (map (sent_by cfg wr) acts))"
proof -
  have "numbers_ok start_link" "messages_of wr start_link = []"
    by (simp_all add: numbers_ok_def start_link_def wire_numbers_def numbers_of_def by_writer_def held_list_def messages_of_def)
  then have n: "numbers_ok lk"
    using run_numbers [OF assms(1)] assms(2) by (simp add: start_link_def)
  have m: "subseq (messages_of wr lk) (concat (map (sent_by cfg wr) acts))"
    "writes_ok marshal unmarshal cfg acts start_link \<Longrightarrow> messages_of wr lk = concat (map (sent_by cfg wr) acts)"
    using run_messages [OF assms(1) well_formed.init, of wr] \<open>messages_of wr start_link = []\<close> by auto
  have "subseq (map env_Message (by_writer wr lk)) (messages_of wr lk)"
    by (simp add: messages_of_def prefix_imp_subseq)
  with m(1) have "subseq (map env_Message (by_writer wr lk)) (concat (map (sent_by cfg wr) acts))"
    by (rule subseq_order.trans [rotated])
  moreover have "\<not> lk_panic lk" using well_formed.run [OF assms(1)] by (simp add: link_wf_def)
  ultimately show ?thesis
    using numbers_prefix [OF n] n m(2) by (simp add: numbers_ok_def messages_of_def)
qed

text \<open>
  A run's event is numbered while its connection is lost, and written between the next connection
  becoming the worker's and its greeting.
\<close>

definition overtaking :: "string \<Rightarrow> string \<Rightarrow> RunEvent \<Rightarrow> link_act list" where
  "overtaking request streamID evt =
     [Dial True, Install, NumberHello, Write MainLoop, Receive (Inr (BinaryMessage, request)),
      NumberEvent 0 streamID evt, Lose 0, Receive (Inl ''EOF''),
      Dial True, Install, Write (RunGoroutine 0), NumberHello, Write MainLoop]"

text \<open>C36: The greeting can come too late. A run's goroutine that has numbered an event when its connection was lost
  writes it to the next connection as soon as that is the worker's, before the greeting; the gateway reads
  the event where it expects the greeting and drops the connection, without any change of its state.\<close>

theorem late_event_spoils_greeting:
  assumes "unmarshal request = Inr env" "GetRunRequest env \<noteq> None"
    and "marshal (hello_envelope cfg 1) \<noteq> None" "marshal (hello_envelope cfg 3) \<noteq> None"
    and "marshal (run_envelope cfg streamID 2 evt) = Some b" "unmarshal b = Inr (run_envelope cfg streamID 2 evt)"
  shows "\<exists>lk. link_run marshal unmarshal cfg (overtaking request streamID evt) start_link = Some lk
    \<and> on_conn 1 lk = [run_envelope cfg streamID 2 evt, hello_envelope cfg 3]
    \<and> snd (handleWorkerConnect ge h r conn
        (first_message parseURL unmarshal '''' host (Inr (BinaryMessage, the (marshal (hd (on_conn 1 lk)))))) now cs g) = g
    \<and> fst (handleWorkerConnect ge h r conn
        (first_message parseURL unmarshal '''' host (Inr (BinaryMessage, the (marshal (hd (on_conn 1 lk)))))) now cs g)
        \<in> {ConnUnauthorized, ConnDropped}"
proof -
  have "on_envelope 0 env \<noteq> None" using assms(2) by (auto simp: on_envelope_def)
  then obtain lk where lk: "link_run marshal unmarshal cfg (overtaking request streamID evt) start_link = Some lk"
    "on_conn 1 lk = [run_envelope cfg streamID 2 evt, hello_envelope cfg 3]"
    using assms(1,3,4,5)
    by (auto simp: overtaking_def start_link_def take_number_def written_def writeEnvelope_def leave_connection_def
        readEnvelope_def on_conn_def Let_def)
  have "hello_worker_id x now (run_envelope cfg streamID 2 evt) = None" for x
    by (simp add: hello_worker_id_def GetWorkerHello_def run_envelope_def)
  with lk assms(5,6) show ?thesis
    by (auto simp: first_message_def CheckOrigin_def readWorkerEnvelope_def handleWorkerConnect_def split: sum.splits)
qed

lemma envelope_numbers:
  "env_Seq (hello_envelope cfg n) = n" "env_Seq (run_envelope cfg s n evt) = n" "env_Seq (heartbeat_envelope cfg n ms) = n"
  by (simp_all add: hello_envelope_def run_envelope_def heartbeat_envelope_def)

text \<open>Two goroutines may write in another order than they were numbered.\<close>

lemma numbers_cross:
  assumes "unmarshal request = Inr env" "GetRunRequest env \<noteq> None"
    and "marshal (hello_envelope cfg 1) \<noteq> None"
    and "marshal (run_envelope cfg s 2 evt) \<noteq> None" "marshal (run_envelope cfg s 3 evt') \<noteq> None"
  shows "map_option wire_numbers (link_run marshal unmarshal cfg
      [Dial True, Install, NumberHello, Write MainLoop, Receive (Inr (BinaryMessage, request)), Go,
       NumberEvent 0 s evt, NumberEvent 1 s evt', Write (RunGoroutine 1), Write (RunGoroutine 0)] start_link)
    = Some [1, 3, 2]"
proof -
  have "on_envelope 0 env \<noteq> None" using assms(2) by (auto simp: on_envelope_def)
  with assms show ?thesis
    by (auto simp: start_link_def take_number_def written_def writeEnvelope_def readEnvelope_def wire_numbers_def Let_def
        envelope_numbers)
qed

subsection \<open>Witnesses\<close>

definition demo_link_config :: Config where
  "demo_link_config = empty_config\<lparr>cfg_WorkerID := ''w1''\<rparr>"

definition demo_marshal :: "Envelope \<Rightarrow> string option" where
  "demo_marshal env = (if env = hello_envelope demo_link_config 1 then Some ''h'' else None)"

definition demo_unmarshal :: "string \<Rightarrow> string + Envelope" where
  "demo_unmarshal b = Inr (hello_envelope demo_link_config 1)"

definition demo_link :: link where
  "demo_link = start_link\<lparr>lk_seq := 1, lk_dials := 1, lk_conn := Some 0, lk_up := (\<lambda>k. k = 0), lk_main := Serving 0,
     lk_beats := (\<lambda>k. k = 0), lk_wire := [(0, MainLoop, hello_envelope demo_link_config 1)]\<rparr>"

lemma demo_link_run:
  "link_run demo_marshal demo_unmarshal demo_link_config [Dial True, Install, NumberHello, Write MainLoop] start_link = Some demo_link"
  by (auto simp: start_link_def demo_link_def take_number_def written_def writeEnvelope_def demo_marshal_def fun_eq_iff)

lemma demo_marshal_back: "demo_marshal e = Some b \<Longrightarrow> demo_unmarshal b = Inr e"
  by (simp add: demo_marshal_def demo_unmarshal_def split: if_splits)

lemma greeting_registers_witness:
  "fst (handleWorkerConnect demo_genv demo_hash (demo_http ''Bearer t1'') 3
      (first_message (\<lambda>_. Inl '''') demo_unmarshal '''' ''gw'' (Inr (BinaryMessage, the (demo_marshal (hd (on_conn 0 demo_link))))))
      0 (demo_store []) (NewGatewayServer ''tok'')) = ConnRegistered (cfg_WorkerID demo_link_config)"
proof (rule greeting_registers [OF demo_link_run])
  show "connect_auth demo_genv demo_hash (demo_http ''Bearer t1'') (NewGatewayServer ''tok'') (demo_store []) = Inr ''w1''"
    by code_simp
qed (auto simp: demo_marshal_back demo_link_def on_conn_def demo_link_config_def)

lemma goroutines_keep_order_witness:
  "map env_Message (by_writer MainLoop demo_link @ held_list MainLoop demo_link) = [env_Message (hello_envelope demo_link_config 0)]"
proof -
  have "writes_ok demo_marshal demo_unmarshal demo_link_config [Dial True, Install, NumberHello, Write MainLoop] start_link"
    by (simp add: start_link_def take_number_def Let_def demo_marshal_def split: option.splits)
  with goroutines_keep_order [OF demo_link_run, of MainLoop] show ?thesis by simp
qed

definition demo_late_event :: Envelope where
  "demo_late_event = run_envelope demo_link_config ''r1'' 2 (status_event ''running'' '''')"

definition demo_marshal2 :: "Envelope \<Rightarrow> string option" where
  "demo_marshal2 env = Some (if GetRunEvent env \<noteq> None then ''e'' else ''h'')"

definition demo_unmarshal2 :: "string \<Rightarrow> string + Envelope" where
  "demo_unmarshal2 b =
     Inr (if b = ''e'' then demo_late_event else demo_env 1 (Some (Envelope_RunRequest demo_request)))"

lemma late_event_spoils_greeting_witness:
  "\<exists>lk. link_run demo_marshal2 demo_unmarshal2 demo_link_config (overtaking ''q'' ''r1'' (status_event ''running'' '''')) start_link = Some lk
    \<and> on_conn 1 lk = [demo_late_event, hello_envelope demo_link_config 3]"
proof -
  have "GetRunEvent demo_late_event \<noteq> None" by (simp add: demo_late_event_def run_envelope_def GetRunEvent_def)
  then show ?thesis
    using late_event_spoils_greeting [of demo_unmarshal2 "''q''" "demo_env 1 (Some (Envelope_RunRequest demo_request))"
        demo_marshal2 demo_link_config "''r1''" "status_event ''running'' ''''" "''e''" demo_genv demo_hash "demo_http ''''" 3
        "\<lambda>_. Inl ''''" "''gw''" 0 "demo_store []" "NewGatewayServer ''tok''"]
    by (auto simp: demo_marshal2_def demo_unmarshal2_def demo_late_event_def demo_env_def GetRunRequest_def)
qed

end
