(* ===== verification/Tokens.thy ===== *)
theory Tokens
  imports WorkerConn GatewayProps Pairing
begin

text \<open>
  The text of secrets. A token is 32 random bytes in the URL alphabet of base64 without padding
  (\<^verbatim>\<open>generateToken\<close> of \<^verbatim>\<open>pkg/server/worker_config_store.go\<close>), a session
  identifier and the hash of a token are bytes in hexadecimal (\<^verbatim>\<open>hashToken\<close>,
  \<^verbatim>\<open>createConsoleSession\<close>). The other theories take these texts as arguments; here
  they are made from the bytes, as strings of characters below 256, and followed from the
  gateway that draws them to the header of the worker that presents them. SHA-256 is the parameter
  \<open>sum256\<close>.
\<close>

subsection \<open>base64.RawURLEncoding\<close>

definition url_alphabet :: string where
  "url_alphabet = ''ABCDEFGHIJKLMNOPQRSTUVWXYZabcdefghijklmnopqrstuvwxyz0123456789-_''"

text \<open>The groups of six bits; three bytes give four, and a rest is filled with zero bits.\<close>

fun sextets :: "nat list \<Rightarrow> nat list" where
  "sextets [] = []"
| "sextets [a] = [a div 4, a mod 4 * 16]"
| "sextets [a, b] = [a div 4, a mod 4 * 16 + b div 16, b mod 16 * 4]"
| "sextets (a # b # c # r) = [a div 4, a mod 4 * 16 + b div 16, b mod 16 * 4 + c div 64, c mod 64] @ sextets r"

definition RawURLEncoding :: "string \<Rightarrow> string" where
  "RawURLEncoding bs = map (\<lambda>n. url_alphabet ! n) (sextets (map of_char bs))"

fun octets :: "nat list \<Rightarrow> nat list" where
  "octets (a # b # c # d # r) = [a * 4 + b div 16, b mod 16 * 16 + c div 4, c mod 4 * 64 + d] @ octets r"
| "octets [a, b, c] = [a * 4 + b div 16, b mod 16 * 16 + c div 4]"
| "octets [a, b] = [a * 4 + b div 16]"
| "octets _ = []"

lemma octets_sextets: "list_all (\<lambda>x. x < 256) bs \<Longrightarrow> octets (sextets bs) = bs"
  by (induction bs rule: sextets.induct) (auto simp: div_less_iff_less_mult)

lemma high_bits: "b < 256 \<Longrightarrow> a mod 4 * 16 + b div 16 < (64 :: nat)" "c < 256 \<Longrightarrow> b mod 16 * 4 + c div 64 < (64 :: nat)"
  using mod_less_divisor [of 4 a] mod_less_divisor [of 16 b]
  by (simp_all add: div_less_iff_less_mult less_mult_imp_div_less)

lemma sextets_less: "list_all (\<lambda>x. x < 256) bs \<Longrightarrow> list_all (\<lambda>x. x < 64) (sextets bs)"
  using high_bits [of 0] by (induction bs rule: sextets.induct) (auto simp: high_bits less_mult_imp_div_less)

lemma length_sextets: "length (sextets bs) = (length bs * 4 + 2) div 3"
  by (induction bs rule: sextets.induct) simp_all

lemma alphabet: "length url_alphabet = 64" "distinct url_alphabet"
  by (simp_all add: url_alphabet_def)

lemma bytes_less: "list_all (\<lambda>x. x < 256) (map of_char (bs :: string) :: nat list)"
  by (simp add: list_all_iff)

lemma RawURLEncoding_inj: "RawURLEncoding bs = RawURLEncoding cs \<Longrightarrow> bs = cs"
proof -
  assume "RawURLEncoding bs = RawURLEncoding cs"
  then have "map ((!) url_alphabet) (sextets (map of_char bs)) = map ((!) url_alphabet) (sextets (map of_char cs))"
    by (simp add: RawURLEncoding_def)
  moreover have "inj_on ((!) url_alphabet) {n. n < 64}"
    using alphabet by (auto simp: inj_on_def nth_eq_iff_index_eq)
  then have "inj_on ((!) url_alphabet) (set (sextets (map of_char bs)) \<union> set (sextets (map of_char cs)))"
    by (rule inj_on_subset) (use sextets_less [OF bytes_less [of bs]] sextets_less [OF bytes_less [of cs]] in \<open>auto simp: list_all_iff\<close>)
  ultimately have "sextets (map of_char bs) = sextets (map of_char cs :: nat list)"
    by (simp add: inj_on_map_eq_map)
  then have "octets (sextets (map of_char bs)) = octets (sextets (map of_char cs))" by (rule arg_cong)
  then have "map of_char bs = (map of_char cs :: nat list)"
    by (simp only: octets_sextets [OF bytes_less])
  then show ?thesis by (rule map_injective) (rule inj_of_char)
qed

subsection \<open>hex.EncodeToString\<close>

definition hex_digits :: string where "hex_digits = ''0123456789abcdef''"

definition EncodeToString :: "string \<Rightarrow> string" where
  "EncodeToString bs = concat (map (\<lambda>c. [hex_digits ! (of_char c div 16), hex_digits ! (of_char c mod 16)]) bs)"

definition hashToken :: "(string \<Rightarrow> string) \<Rightarrow> string \<Rightarrow> string" where
  "hashToken sum256 token = EncodeToString (sum256 token)"

lemma hex_digits_inj: "i < 16 \<Longrightarrow> j < 16 \<Longrightarrow> hex_digits ! i = hex_digits ! j \<longleftrightarrow> i = j"
  by (rule nth_eq_iff_index_eq) (simp_all add: hex_digits_def)

lemma EncodeToString_inj: "EncodeToString bs = EncodeToString cs \<Longrightarrow> bs = cs"
proof (induction bs arbitrary: cs)
  case (Cons b bs)
  then obtain c cs' where c: "cs = c # cs'" by (cases cs) (auto simp: EncodeToString_def)
  have less: "of_char x div 16 < (16 :: nat)" for x :: char
    by (rule less_mult_imp_div_less) simp
  from Cons.prems c have "of_char b div 16 = (of_char c div 16 :: nat)" "of_char b mod 16 = (of_char c mod 16 :: nat)"
    by (simp_all add: EncodeToString_def hex_digits_inj less)
  then have "of_char b = (of_char c :: nat)" by (metis div_mult_mod_eq)
  then have "b = c" by simp
  with Cons c show ?case by (auto simp: EncodeToString_def)
qed (auto simp: EncodeToString_def)

subsection \<open>Tokens\<close>

text \<open>\<open>raw\<close> is what \<^verbatim>\<open>rand.Read\<close> has filled the 32 bytes with, or its failure.\<close>

definition generateToken :: "string option \<Rightarrow> string option" where
  "generateToken raw = map_option RawURLEncoding raw"

definition session_id :: "string option \<Rightarrow> string option" where
  "session_id raw = map_option EncodeToString raw"

lemma token_chars: "c \<in> set (RawURLEncoding bs) \<Longrightarrow> c \<in> set url_alphabet"
  using sextets_less [OF bytes_less [of bs]] alphabet(1)
  by (auto simp: RawURLEncoding_def list_all_iff)


lemma token_plain: "list_all plain (RawURLEncoding bs)"
proof -
  have "list_all plain url_alphabet" by (simp add: url_alphabet_def plain_def)
  then show ?thesis using token_chars [of _ bs] by (auto simp: list_all_iff)
qed

lemma token_length: "length (RawURLEncoding bs) = (length bs * 4 + 2) div 3"
  by (simp add: RawURLEncoding_def length_sextets)

text \<open>A drawn token is 43 characters without a space, and comes back from the header it is sent in.\<close>

lemma drawn_token:
  assumes "generateToken raw = Some tok" "\<And>bs. raw = Some bs \<Longrightarrow> length bs = 32"
  shows "length tok = 43" "tok \<noteq> ''''" "trim_space tok = tok"
    and "rq_Authorization r = ''Bearer '' @ tok \<Longrightarrow> parseBearerToken r = tok"
proof -
  obtain bs where bs: "raw = Some bs" "tok = RawURLEncoding bs" using assms(1) by (auto simp: generateToken_def)
  show l: "length tok = 43" using assms(2) [OF bs(1)] by (simp add: bs(2) token_length)
  then show "tok \<noteq> ''''" by auto
  show t: "trim_space tok = tok" unfolding bs(2) by (rule trim_space_all_plain [OF token_plain])
  show "parseBearerToken r = tok" if "rq_Authorization r = ''Bearer '' @ tok"
    using that t l by (simp add: parseBearerToken_def bearer_prefix_def Let_def)
qed

lemma drawn_tokens_differ: "generateToken (Some bs) = generateToken (Some cs) \<Longrightarrow> bs = cs"
  by (simp add: generateToken_def RawURLEncoding_inj)

lemma session_ids_differ: "session_id (Some bs) = session_id (Some cs) \<Longrightarrow> bs = cs"
  by (simp add: session_id_def EncodeToString_inj)

text \<open>Two tokens have the same hash only if SHA-256 collides on them.\<close>

lemma hashToken_inj: "hashToken sum256 t = hashToken sum256 t' \<longleftrightarrow> sum256 t = sum256 t'"
  by (auto simp: hashToken_def dest: EncodeToString_inj)


subsection \<open>From the random bytes to the connection\<close>

lemma dial_header:
  assumes "dial parse cfg = Inr (v, auth)" "cfg_Token cfg \<noteq> ''''"
  shows "auth = Some (''Bearer '' @ cfg_Token cfg)"
  using assms by (auto simp: dial_def Let_def split: sum.splits)

text \<open>C15: Pairing works from the random bytes to the connection: with a secret and a token drawn as 32 bytes, a
  request that is made, approved and polled within fifteen minutes hands out the token drawn at the
  approval, and a worker that dials with it presents a header from which the gateway takes it back
  unchanged and admits the worker as the one that was approved, or as any worker where the token
  happens to be the gateway's own; all this as long as no write fails.\<close>

theorem paired_token_connects:
  assumes "cs_faults s = []" "\<forall>r \<in> set (read_pairing_or_nil s). pr_ID r \<noteq> rid"
    and "wid \<noteq> ''''" "now1 \<le> now + PairingTTL" "now2 \<le> now + PairingTTL" "length sbytes = 32" "length tbytes = 32"
    and "CreatePairingRequest (hashToken sum256) (generateToken (Some sbytes)) rid code now wn hi labels s
      = (Inr (rid', secret, userCode), s1)"
    and "ApprovePairingRequest (hashToken sum256) (generateToken (Some tbytes)) wid now1 rid' s1 = (res2, s2)"
    and "PollPairingRequest (hashToken sum256) now2 rid' secret s2 = (Inr (status, tok), s3)"
    and "dial parse (cfg\<lparr>cfg_Token := tok\<rparr>) = Inr (v, Some auth)" "rq_Authorization r = auth"
  shows "status = PairingStatusApproved \<and> generateToken (Some tbytes) = Some tok
    \<and> connect_auth e (hashToken sum256) r g s3 = Inr (if checkToken e (gw_token g) r then '''' else wid)"
proof -
  obtain sec where sec: "generateToken (Some sbytes) = Some sec" by (simp add: generateToken_def)
  obtain t where t: "generateToken (Some tbytes) = Some t" by (simp add: generateToken_def)
  note T = drawn_token [OF t]
  have ne: "t \<noteq> ''''" using T(2) assms(7) by simp
  have "rid' = rid \<and> secret = sec"
    using assms(8) by (auto simp: sec CreatePairingRequest_def Let_def split: prod.splits if_splits)
  then have ids: "rid' = rid" "secret = sec" by auto
  have "Inr (status, tok) = Inr (PairingStatusApproved, t) \<and> ValidateWorkerToken (hashToken sum256) t s3 = Inr wid"
    using pairing_end_to_end [OF assms(1,2) ne assms(3,4,5) assms(8) [unfolded sec] assms(9) [unfolded t ids] assms(10) [unfolded ids]]
    by simp
  then have p: "status = PairingStatusApproved" "tok = t" "ValidateWorkerToken (hashToken sum256) t s3 = Inr wid" by auto
  have "rq_Authorization r = ''Bearer '' @ t"
    using dial_header [OF assms(11)] ne assms(12) by (simp add: p(2))
  then have "parseBearerToken r = t" using T(4) assms(7) by simp
  with p ne t show ?thesis by (simp add: connect_auth_def Let_def)
qed

definition demo_raw :: "char \<Rightarrow> string" where "demo_raw c = replicate 32 c"

definition demo_secret :: string where "demo_secret = RawURLEncoding (demo_raw CHR ''a'')"

definition demo_token :: string where "demo_token = RawURLEncoding (demo_raw CHR ''b'')"

definition demo_created :: config_store where
  "demo_created = snd (CreatePairingRequest (hashToken id) (Some demo_secret) ''r1'' [0, 1, 2, 3, 4, 255] 100 ''box'' ''linux'' [] (demo_store []))"

definition demo_approved :: config_store where
  "demo_approved = snd (ApprovePairingRequest (hashToken id) (Some demo_token) ''w9'' 500 ''r1'' demo_created)"

definition demo_polled :: config_store where
  "demo_polled = snd (PollPairingRequest (hashToken id) 900 ''r1'' demo_secret demo_approved)"

definition demo_relay :: "string \<Rightarrow> string + url" where
  "demo_relay s = Inr \<lparr>u_Scheme = ''ws'', u_Host = ''gw:80'', u_Path = '''', u_RawQuery = '''', u_Fragment = ''''\<rparr>"

lemma paired_token_connects_witness:
  "connect_auth demo_genv (hashToken id) (demo_http (''Bearer '' @ demo_token)) (NewGatewayServer ''gw'') demo_polled = Inr ''w9''"
proof -
  have g: "generateToken (Some (demo_raw CHR ''a'')) = Some demo_secret" "generateToken (Some (demo_raw CHR ''b'')) = Some demo_token"
    "length (demo_raw CHR ''a'') = 32" "length (demo_raw CHR ''b'') = 32"
    by (simp_all add: generateToken_def demo_secret_def demo_token_def demo_raw_def)
  have s: "cs_faults (demo_store []) = []" "\<forall>r \<in> set (read_pairing_or_nil (demo_store [])). pr_ID r \<noteq> ''r1''" "''w9'' \<noteq> ''''"
    "(500 :: int) \<le> 100 + PairingTTL" "(900 :: int) \<le> 100 + PairingTTL"
    by (simp_all add: demo_store_def read_pairing_or_nil_def PairingTTL_def)
  have tok: "demo_token \<noteq> ''''" "parseBearerToken (demo_http (''Bearer '' @ demo_token)) = demo_token" "length demo_token = 43"
    using drawn_token [OF g(2)] g(4) by (auto simp: demo_http_def)
  note core = pairing_end_to_end [OF s(1,2) tok(1) s(3,4,5) prod.collapse [symmetric] prod.collapse [symmetric] prod.collapse [symmetric],
      of "hashToken id" demo_secret "[0, 1, 2, 3, 4, 255]" "''box''" "''linux''" "[]",
      folded demo_created_def, folded demo_approved_def, folded demo_polled_def]
  have run: "CreatePairingRequest (hashToken id) (Some demo_secret) ''r1'' [0, 1, 2, 3, 4, 255] 100 ''box'' ''linux'' [] (demo_store [])
      = (Inr (''r1'', demo_secret, generateUserCode [0, 1, 2, 3, 4, 255]), demo_created)"
    "ApprovePairingRequest (hashToken id) (Some demo_token) ''w9'' 500 ''r1'' demo_created = (Inr (), demo_approved)"
    "PollPairingRequest (hashToken id) 900 ''r1'' demo_secret demo_approved = (Inr (PairingStatusApproved, demo_token), demo_polled)"
    using core by (auto simp: demo_created_def demo_approved_def demo_polled_def intro!: prod_eqI)
  obtain v where d: "dial demo_relay (empty_config\<lparr>cfg_Token := demo_token\<rparr>) = Inr (v, Some (''Bearer '' @ demo_token))"
    using tok(1) by (auto simp: dial_def demo_relay_def Let_def)
  have "length demo_token \<noteq> length ''gw''" by (simp add: tok(3))
  then have "demo_token \<noteq> ''gw''" by (rule contrapos_nn) simp
  then have "\<not> checkToken demo_genv ''gw'' (demo_http (''Bearer '' @ demo_token))"
    unfolding checkToken_def tok(2) by (simp add: demo_http_def)
  moreover have "gw_token (NewGatewayServer ''gw'') = ''gw''" by (simp add: NewGatewayServer_def)
  ultimately show ?thesis
    using paired_token_connects [OF s g(3,4) run(1) [folded g(1)] run(2) [folded g(2)] run(3) d,
        of "demo_http (''Bearer '' @ demo_token)" demo_genv "NewGatewayServer ''gw''"]
    by (simp add: demo_http_def)
qed

end
