(* ===== verification/EventStream.thy ===== *)
theory EventStream
  imports Server GatewayProps
begin

text \<open>
  The stream of a run's events as its client reads it: the text that \<^verbatim>\<open>handleRunEvents\<close> of
  \<^verbatim>\<open>pkg/server/server.go\<close> writes, and what the rules for server-sent events make of that text.
  The subscription and the buffer are in \<open>Gateway\<close> and \<open>GatewayProps\<close>; the marshaller to JSON is a
  parameter.
\<close>

subsection \<open>The handler's loop\<close>

text \<open>One turn of the loop: the client has left, something came from the channel, or the ticker fired.\<close>

datatype stream_turn = ClientGone | FromChannel "Envelope option" | Keepalive

definition ping_event :: string where
  "ping_event = ''event: ping'' @ [CHR 0x0A] @ ''data: {}'' @ [CHR 0x0A, CHR 0x0A]"

fun stream_loop :: "(Envelope \<Rightarrow> string option) \<Rightarrow> stream_turn list \<Rightarrow> string" where
  "stream_loop marshal [] = ''''"
| "stream_loop marshal (ClientGone # turns) = ''''"
| "stream_loop marshal (FromChannel env # turns) =
     (case env of None \<Rightarrow> '''' | Some env \<Rightarrow> sse_event marshal env) @ stream_loop marshal turns"
| "stream_loop marshal (Keepalive # turns) = ping_event @ stream_loop marshal turns"

definition stream_body :: "(Envelope \<Rightarrow> string option) \<Rightarrow> Envelope list \<Rightarrow> stream_turn list \<Rightarrow> string" where
  "stream_body marshal history turns = concat (map (sse_event marshal) history) @ stream_loop marshal turns"

subsection \<open>The client\<close>

text \<open>The type and the lines of data of each event; an empty line ends one, an event without data is dropped.\<close>

fun sse_lines :: "string \<Rightarrow> string list \<Rightarrow> string list \<Rightarrow> (string \<times> string list) list" where
  "sse_lines ty data [] = []"
| "sse_lines ty data (l # ls) =
     (if l = '''' then (if data = [] then sse_lines '''' [] ls else (ty, data) # sse_lines '''' [] ls)
      else if prefix ''event: '' l then sse_lines (drop 7 l) data ls
      else if prefix ''data: '' l then sse_lines ty (data @ [drop 6 l]) ls
      else sse_lines ty data ls)"

definition sse_read :: "string \<Rightarrow> (string \<times> string list) list" where
  "sse_read text = sse_lines '''' [] (split_char CHR 0x0A text)"

lemma sse_read_Nil: "sse_read '''' = []"
  by (simp add: sse_read_def)

lemma sse_read_event:
  assumes "CHR 0x0A \<notin> set ty" "CHR 0x0A \<notin> set d"
  shows "sse_read ((''event: '' @ ty) @ CHR 0x0A # (''data: '' @ d) @ CHR 0x0A # CHR 0x0A # rest) = (ty, [d]) # sse_read rest"
proof -
  have "split_char CHR 0x0A ((''event: '' @ ty) @ CHR 0x0A # (''data: '' @ d) @ CHR 0x0A # [] @ CHR 0x0A # rest)
    = [''event: '' @ ty, ''data: '' @ d, []] @ split_char CHR 0x0A rest"
    unfolding split_char_append using assms by (simp add: split_char_none)
  then show ?thesis by (simp add: sse_read_def)
qed

lemma read_ping: "sse_read (ping_event @ rest) = (''ping'', [''{}'']) # sse_read rest"
  using sse_read_event [of "''ping''" "''{}''" rest] by (simp add: ping_event_def)

lemma read_run_event:
  assumes "marshal env = Some b" "CHR 0x0A \<notin> set b"
  shows "sse_read (sse_event marshal env @ rest) = (''run_event'', [b]) # sse_read rest"
  using sse_read_event [of "''run_event''" b rest] assms by (simp add: sse_event_def)

text \<open>What is to be seen of a list of envelopes, and of the turns. One that does not marshal is left out.\<close>

definition as_run_events :: "(Envelope \<Rightarrow> string option) \<Rightarrow> Envelope list \<Rightarrow> (string \<times> string list) list" where
  "as_run_events marshal envs = map (\<lambda>b. (''run_event'', [b])) (List.map_filter marshal envs)"

fun shown :: "(Envelope \<Rightarrow> string option) \<Rightarrow> stream_turn list \<Rightarrow> (string \<times> string list) list" where
  "shown marshal [] = []"
| "shown marshal (ClientGone # turns) = []"
| "shown marshal (FromChannel env # turns) = as_run_events marshal (case env of None \<Rightarrow> [] | Some env \<Rightarrow> [env]) @ shown marshal turns"
| "shown marshal (Keepalive # turns) = (''ping'', [''{}'']) # shown marshal turns"

lemma as_run_events_simps [simp]:
  "as_run_events marshal [] = []"
  "as_run_events marshal (env # envs) =
     (case marshal env of None \<Rightarrow> [] | Some b \<Rightarrow> [(''run_event'', [b])]) @ as_run_events marshal envs"
  "as_run_events marshal (xs @ ys) = as_run_events marshal xs @ as_run_events marshal ys"
  by (simp_all add: as_run_events_def List.map_filter_def split: option.split)

lemma read_stream_body:
  assumes "\<And>env b. marshal env = Some b \<Longrightarrow> CHR 0x0A \<notin> set b"
  shows "sse_read (stream_body marshal history turns) = as_run_events marshal history @ shown marshal turns"
proof -
  have one: "sse_read (sse_event marshal env @ rest) =
      (case marshal env of None \<Rightarrow> [] | Some b \<Rightarrow> [(''run_event'', [b])]) @ sse_read rest" for env rest
  proof (cases "marshal env")
    case None
    then show ?thesis by (simp add: sse_event_def)
  next
    case (Some b)
    with assms show ?thesis by (simp add: read_run_event)
  qed
  have "sse_read (stream_loop marshal turns) = shown marshal turns"
  proof (induction turns)
    case (Cons t turns)
    then show ?case by (cases t) (auto simp: sse_read_Nil read_ping one split: option.split)
  qed (simp add: sse_read_Nil)
  moreover have "sse_read (concat (map (sse_event marshal) history) @ rest) = as_run_events marshal history @ sse_read rest" for rest
    by (induction history) (simp_all add: one)
  ultimately show ?thesis by (simp add: stream_body_def)
qed

fun from_channel :: "stream_turn list \<Rightarrow> Envelope list" where
  "from_channel [] = []"
| "from_channel (ClientGone # turns) = []"
| "from_channel (FromChannel env # turns) = (case env of None \<Rightarrow> [] | Some env \<Rightarrow> [env]) @ from_channel turns"
| "from_channel (Keepalive # turns) = from_channel turns"

text \<open>The client passes over the pings.\<close>

definition run_events_of :: "(string \<times> string list) list \<Rightarrow> (string \<times> string list) list" where
  "run_events_of evs = filter (\<lambda>e. fst e = ''run_event'') evs"

lemma run_events_shown: "run_events_of (as_run_events marshal history @ shown marshal turns) = as_run_events marshal (history @ from_channel turns)"
proof -
  have own: "run_events_of (as_run_events marshal envs) = as_run_events marshal envs" for envs
    by (simp add: run_events_of_def as_run_events_def filter_map comp_def)
  have "run_events_of (shown marshal turns) = as_run_events marshal (from_channel turns)"
  proof (induction turns)
    case (Cons t turns)
    then show ?case
      by (cases t) (auto simp: run_events_of_def split: option.split)
  qed (simp add: run_events_of_def)
  with own [of history] show ?thesis by (simp add: run_events_of_def)
qed

lemma as_run_events_subseq: "subseq xs ys \<Longrightarrow> subseq (as_run_events marshal xs) (as_run_events marshal ys)"
  by (simp add: as_run_events_def List.map_filter_def subseq_map subseq_filter_left subseq_filter)

text \<open>C22: What a client makes of the text it is sent for a run, by the rules of server-sent events and passing over
  the pings, is the run's stored events at the subscription followed by those that have arrived since, but for
  what its buffer still holds: without gap or repetition if it keeps up, and otherwise with gaps but
  never out of order. Envelopes that cannot be marshalled are left out; the marshalled text has no line
  break.\<close>

theorem client_reads_stream:
  assumes "handleRunEvents e r flushes sid ch g = (Inr history, g1)" "sub_run sid ch ops g1 = (got, g2)"
    and "from_channel turns = got"
    and "\<And>env b. marshal env = Some b \<Longrightarrow> CHR 0x0A \<notin> set b"
  shows "\<exists>buf. map_of (gw_subs g2 sid) ch = Some buf
    \<and> subseq (run_events_of (sse_read (stream_body marshal history turns)) @ as_run_events marshal buf)
        (as_run_events marshal (gw_events g sid @ appended ops))
    \<and> (keeps_up 0 ops \<longrightarrow>
        run_events_of (sse_read (stream_body marshal history turns)) @ as_run_events marshal buf
          = as_run_events marshal (gw_events g sid @ appended ops))"
proof -
  have s: "subscribe sid ch g = (history, g1)"
    using assms(1) by (auto simp: handleRunEvents_def split: if_splits prod.splits)
  from subscriber_sees_stream [OF s assms(2)] obtain buf where b: "map_of (gw_subs g2 sid) ch = Some buf"
    "subseq (history @ got @ buf) (gw_events g sid @ appended ops)"
    "keeps_up 0 ops \<longrightarrow> history @ got @ buf = gw_events g sid @ appended ops" by blast
  have t: "run_events_of (sse_read (stream_body marshal history turns)) @ as_run_events marshal buf
      = as_run_events marshal (history @ got @ buf)"
    by (simp add: read_stream_body [OF assms(4)] run_events_shown assms(3) del: append_assoc)
  show ?thesis
    by (rule exI [of _ buf], unfold t) (metis b as_run_events_subseq)
qed


lemma client_reads_stream_witness:
  "run_events_of (sse_read (stream_body (\<lambda>env. Some ''{}'') []
     [Keepalive, FromChannel (Some (demo_env 7 None)), Keepalive])) = [(''run_event'', [''{}''])]"
proof -
  define g1 where "g1 = snd (subscribe ''run-1'' 5 (NewGatewayServer ''''))"
  have h: "handleRunEvents demo_genv (demo_http '''') True ''run-1'' 5 (NewGatewayServer '''') = (Inr [], g1)"
    by (simp add: handleRunEvents_def checkToken_def g1_def subscribe_def NewGatewayServer_def)
  define ops where "ops = [SubAppend (demo_env 7 None) 3, SubReceive]"
  obtain got g2 where r: "sub_run ''run-1'' 5 ops g1 = (got, g2)" by fastforce
  have "fst (sub_run ''run-1'' 5 ops g1) = [demo_env 7 None]" "map_of (gw_subs (snd (sub_run ''run-1'' 5 ops g1)) ''run-1'') 5 = Some []"
    unfolding ops_def g1_def by code_simp+
  with r have got: "got = [demo_env 7 None] \<and> map_of (gw_subs g2 ''run-1'') 5 = Some []" by simp
  from client_reads_stream [OF h r, of "[Keepalive, FromChannel (Some (demo_env 7 None)), Keepalive]" "\<lambda>env. Some ''{}''"] got
  show ?thesis by (auto simp: ops_def subscriber_buffer_def NewGatewayServer_def)
qed

end
