(* ===== verification/FileStore.thy ===== *)
theory FileStore
  imports ConfigStore GoPath Bootstrap
begin

text \<open>
  The files under the stores: how the gateway's store is laid out and its files are written
  (\<^verbatim>\<open>pkg/server/worker_config_store.go\<close>), and the worker's state and configuration files
  (\<^verbatim>\<open>bootstrap_remote.go\<close>, \<^verbatim>\<open>config.go\<close>, \<^verbatim>\<open>config_edit.go\<close>).
  A file system is its files by path; every operation may fail, and a write that fails may leave a
  part of the content behind. What \<open>ConfigStore\<close> assumes of a write, that it takes place entirely or not
  at all, is proved here of the code that writes. Printers and parsers of JSON and YAML are parameters.
\<close>

subsection \<open>Files\<close>

datatype fault = Works | Fails | Torn nat

record fs =
  fs_files :: "string \<Rightarrow> string option"
  fs_faults :: "fault list"

definition next_op :: "fs \<Rightarrow> fault \<times> fs" where
  "next_op f = (case fs_faults f of [] \<Rightarrow> (Works, f) | x # xs \<Rightarrow> (x, f\<lparr>fs_faults := xs\<rparr>))"

definition put_file :: "string \<Rightarrow> string option \<Rightarrow> fs \<Rightarrow> fs" where
  "put_file path content f = f\<lparr>fs_files := (fs_files f)(path := content)\<rparr>"

text \<open>The functions of \<^verbatim>\<open>os\<close>; the result is whether they return without an error.\<close>

definition WriteFile :: "string \<Rightarrow> string \<Rightarrow> fs \<Rightarrow> bool \<times> fs" where
  "WriteFile path b f =
     (case next_op f of
        (Works, f) \<Rightarrow> (True, put_file path (Some b) f)
      | (Fails, f) \<Rightarrow> (False, f)
      | (Torn n, f) \<Rightarrow> (False, put_file path (Some (take n b)) f))"

definition Rename :: "string \<Rightarrow> string \<Rightarrow> fs \<Rightarrow> bool \<times> fs" where
  "Rename old new f =
     (case next_op f of
        (Works, f) \<Rightarrow>
          (case fs_files f old of None \<Rightarrow> (False, f)
           | Some b \<Rightarrow> (True, put_file new (Some b) (if old = new then f else put_file old None f)))
      | (_, f) \<Rightarrow> (False, f))"

definition RemoveFile :: "string \<Rightarrow> fs \<Rightarrow> bool \<times> fs" where
  "RemoveFile path f =
     (case next_op f of
        (Works, f) \<Rightarrow> if fs_files f path = None then (False, f) else (True, put_file path None f)
      | (_, f) \<Rightarrow> (False, f))"

text \<open>\<^verbatim>\<open>os.Stat\<close>: whether the file is there, or another error.\<close>

definition Stat :: "string \<Rightarrow> fs \<Rightarrow> bool option \<times> fs" where
  "Stat path f = (case next_op f of (Works, f) \<Rightarrow> (Some (fs_files f path \<noteq> None), f) | (_, f) \<Rightarrow> (None, f))"

definition MkdirAll :: "string \<Rightarrow> fs \<Rightarrow> bool \<times> fs" where
  "MkdirAll path f = (case next_op f of (Works, f) \<Rightarrow> (True, f) | (_, f) \<Rightarrow> (False, f))"

subsection \<open>The gateway's files\<close>

text \<open>\<^verbatim>\<open>readJSON\<close>, as the store looks at a file.\<close>

definition readJSON :: "(string \<Rightarrow> 'a option) \<Rightarrow> string \<Rightarrow> fs \<Rightarrow> 'a json_file" where
  "readJSON parse path f =
     (case fs_files f path of None \<Rightarrow> Missing
      | Some b \<Rightarrow> (case parse b of None \<Rightarrow> Corrupt | Some v \<Rightarrow> Present v))"

text \<open>\<open>render\<close> is \<^verbatim>\<open>json.MarshalIndent\<close>, \<open>now\<close> the time in nanoseconds.\<close>

definition writeJSONAtomic :: "('a \<Rightarrow> string) \<Rightarrow> string \<Rightarrow> 'a \<Rightarrow> int \<Rightarrow> fs \<Rightarrow> bool \<times> fs" where
  "writeJSONAtomic render path v now f =
     (let b = render v @ [CHR 0x0A];
          tmp = path @ ''.tmp.'' @ dec_of_int now;
          (ok, f) = WriteFile tmp b f
      in if \<not> ok then (False, f) else Rename tmp path f)"

definition ensureJSONFile :: "('a \<Rightarrow> string) \<Rightarrow> string \<Rightarrow> 'a \<Rightarrow> int \<Rightarrow> fs \<Rightarrow> bool \<times> fs" where
  "ensureJSONFile render path v now f =
     (case Stat path f of
        (None, f) \<Rightarrow> (False, f)
      | (Some True, f) \<Rightarrow> (True, f)
      | (Some False, f) \<Rightarrow> writeJSONAtomic render path v now f)"

definition pairing_path :: "string \<Rightarrow> string" where
  "pairing_path dir = Join [dir, ''pairing_requests.json'']"

definition index_path :: "string \<Rightarrow> string" where
  "index_path dir = Join [dir, ''worker_index.json'']"

definition enroll_path :: "string \<Rightarrow> string" where
  "enroll_path dir = Join [dir, ''enroll_tokens.json'']"

definition ensureLayoutFiles ::
    "(PairingRequest list \<Rightarrow> string) \<Rightarrow> (worker_index \<Rightarrow> string) \<Rightarrow> string \<Rightarrow> int \<Rightarrow> int \<Rightarrow> fs \<Rightarrow> bool \<times> fs" where
  "ensureLayoutFiles renderP renderI dir now1 now2 f =
     (let (ok, f) = MkdirAll (Join [dir, ''workers'']) f in
      if \<not> ok then (False, f)
      else
        (let (ok, f) = ensureJSONFile renderP (pairing_path dir) [] now1 f in
         if \<not> ok then (False, f)
         else
           (let (ok, f) = ensureJSONFile renderI (index_path dir) (Some []) now2 f in
            if \<not> ok then (False, f)
            else (True, snd (RemoveFile (enroll_path dir) f)))))"

text \<open>The directory of the store, if it can be made.\<close>

definition NewWorkerConfigStore ::
    "(PairingRequest list \<Rightarrow> string) \<Rightarrow> (worker_index \<Rightarrow> string) \<Rightarrow> string \<Rightarrow> int \<Rightarrow> int \<Rightarrow> fs \<Rightarrow> string option \<times> fs" where
  "NewWorkerConfigStore renderP renderI dir now1 now2 f =
     (let dir = Clean (if dir = '''' then ''./data'' else dir);
          (ok, f) = ensureLayoutFiles renderP renderI dir now1 now2 f
      in (if ok then Some dir else None, f))"

subsection \<open>The worker's files\<close>

text \<open>\<^verbatim>\<open>os.ReadFile\<close>, without a content where it fails.\<close>

definition ReadFile :: "string \<Rightarrow> fs \<Rightarrow> string option" where
  "ReadFile path f = fs_files f path"

definition readBootstrapState :: "(string \<Rightarrow> bootstrapState option) \<Rightarrow> string \<Rightarrow> fs \<Rightarrow> bootstrapState option" where
  "readBootstrapState parse path f = (case ReadFile path f of None \<Rightarrow> None | Some b \<Rightarrow> parse b)"

definition writeBootstrapState :: "(bootstrapState \<Rightarrow> string) \<Rightarrow> string \<Rightarrow> bootstrapState \<Rightarrow> fs \<Rightarrow> bool \<times> fs" where
  "writeBootstrapState render path st f =
     (let b = render st @ [CHR 0x0A];
          tmp = path @ ''.tmp'';
          (ok, f) = WriteFile tmp b f
      in if \<not> ok then (False, f) else Rename tmp path f)"

definition LoadConfig :: "(string \<Rightarrow> Config option) \<Rightarrow> string \<Rightarrow> fs \<Rightarrow> Config option" where
  "LoadConfig parse path f = (case ReadFile path f of None \<Rightarrow> None | Some b \<Rightarrow> parse b)"

definition SaveConfig :: "(Config \<Rightarrow> string option) \<Rightarrow> string \<Rightarrow> Config \<Rightarrow> fs \<Rightarrow> bool \<times> fs" where
  "SaveConfig render path cfg f = (case render cfg of None \<Rightarrow> (False, f) | Some b \<Rightarrow> WriteFile path b f)"

subsection \<open>Writing through a temporary file\<close>

lemma next_op_files: "next_op f = (x, f1) \<Longrightarrow> fs_files f1 = fs_files f"
  by (auto simp: next_op_def split: list.splits)

lemma WriteFile_cases:
  assumes "WriteFile path b f = (ok, f')"
  shows "ok \<and> fs_files f' = (fs_files f)(path \<mapsto> b) \<or>
    \<not> ok \<and> (fs_files f' = fs_files f \<or> (\<exists>n. fs_files f' = (fs_files f)(path \<mapsto> take n b)))"
  using assms by (auto simp: WriteFile_def put_file_def dest!: next_op_files split: prod.splits fault.splits)

lemma Rename_cases:
  assumes "Rename old new f = (ok, f')" "old \<noteq> new"
  shows "ok \<and> (\<exists>b. fs_files f old = Some b \<and> fs_files f' = (fs_files f)(old := None, new \<mapsto> b)) \<or>
    \<not> ok \<and> fs_files f' = fs_files f"
  using assms by (auto simp: Rename_def put_file_def dest!: next_op_files split: prod.splits fault.splits option.splits)

text \<open>Written by way of \<open>tmp\<close>, a file is replaced or left as it was, whatever fails; so it is between the
  two operations, where a crash may come.\<close>

lemma replace_file:
  assumes "WriteFile tmp b f = (ok1, f1)" "(if \<not> ok1 then (False, f1) else Rename tmp path f1) = (ok, f')" "tmp \<noteq> path"
  shows "fs_files f' path = (if ok then Some b else fs_files f path) \<and> fs_files f1 path = fs_files f path
    \<and> (\<forall>p. p \<noteq> path \<and> p \<noteq> tmp \<longrightarrow> fs_files f' p = fs_files f p)"
  using WriteFile_cases [OF assms(1)] Rename_cases [of tmp path f1 ok f'] assms(2,3)
  by (auto split: if_splits)

lemma writeJSONAtomic_file:
  assumes "writeJSONAtomic render path v now f = (ok, f')"
  shows "fs_files f' path = (if ok then Some (render v @ [CHR 0x0A]) else fs_files f path)
    \<and> (\<forall>p. p \<noteq> path \<and> p \<noteq> path @ ''.tmp.'' @ dec_of_int now \<longrightarrow> fs_files f' p = fs_files f p)"
proof -
  obtain ok1 f1 where w: "WriteFile (path @ ''.tmp.'' @ dec_of_int now) (render v @ [CHR 0x0A]) f = (ok1, f1)" by fastforce
  from assms have "(if \<not> ok1 then (False, f1) else Rename (path @ ''.tmp.'' @ dec_of_int now) path f1) = (ok, f')"
    unfolding writeJSONAtomic_def Let_def w by simp
  from replace_file [OF w this] show ?thesis by blast
qed

subsection \<open>The paths of the store\<close>

definition worker_path :: "string \<Rightarrow> string \<Rightarrow> string" where
  "worker_path dir wid = Join [dir, ''workers'', wid @ ''.json'']"

text \<open>An identifier that is one word of a path.\<close>

definition plain_id :: "string \<Rightarrow> bool" where
  "plain_id wid \<longleftrightarrow> CHR ''/'' \<notin> set wid"

lemma plain_file: "plain_id wid \<Longrightarrow> child_name (wid @ ''.json'')"
  by (auto simp: plain_id_def child_name_def path_word_def append_eq_Cons_conv)

lemma join_snoc: "ws \<noteq> [] \<Longrightarrow> join ''/'' (ws @ [w]) = join ''/'' ws @ ''/'' @ w"
proof (induction ws)
  case (Cons v ws)
  then show ?case by (cases ws) simp_all
qed simp

lemma path_ends: "suffix w (path_string r (ws @ [w]))"
  by (cases "ws = []") (auto simp: path_string_def join_snoc suffix_def)

lemma clean_ends: "path_comps (Clean s) = ws @ [w] \<Longrightarrow> suffix w (Clean s)"
  unfolding Clean_reads unfolding Clean_def using path_ends [of w "rooted s" ws] by simp

lemma worker_comps:
  assumes "dir \<noteq> ''''" "plain_id wid"
  shows "path_comps (worker_path dir wid) = path_comps dir @ [''workers'', wid @ ''.json'']"
proof -
  have "worker_path dir wid = Join [dir, ''workers/'' @ wid @ ''.json'']"
    using assms(1) by (simp add: worker_path_def Join_def)
  moreover have "path_words (''workers/'' @ wid @ ''.json'') = [''workers'', wid @ ''.json'']"
    using path_words_join [of "[''workers'', wid @ ''.json'']"] plain_file [OF assms(2)]
    by (simp add: child_name_def path_word_def)
  ultimately show ?thesis
    using Join_words(2) [OF assms(1), of "''workers/'' @ wid @ ''.json''"] plain_file [OF assms(2)]
    by (simp add: child_name_def)
qed


lemma store_files:
  "child_name ''pairing_requests.json''" "child_name ''worker_index.json''" "child_name ''enroll_tokens.json''"
  by (simp_all add: child_name_def path_word_def)

lemma store_comps:
  assumes "dir \<noteq> ''''"
  shows "path_comps (pairing_path dir) = path_comps dir @ [''pairing_requests.json'']"
    "path_comps (index_path dir) = path_comps dir @ [''worker_index.json'']"
    "path_comps (enroll_path dir) = path_comps dir @ [''enroll_tokens.json'']"
  unfolding pairing_path_def index_path_def enroll_path_def
  by (rule Join_child(2) [OF assms] store_files)+

lemma store_paths_distinct:
  assumes "dir \<noteq> ''''"
  shows "pairing_path dir \<noteq> index_path dir" "pairing_path dir \<noteq> enroll_path dir" "index_path dir \<noteq> enroll_path dir"
    and "plain_id wid \<Longrightarrow> worker_path dir wid \<notin> {pairing_path dir, index_path dir, enroll_path dir}"
    and "plain_id wid \<Longrightarrow> plain_id wid' \<Longrightarrow> worker_path dir wid = worker_path dir wid' \<Longrightarrow> wid = wid'"
proof -
  note c = store_comps [OF assms] worker_comps [OF assms]
  have neq: "path_comps s \<noteq> path_comps t \<Longrightarrow> s \<noteq> t" for s t by auto
  show "pairing_path dir \<noteq> index_path dir" "pairing_path dir \<noteq> enroll_path dir" "index_path dir \<noteq> enroll_path dir"
    by (rule neq, simp add: c)+
  show "worker_path dir wid \<notin> {pairing_path dir, index_path dir, enroll_path dir}" if "plain_id wid"
  proof -
    have "length (path_comps (worker_path dir wid)) = Suc (length (path_comps p))"
      if "p \<in> {pairing_path dir, index_path dir, enroll_path dir}" for p
      using that c \<open>plain_id wid\<close> by auto
    then show ?thesis by fastforce
  qed
  show "wid = wid'" if "plain_id wid" "plain_id wid'" "worker_path dir wid = worker_path dir wid'"
  proof -
    have "path_comps dir @ [''workers'', wid @ ''.json''] = path_comps dir @ [''workers'', wid' @ ''.json'']"
      using arg_cong [OF that(3), of path_comps] unfolding c(4) [OF that(1)] c(4) [OF that(2)] .
    then show ?thesis by simp
  qed
qed

text \<open>A temporary file ends in a digit, so it is none of the store's files.\<close>

definition json_path :: "string \<Rightarrow> bool" where
  "json_path p \<longleftrightarrow> suffix ''.json'' p"

lemma store_json:
  assumes "dir \<noteq> ''''"
  shows "json_path (pairing_path dir)" "json_path (index_path dir)" "json_path (enroll_path dir)"
    and "plain_id wid \<Longrightarrow> json_path (worker_path dir wid)"
proof -
  have j: "json_path (Clean s)" if "path_comps (Clean s) = ws @ [w @ ''.json'']" for s ws w
    using clean_ends [OF that] by (auto simp: json_path_def suffix_def)
  have cl: "Clean (Join (dir # parts)) = Join (dir # parts)" for parts using assms by (simp add: Join_def)
  show "json_path (pairing_path dir)" "json_path (index_path dir)" "json_path (enroll_path dir)"
    using j [of "pairing_path dir" "path_comps dir" "''pairing_requests''"] j [of "index_path dir" "path_comps dir" "''worker_index''"]
      j [of "enroll_path dir" "path_comps dir" "''enroll_tokens''"] store_comps [OF assms] cl
    by (simp_all add: pairing_path_def index_path_def enroll_path_def)
  show "json_path (worker_path dir wid)" if "plain_id wid"
    using j [of "worker_path dir wid" "path_comps dir @ [''workers'']" wid] worker_comps [OF assms that] cl
    by (simp add: worker_path_def)
qed

lemma tmp_not_json:
  assumes "0 \<le> now"
  shows "\<not> json_path (path @ ''.tmp.'' @ dec_of_int now)"
proof
  assume "json_path (path @ ''.tmp.'' @ dec_of_int now)"
  then obtain zs where "path @ ''.tmp.'' @ dec_of_int now = zs @ ''.json''" unfolding json_path_def suffix_def by blast
  then have "last (path @ ''.tmp.'' @ dec_of_int now) = last (zs @ ''.json'')" by (rule arg_cong)
  then have "last (path @ ''.tmp.'' @ dec_of_int now) = CHR ''n''" by simp
  moreover have "is_digit (last (path @ ''.tmp.'' @ dec_of_int now))"
    using assms dec_of_nat_digits [of "nat now"] dec_of_nat_nonempty [of "nat now"]
    by (simp add: dec_of_int_def list_all_iff)
  ultimately show False by (simp add: is_digit_def)
qed

subsection \<open>The store's files and the store\<close>

text \<open>The store's state, as the files show it.\<close>

definition files_show ::
    "(string \<Rightarrow> PairingRequest list option) \<Rightarrow> (string \<Rightarrow> worker_index option) \<Rightarrow> (string \<Rightarrow> WorkerRecord option)
     \<Rightarrow> string \<Rightarrow> fs \<Rightarrow> config_store \<Rightarrow> bool" where
  "files_show parseP parseI parseW dir f s \<longleftrightarrow>
     cs_pairing s = readJSON parseP (pairing_path dir) f
   \<and> cs_index s = readJSON parseI (index_path dir) f
   \<and> cs_enroll s = (fs_files f (enroll_path dir) \<noteq> None)
   \<and> (\<forall>wid. plain_id wid \<longrightarrow> worker_file s wid = readJSON parseW (worker_path dir wid) f)"


text \<open>A change of the store, on the files and on the state; the first result is whether it succeeds.\<close>

datatype store_write =
    WriteIndex worker_index
  | WritePairing "PairingRequest list"
  | WriteWorker string WorkerRecord
  | RemoveWorker string

fun on_files ::
    "(PairingRequest list \<Rightarrow> string) \<Rightarrow> (worker_index \<Rightarrow> string) \<Rightarrow> (WorkerRecord \<Rightarrow> string) \<Rightarrow> string
     \<Rightarrow> store_write \<Rightarrow> int \<Rightarrow> fs \<Rightarrow> bool \<times> fs" where
  "on_files renderP renderI renderW dir (WriteIndex ix) now f = writeJSONAtomic renderI (index_path dir) ix now f"
| "on_files renderP renderI renderW dir (WritePairing ps) now f = writeJSONAtomic renderP (pairing_path dir) ps now f"
| "on_files renderP renderI renderW dir (WriteWorker wid r) now f = writeJSONAtomic renderW (worker_path dir wid) r now f"
| "on_files renderP renderI renderW dir (RemoveWorker wid) now f = RemoveFile (worker_path dir wid) f"

fun in_store :: "store_write \<Rightarrow> config_store \<Rightarrow> bool \<times> config_store" where
  "in_store (WriteIndex ix) s = write_index ix s"
| "in_store (WritePairing ps) s = write_pairing ps s"
| "in_store (WriteWorker wid r) s = write_worker wid r s"
| "in_store (RemoveWorker wid) s = remove_worker wid s"

fun plain_write :: "store_write \<Rightarrow> bool" where
  "plain_write (WriteWorker wid r) = plain_id wid"
| "plain_write (RemoveWorker wid) = plain_id wid"
| "plain_write _ = True"

fun files_run ::
    "(PairingRequest list \<Rightarrow> string) \<Rightarrow> (worker_index \<Rightarrow> string) \<Rightarrow> (WorkerRecord \<Rightarrow> string) \<Rightarrow> string
     \<Rightarrow> (store_write \<times> int) list \<Rightarrow> fs \<Rightarrow> bool list \<times> fs" where
  "files_run renderP renderI renderW dir [] f = ([], f)"
| "files_run renderP renderI renderW dir ((w, now) # ws) f =
     (let (ok, f) = on_files renderP renderI renderW dir w now f;
          (oks, f) = files_run renderP renderI renderW dir ws f
      in (ok # oks, f))"

fun store_run :: "store_write list \<Rightarrow> config_store \<Rightarrow> bool list \<times> config_store" where
  "store_run [] s = ([], s)"
| "store_run (w # ws) s = (let (ok, s) = in_store w s; (oks, s) = store_run ws s in (ok # oks, s))"

lemma RemoveFile_cases:
  assumes "RemoveFile path f = (ok, f')"
  shows "fs_files f' = (if ok then (fs_files f)(path := None) else fs_files f)"
  using assms by (auto simp: RemoveFile_def put_file_def dest!: next_op_files split: prod.splits fault.splits if_splits)

lemma in_store_fault:
  "cs_faults s = True # rest \<Longrightarrow> in_store w s = (False, s\<lparr>cs_faults := rest\<rparr>)"
  "cs_faults s = False # rest \<Longrightarrow> fst (in_store w s) \<and> cs_faults (snd (in_store w s)) = rest"
  by (cases w; simp add: write_index_def write_pairing_def write_worker_def remove_worker_def next_fault_def)+

lemma worker_file_update:
  "worker_file (s\<lparr>cs_workers := AList.update wid x (cs_workers s)\<rparr>) v = (if v = wid then x else worker_file s v)"
  "worker_file (s\<lparr>cs_workers := AList.delete wid (cs_workers s)\<rparr>) v = (if v = wid then Missing else worker_file s v)"
  by (simp_all add: worker_file_def update_conv' delete_conv')

lemma worker_file_other:
  "worker_file (s\<lparr>cs_index := x\<rparr>) v = worker_file s v" "worker_file (s\<lparr>cs_pairing := y\<rparr>) v = worker_file s v"
  "worker_file (s\<lparr>cs_faults := z\<rparr>) v = worker_file s v"
  by (simp_all add: worker_file_def)

text \<open>Files that a change does not name show what they did.\<close>

lemma files_show_same:
  assumes "files_show parseP parseI parseW dir f s" "\<And>p. json_path p \<Longrightarrow> fs_files f' p = fs_files f p" "dir \<noteq> ''''"
  shows "files_show parseP parseI parseW dir f' (s\<lparr>cs_faults := rest\<rparr>)"
  using assms store_json [OF assms(3)] by (simp add: files_show_def readJSON_def worker_file_def)

lemma json_write_other:
  assumes "writeJSONAtomic render path v now f = (ok, f')" "0 \<le> now" "json_path p" "p \<noteq> path \<or> \<not> ok"
  shows "fs_files f' p = fs_files f p"
proof (cases "p = path")
  case True
  with assms(4) writeJSONAtomic_file [OF assms(1)] show ?thesis by simp
next
  case False
  moreover have "p \<noteq> path @ ''.tmp.'' @ dec_of_int now" using tmp_not_json [OF assms(2)] assms(3) by blast
  ultimately show ?thesis using writeJSONAtomic_file [OF assms(1)] by blast
qed

lemma json_write_reads:
  assumes "writeJSONAtomic render path v now f = (True, f')" "parse (render v @ [CHR 0x0A]) = Some v"
  shows "readJSON parse path f' = Present v"
  using writeJSONAtomic_file [OF assms(1)] assms(2) by (simp add: readJSON_def)

lemma readJSON_same: "fs_files f' p = fs_files f p \<Longrightarrow> readJSON parse p f' = readJSON parse p f"
  by (simp add: readJSON_def)

fun write_path :: "string \<Rightarrow> store_write \<Rightarrow> string" where
  "write_path dir (WriteIndex ix) = index_path dir"
| "write_path dir (WritePairing ps) = pairing_path dir"
| "write_path dir (WriteWorker wid r) = worker_path dir wid"
| "write_path dir (RemoveWorker wid) = worker_path dir wid"

text \<open>Of the store's files, a change changes the one it is about, if it succeeds.\<close>

lemma on_files_other:
  assumes "on_files renderP renderI renderW dir w now f = (ok, f')" "0 \<le> now" "json_path p" "p \<noteq> write_path dir w \<or> \<not> ok"
  shows "fs_files f' p = fs_files f p"
proof (cases w)
  case (RemoveWorker wid)
  with assms(1) have "RemoveFile (worker_path dir wid) f = (ok, f')" by simp
  from RemoveFile_cases [OF this] assms(4) RemoveWorker show ?thesis by auto
qed (use assms(1,4) json_write_other [OF _ assms(2,3)] in simp_all)

text \<open>What the change writes is read back as it was.\<close>

fun reads_back ::
    "(string \<Rightarrow> PairingRequest list option) \<Rightarrow> (string \<Rightarrow> worker_index option) \<Rightarrow> (string \<Rightarrow> WorkerRecord option)
     \<Rightarrow> (PairingRequest list \<Rightarrow> string) \<Rightarrow> (worker_index \<Rightarrow> string) \<Rightarrow> (WorkerRecord \<Rightarrow> string) \<Rightarrow> store_write \<Rightarrow> bool" where
  "reads_back parseP parseI parseW renderP renderI renderW (WriteIndex ix) \<longleftrightarrow> parseI (renderI ix @ [CHR 0x0A]) = Some ix"
| "reads_back parseP parseI parseW renderP renderI renderW (WritePairing ps) \<longleftrightarrow> parseP (renderP ps @ [CHR 0x0A]) = Some ps"
| "reads_back parseP parseI parseW renderP renderI renderW (WriteWorker wid r) \<longleftrightarrow> parseW (renderW r @ [CHR 0x0A]) = Some r"
| "reads_back parseP parseI parseW renderP renderI renderW (RemoveWorker wid) \<longleftrightarrow> True"

lemma on_files_written:
  assumes "on_files renderP renderI renderW dir w now f = (True, f')"
    and "reads_back parseP parseI parseW renderP renderI renderW w"
  shows "case w of WriteIndex ix \<Rightarrow> readJSON parseI (index_path dir) f' = Present ix
    | WritePairing ps \<Rightarrow> readJSON parseP (pairing_path dir) f' = Present ps
    | WriteWorker wid r \<Rightarrow> readJSON parseW (worker_path dir wid) f' = Present r
    | RemoveWorker wid \<Rightarrow> readJSON parseW (worker_path dir wid) f' = Missing"
proof (cases w)
  case (RemoveWorker wid)
  with assms(1) have "RemoveFile (worker_path dir wid) f = (True, f')" by simp
  from RemoveFile_cases [OF this] RemoveWorker show ?thesis by (simp add: readJSON_def)
qed (use assms in \<open>simp_all add: json_write_reads [where parse = parseI and render = renderI]
      json_write_reads [where parse = parseP and render = renderP] json_write_reads [where parse = parseW and render = renderW]\<close>)

lemma write_refines:
  assumes "files_show parseP parseI parseW dir f s" "dir \<noteq> ''''" "0 \<le> now" "plain_write w"
    and "reads_back parseP parseI parseW renderP renderI renderW w"
    and "on_files renderP renderI renderW dir w now f = (ok, f')" "cs_faults s = (\<not> ok) # rest"
  shows "fst (in_store w s) = ok \<and> files_show parseP parseI parseW dir f' (snd (in_store w s)) \<and> cs_faults (snd (in_store w s)) = rest"
proof (cases ok)
  case False
  then have "fs_files f' p = fs_files f p" if "json_path p" for p
    using on_files_other [OF assms(6,3) that] by simp
  with files_show_same [OF assms(1) _ assms(2)] False in_store_fault(1) [of s rest w] assms(7) show ?thesis by simp
next
  case True
  note distinct = store_paths_distinct [OF assms(2)]
  have same: "fs_files f' p = fs_files f p"
    if "p \<noteq> write_path dir w" "p \<in> {pairing_path dir, index_path dir, enroll_path dir} \<or> (\<exists>v. plain_id v \<and> p = worker_path dir v)" for p
    using on_files_other [OF assms(6,3), of p] that store_json [OF assms(2)] by auto
  have neq: "plain_id v \<Longrightarrow> p \<in> {pairing_path dir, index_path dir, enroll_path dir} \<Longrightarrow> p \<noteq> worker_path dir v" for v p
    using distinct(4) by blast
  have written: "case w of WriteIndex ix \<Rightarrow> readJSON parseI (index_path dir) f' = Present ix
    | WritePairing ps \<Rightarrow> readJSON parseP (pairing_path dir) f' = Present ps
    | WriteWorker wid r \<Rightarrow> readJSON parseW (worker_path dir wid) f' = Present r
    | RemoveWorker wid \<Rightarrow> readJSON parseW (worker_path dir wid) f' = Missing"
    by (rule on_files_written [OF _ assms(5)]) (use assms(6) True in simp)
  have "readJSON parseP (pairing_path dir) f' = (case w of WritePairing ps \<Rightarrow> Present ps | _ \<Rightarrow> readJSON parseP (pairing_path dir) f)"
    using written same [of "pairing_path dir"] distinct(1) neq assms(4) by (cases w) (auto simp: readJSON_def)
  moreover have "readJSON parseI (index_path dir) f' = (case w of WriteIndex ix \<Rightarrow> Present ix | _ \<Rightarrow> readJSON parseI (index_path dir) f)"
    using written same [of "index_path dir"] distinct(1) neq assms(4) by (cases w) (auto simp: readJSON_def)
  moreover have "fs_files f' (enroll_path dir) = fs_files f (enroll_path dir)"
    using same [of "enroll_path dir"] distinct(2,3) neq assms(4) by (cases w) auto
  moreover have "readJSON parseW (worker_path dir v) f' =
      (case w of WriteWorker wid r \<Rightarrow> if v = wid then Present r else readJSON parseW (worker_path dir v) f
       | RemoveWorker wid \<Rightarrow> if v = wid then Missing else readJSON parseW (worker_path dir v) f
       | _ \<Rightarrow> readJSON parseW (worker_path dir v) f)" if "plain_id v" for v
  proof -
    have "fs_files f' (worker_path dir v) = fs_files f (worker_path dir v)" if "worker_path dir v \<noteq> write_path dir w"
      using same [OF that] \<open>plain_id v\<close> by blast
    moreover have "worker_path dir v \<noteq> worker_path dir u" if "plain_id u" "v \<noteq> u" for u
      using distinct(5) [OF \<open>plain_id v\<close> that(1)] that(2) by blast
    ultimately show ?thesis using written distinct(4) [OF that] assms(4) by (cases w) (auto simp: readJSON_def)
  qed
  moreover have "cs_faults s = False # rest" using assms(7) True by simp
  ultimately show ?thesis
    using assms(1) True
    by (cases w) (simp_all add: files_show_def write_index_def write_pairing_def write_worker_def remove_worker_def
        next_fault_def worker_file_update worker_file_other)
qed


text \<open>C16: The files implement the store. Any sequence of writes of the index, of the pairing requests and of workers' files,
  and of removals of these, whatever operation on the file system fails and however much of a failed write is
  left behind, ends with the results and the view of the same sequence on the store, where a change that
  failed has changed nothing.\<close>

theorem files_refine_store:
  assumes "files_show parseP parseI parseW dir f s" "dir \<noteq> ''''" "\<forall>(w, now) \<in> set ws. plain_write w \<and> 0 \<le> now"
    and "\<forall>(w, now) \<in> set ws. reads_back parseP parseI parseW renderP renderI renderW w"
    and "files_run renderP renderI renderW dir ws f = (oks, f')" "cs_faults s = map Not oks"
  shows "\<exists>s'. store_run (map fst ws) s = (oks, s') \<and> files_show parseP parseI parseW dir f' s'"
  using assms(1,3-6)
proof (induction ws arbitrary: f s oks)
  case (Cons x ws)
  obtain w now where x: "x = (w, now)" by fastforce
  obtain ok f1 oks1 where r: "on_files renderP renderI renderW dir w now f = (ok, f1)"
    "files_run renderP renderI renderW dir ws f1 = (oks1, f')" "oks = ok # oks1"
    using Cons.prems(4) by (auto simp: x split: prod.splits)
  from write_refines [OF Cons.prems(1) assms(2) _ _ _ r(1), where rest = "map Not oks1"] Cons.prems(2,3,5)
  have one: "fst (in_store w s) = ok" "files_show parseP parseI parseW dir f1 (snd (in_store w s))" "cs_faults (snd (in_store w s)) = map Not oks1"
    by (simp_all add: x r(3))
  from Cons.IH [OF one(2) _ _ r(2) one(3)] Cons.prems(2,3) obtain s' where
    "store_run (map fst ws) (snd (in_store w s)) = (oks1, s')" "files_show parseP parseI parseW dir f' s'" by auto
  with one(1) show ?case by (auto simp: x r(3) split: prod.splits)
qed simp

subsection \<open>Starting the gateway\<close>

lemma ensureJSONFile_file:
  assumes "ensureJSONFile render path v now f = (ok, f')" "0 \<le> now" "json_path path"
  shows "\<And>p. json_path p \<Longrightarrow> fs_files f p \<noteq> None \<Longrightarrow> fs_files f' p = fs_files f p"
    and "\<And>p. json_path p \<Longrightarrow> p \<noteq> path \<Longrightarrow> fs_files f' p = fs_files f p"
    and "ok \<Longrightarrow> fs_files f' path = (case fs_files f path of None \<Rightarrow> Some (render v @ [CHR 0x0A]) | Some b \<Rightarrow> Some b)"
proof -
  obtain there f1 where st: "Stat path f = (there, f1)" by fastforce
  have s: "fs_files f1 = fs_files f" "there \<in> {None, Some (fs_files f path \<noteq> None)}"
    using st by (auto simp: Stat_def dest!: next_op_files split: prod.splits fault.splits)
  have cases: "fs_files f' = fs_files f \<and> (ok \<longrightarrow> fs_files f path \<noteq> None)
    \<or> fs_files f path = None \<and> writeJSONAtomic render path v now f1 = (ok, f')"
    using assms(1) s by (auto simp: ensureJSONFile_def st split: option.splits bool.splits)
  show same: "fs_files f' p = fs_files f p" if "json_path p" "p \<noteq> path" for p
    using cases json_write_other [of render path v now f1 ok f' p] assms(2) that s(1) by auto
  show "fs_files f' p = fs_files f p" if "json_path p" "fs_files f p \<noteq> None" for p
    using cases same [OF that(1)] that(2) by (cases "p = path") auto
  show "fs_files f' path = (case fs_files f path of None \<Rightarrow> Some (render v @ [CHR 0x0A]) | Some b \<Rightarrow> Some b)" if ok
    using cases that writeJSONAtomic_file s(1) by (fastforce split: option.split)
qed

lemma Clean_nonempty: "Clean s \<noteq> ''''"
proof -
  have "join ''/'' ws \<noteq> ''''" if "list_all path_word ws" "ws \<noteq> []" for ws
    using that by (cases ws; cases "tl ws") (auto simp: path_word_def)
  then show ?thesis using comps_good [of s] by (auto simp: Clean_def path_string_def)
qed

lemma layout_stages:
  assumes "ensureLayoutFiles renderP renderI store now1 now2 f = (ok, f')"
  obtains f1 ok2 f2 ok3 f3 ok4 f4 where "fs_files f1 = fs_files f"
    "ensureJSONFile renderP (pairing_path store) [] now1 f1 = (ok2, f2)"
    "ensureJSONFile renderI (index_path store) (Some []) now2 f2 = (ok3, f3)" "RemoveFile (enroll_path store) f3 = (ok4, f4)"
    "\<not> ok \<and> f' \<in> {f1, f2, f3} \<or> ok \<and> ok2 \<and> ok3 \<and> f' = f4"
proof -
  obtain ok1 f1 where m: "MkdirAll (Join [store, ''workers'']) f = (ok1, f1)" by fastforce
  then have 1: "fs_files f1 = fs_files f" by (auto simp: MkdirAll_def dest!: next_op_files split: prod.splits fault.splits)
  obtain ok2 f2 where p: "ensureJSONFile renderP (pairing_path store) [] now1 f1 = (ok2, f2)" by fastforce
  obtain ok3 f3 where i: "ensureJSONFile renderI (index_path store) (Some []) now2 f2 = (ok3, f3)" by fastforce
  obtain ok4 f4 where r: "RemoveFile (enroll_path store) f3 = (ok4, f4)" by fastforce
  show thesis
    by (rule that [OF 1 p i r]) (use assms in \<open>auto simp: ensureLayoutFiles_def m p i r Let_def split: if_splits\<close>)
qed

text \<open>C17: A start of the gateway keeps every file of the store that is there, whatever is in it and whatever fails,
  except the file of old enrolment tokens, and creates none but the two lists; where it succeeds, the
  lists are there, empty if they were missing.\<close>

theorem start_keeps_store:
  assumes "NewWorkerConfigStore renderP renderI dir now1 now2 f = (res, f')" "0 \<le> now1" "0 \<le> now2"
    and "store = Clean (if dir = '''' then ''./data'' else dir)"
    and "parseP (renderP [] @ [CHR 0x0A]) = Some []" "parseI (renderI (Some []) @ [CHR 0x0A]) = Some (Some [])"
  shows "(\<forall>p. json_path p \<and> p \<noteq> enroll_path store \<and> fs_files f p \<noteq> None \<longrightarrow> fs_files f' p = fs_files f p)
    \<and> (\<forall>p. json_path p \<and> p \<notin> {pairing_path store, index_path store} \<and> fs_files f p = None \<longrightarrow> fs_files f' p = None)
    \<and> (res \<noteq> None \<longrightarrow> res = Some store
        \<and> readJSON parseP (pairing_path store) f' = (case readJSON parseP (pairing_path store) f of Missing \<Rightarrow> Present [] | x \<Rightarrow> x)
        \<and> readJSON parseI (index_path store) f' = (case readJSON parseI (index_path store) f of Missing \<Rightarrow> Present (Some []) | x \<Rightarrow> x))"
proof -
  have ne: "store \<noteq> ''''" unfolding assms(4) by (rule Clean_nonempty)
  note json = store_json [OF ne]
  note distinct = store_paths_distinct [OF ne]
  obtain ok where e: "ensureLayoutFiles renderP renderI store now1 now2 f = (ok, f')" "res = (if ok then Some store else None)"
    using assms(1) unfolding NewWorkerConfigStore_def Let_def assms(4) by (auto split: prod.splits)
  obtain f1 ok2 f2 ok3 f3 ok4 f4 where 1: "fs_files f1 = fs_files f"
    and p: "ensureJSONFile renderP (pairing_path store) [] now1 f1 = (ok2, f2)"
    and i: "ensureJSONFile renderI (index_path store) (Some []) now2 f2 = (ok3, f3)"
    and r: "RemoveFile (enroll_path store) f3 = (ok4, f4)"
    and cases: "\<not> ok \<and> f' \<in> {f1, f2, f3} \<or> ok \<and> ok2 \<and> ok3 \<and> f' = f4"
    by (rule layout_stages [OF e(1)])
  note P = ensureJSONFile_file [OF p assms(2) json(1), unfolded 1]
  note I = ensureJSONFile_file [OF i assms(3) json(2)]
  have R: "p \<noteq> enroll_path store \<Longrightarrow> fs_files f4 p = fs_files f3 p" "fs_files f3 p = None \<Longrightarrow> fs_files f4 p = None" for p
    using RemoveFile_cases [OF r] by (auto split: if_splits)
  have keep: "fs_files f' p = fs_files f p" if "json_path p" "p \<noteq> enroll_path store" "fs_files f p \<noteq> None" for p
  proof -
    have "fs_files f2 p = fs_files f p" using P(1) that by blast
    moreover from this have "fs_files f3 p = fs_files f p" using I(1) that by metis
    ultimately show ?thesis using cases R(1) [OF that(2)] 1 by auto
  qed
  have none: "fs_files f' p = None" if "json_path p" "p \<notin> {pairing_path store, index_path store}" "fs_files f p = None" for p
  proof -
    have "fs_files f2 p = None" "fs_files f3 p = None" using P(2) I(2) that by auto
    then show ?thesis using cases R(2) 1 that(3) by auto
  qed
  have "readJSON parseP (pairing_path store) f' = (case readJSON parseP (pairing_path store) f of Missing \<Rightarrow> Present [] | x \<Rightarrow> x)"
    "readJSON parseI (index_path store) f' = (case readJSON parseI (index_path store) f of Missing \<Rightarrow> Present (Some []) | x \<Rightarrow> x)" if ok
  proof -
    have c: "ok2" "ok3" "f' = f4" using cases that by auto
    have "fs_files f4 (pairing_path store) = (case fs_files f (pairing_path store) of None \<Rightarrow> Some (renderP [] @ [CHR 0x0A]) | Some b \<Rightarrow> Some b)"
      using P(3) [OF c(1)] I(2) [OF json(1) distinct(1)] R(1) [OF distinct(2)] by simp
    then show "readJSON parseP (pairing_path store) f' = (case readJSON parseP (pairing_path store) f of Missing \<Rightarrow> Present [] | x \<Rightarrow> x)"
      using assms(5) c(3) by (auto simp: readJSON_def split: option.split)
    have "fs_files f4 (index_path store) = (case fs_files f (index_path store) of None \<Rightarrow> Some (renderI (Some []) @ [CHR 0x0A]) | Some b \<Rightarrow> Some b)"
      using I(3) [OF c(2)] P(2) [OF json(2)] distinct(1) R(1) [OF distinct(3)] by simp
    then show "readJSON parseI (index_path store) f' = (case readJSON parseI (index_path store) f of Missing \<Rightarrow> Present (Some []) | x \<Rightarrow> x)"
      using assms(6) c(3) by (auto simp: readJSON_def split: option.split)
  qed
  with keep none e(2) show ?thesis by auto
qed


subsection \<open>The worker's files\<close>

text \<open>The state with the worker's token is replaced or kept, whatever fails.\<close>

lemma state_write_atomic:
  assumes "writeBootstrapState render path st f = (ok, f')" "parse (render st @ [CHR 0x0A]) = Some st"
  shows "readBootstrapState parse path f' = (if ok then Some st else readBootstrapState parse path f)"
proof -
  obtain ok1 f1 where w: "WriteFile (path @ ''.tmp'') (render st @ [CHR 0x0A]) f = (ok1, f1)" by fastforce
  from assms(1) have "(if \<not> ok1 then (False, f1) else Rename (path @ ''.tmp'') path f1) = (ok, f')"
    unfolding writeBootstrapState_def Let_def w by simp
  from replace_file [OF w this] assms(2) show ?thesis by (simp add: readBootstrapState_def ReadFile_def)
qed

text \<open>
  The configuration is written in place: it is there if the write succeeds, and a write that fails may leave
  the beginning of it, down to the empty file, which YAML reads as a configuration without any
  setting.
\<close>

lemma config_saved:
  assumes "SaveConfig render path cfg f = (True, f')" "\<And>b. render cfg = Some b \<Longrightarrow> parse b = Some cfg"
  shows "LoadConfig parse path f' = Some cfg"
  using assms by (auto simp: SaveConfig_def LoadConfig_def ReadFile_def dest!: WriteFile_cases split: option.splits)

lemma config_torn:
  assumes "render cfg = Some b" "fs_faults f = Torn n # rest"
  shows "fst (SaveConfig render path cfg f) = False"
    "LoadConfig parse path (snd (SaveConfig render path cfg f)) = parse (take n b)"
  using assms by (simp_all add: SaveConfig_def LoadConfig_def ReadFile_def WriteFile_def next_op_def put_file_def)

text \<open>Both files together, where the write fails half way.\<close>

theorem worker_files_survive:
  assumes "parseS (renderS st @ [CHR 0x0A]) = Some st" "renderC cfg = Some b" "parseC b = Some cfg"
    and "writeBootstrapState renderS path st f = (okS, fS)" "SaveConfig renderC path cfg f = (okC, fC)"
  shows "readBootstrapState parseS path fS = (if okS then Some st else readBootstrapState parseS path f)
    \<and> (okC \<longrightarrow> LoadConfig parseC path fC = Some cfg)
    \<and> (fs_faults f = Torn n # rest \<longrightarrow> \<not> okS \<and> \<not> okC
        \<and> readBootstrapState parseS path fS = readBootstrapState parseS path f
        \<and> LoadConfig parseC path fC = parseC (take n b))"
proof -
  have s: "readBootstrapState parseS path fS = (if okS then Some st else readBootstrapState parseS path f)"
    using state_write_atomic [where parse = parseS and render = renderS, OF assms(4) assms(1)] .
  moreover have "LoadConfig parseC path fC = Some cfg" if okC
    by (rule config_saved [of renderC path cfg f]) (use assms(2,3,5) that in auto)
  moreover have "\<not> okS \<and> \<not> okC \<and> LoadConfig parseC path fC = parseC (take n b)" if "fs_faults f = Torn n # rest"
    using config_torn(1) [where render = renderC and path = path, OF assms(2) that] config_torn(2) [where render = renderC and parse = parseC and path = path, OF assms(2) that]
      assms(4,5) that
    by (auto simp: writeBootstrapState_def WriteFile_def next_op_def Let_def)
  ultimately show ?thesis by auto
qed


subsection \<open>Witnesses\<close>

definition demo_record :: WorkerRecord where
  "demo_record = \<lparr>wr_WorkerID = ''w1'', wr_TokenHash = ''h'', wr_Labels = [], wr_CreatedAt = 1, wr_UpdatedAt = 1\<rparr>"

definition demo_writes :: "(store_write \<times> int) list" where
  "demo_writes = [(WriteWorker ''w1'' demo_record, 5), (WriteIndex (Some [(''h'', ''w1'')]), 6), (RemoveWorker ''w1'', 7)]"

definition demo_fs :: fs where
  "demo_fs = \<lparr>fs_files = (\<lambda>_. None), fs_faults = [Works, Works, Torn 3]\<rparr>"

definition demo_files_run :: "bool list \<times> fs" where
  "demo_files_run = files_run (\<lambda>_. '''') (\<lambda>_. '''') (\<lambda>_. '''') ''data'' demo_writes demo_fs"

lemma files_refine_store_witness:
  "fst (store_run (map fst demo_writes)
     \<lparr>cs_workers = [], cs_index = Missing, cs_pairing = Missing, cs_enroll = False, cs_faults = map Not (fst demo_files_run)\<rparr>)
   = fst demo_files_run"
proof -
  define s where "s = \<lparr>cs_workers = [], cs_index = Missing, cs_pairing = Missing, cs_enroll = False,
    cs_faults = map Not (fst demo_files_run)\<rparr>"
  have run: "files_run (\<lambda>_. '''') (\<lambda>_. '''') (\<lambda>_. '''') ''data'' demo_writes demo_fs = (fst demo_files_run, snd demo_files_run)"
    by (simp add: demo_files_run_def)
  have "\<exists>s'. store_run (map fst demo_writes) s = (fst demo_files_run, s') \<and> files_show (\<lambda>_. Some []) (\<lambda>_. Some (Some [(''h'', ''w1'')]))
      (\<lambda>_. Some demo_record) ''data'' (snd demo_files_run) s'"
    by (rule files_refine_store [OF _ _ _ _ run])
      (simp_all add: files_show_def s_def demo_fs_def readJSON_def worker_file_def demo_writes_def plain_id_def)
  then show ?thesis unfolding s_def by auto
qed

definition demo_corrupt :: fs where
  "demo_corrupt = \<lparr>fs_files = (\<lambda>_. None)(index_path (Clean ''./data'') := Some ''{''), fs_faults = []\<rparr>"

lemma start_keeps_store_witness:
  "fs_files (snd (NewWorkerConfigStore (\<lambda>_. ''[]'') (\<lambda>_. ''{}'') '''' 1 2 demo_corrupt)) (index_path (Clean ''./data'')) = Some ''{''"
proof -
  define res where "res = NewWorkerConfigStore (\<lambda>_. ''[]'') (\<lambda>_. ''{}'') '''' 1 2 demo_corrupt"
  then have run: "NewWorkerConfigStore (\<lambda>_. ''[]'') (\<lambda>_. ''{}'') '''' 1 2 demo_corrupt = (fst res, snd res)" by simp
  have "\<forall>p. json_path p \<and> p \<noteq> enroll_path (Clean ''./data'') \<and> fs_files demo_corrupt p \<noteq> None \<longrightarrow> fs_files (snd res) p = fs_files demo_corrupt p"
    by (rule start_keeps_store [where parseP = "\<lambda>_. Some []" and parseI = "\<lambda>_. Some (Some [])", THEN conjunct1, OF run]) simp_all
  moreover have "Clean ''./data'' \<noteq> ''''" by (rule Clean_nonempty)
  ultimately have "fs_files (snd res) (index_path (Clean ''./data'')) = fs_files demo_corrupt (index_path (Clean ''./data''))"
    using store_json(2) store_paths_distinct(3) by (simp add: demo_corrupt_def)
  then show ?thesis unfolding res_def by (simp add: demo_corrupt_def)
qed

lemma worker_files_survive_witness:
  "readBootstrapState (\<lambda>_. Some \<lparr>bs_WorkerID = ''w1'', bs_WorkerToken = ''t''\<rparr>) ''/s/state.json''
     (snd (writeBootstrapState (\<lambda>_. ''{}'') ''/s/state.json'' \<lparr>bs_WorkerID = ''w1'', bs_WorkerToken = ''t''\<rparr> (demo_fs\<lparr>fs_faults := []\<rparr>)))
   = Some \<lparr>bs_WorkerID = ''w1'', bs_WorkerToken = ''t''\<rparr>"
proof -
  have ok: "fst (writeBootstrapState (\<lambda>_. ''{}'') ''/s/state.json'' \<lparr>bs_WorkerID = ''w1'', bs_WorkerToken = ''t''\<rparr> (demo_fs\<lparr>fs_faults := []\<rparr>))"
    by (simp add: writeBootstrapState_def WriteFile_def Rename_def next_op_def put_file_def demo_fs_def Let_def)
  have cfg: "(\<lambda>_. Some ''c'') empty_config = Some ''c''" "(\<lambda>_. Some empty_config) ''c'' = Some empty_config" by simp_all
  from worker_files_survive [of "\<lambda>_. Some \<lparr>bs_WorkerID = ''w1'', bs_WorkerToken = ''t''\<rparr>" "\<lambda>_. ''{}''"
      "\<lparr>bs_WorkerID = ''w1'', bs_WorkerToken = ''t''\<rparr>", OF refl cfg prod.collapse [symmetric] prod.collapse [symmetric],
      of "''/s/state.json''" "demo_fs\<lparr>fs_faults := []\<rparr>"] ok
  show ?thesis by simp
qed

end
