(* ===== verification/Startup.thy ===== *)
theory Startup
  imports Server WorkerCommand FileStore
begin

text \<open>
  How the programs start: the logging and the store of the gateway's command
  (\<^verbatim>\<open>cmd/gateway/main.go\<close>, \<^verbatim>\<open>NewGatewayServerWithLogger\<close>), the start of the proxy
  (\<^verbatim>\<open>cmd/net-policy-proxy/main.go\<close>), and the first lines of the worker's command
  (\<^verbatim>\<open>cmd/worker/main.go\<close>). The logging library decides by level which entries are
  written, and hands a written entry to the hooks that ask for its level.
\<close>

subsection \<open>Levels\<close>

datatype log_level = PanicLevel | FatalLevel | ErrorLevel | WarnLevel | InfoLevel | DebugLevel | TraceLevel

fun severity :: "log_level \<Rightarrow> nat" where
  "severity PanicLevel = 0"
| "severity FatalLevel = 1"
| "severity ErrorLevel = 2"
| "severity WarnLevel = 3"
| "severity InfoLevel = 4"
| "severity DebugLevel = 5"
| "severity TraceLevel = 6"

text \<open>The order of the levels is the one of their numbers, the most severe first.\<close>

instantiation log_level :: linorder
begin

definition less_eq_log_level :: "log_level \<Rightarrow> log_level \<Rightarrow> bool" where
  "less_eq_log_level a b \<longleftrightarrow> severity a \<le> severity b"

definition less_log_level :: "log_level \<Rightarrow> log_level \<Rightarrow> bool" where
  "less_log_level a b \<longleftrightarrow> severity a < severity b"

instance
proof
  fix a b :: log_level
  show "a \<le> b \<Longrightarrow> b \<le> a \<Longrightarrow> a = b"
    by (cases a; cases b) (simp_all add: less_eq_log_level_def)
qed (auto simp: less_eq_log_level_def less_log_level_def)

end

subsection \<open>The gateway's log\<close>

definition hook_levels :: "log_level list" where
  "hook_levels = [InfoLevel, WarnLevel, ErrorLevel, FatalLevel, PanicLevel]"

text \<open>\<^verbatim>\<open>Fire\<close>: the entry as a line goes to the file; \<open>line\<close> is empty where it cannot be
  printed.\<close>

definition Fire :: "string option \<Rightarrow> string list \<Rightarrow> string list" where
  "Fire line file = (case line of None \<Rightarrow> file | Some l \<Rightarrow> file @ [l])"

text \<open>One entry, on the standard output and in the file.\<close>

definition log_entry :: "log_level \<Rightarrow> bool \<Rightarrow> log_level \<times> string \<Rightarrow> string list \<times> string list \<Rightarrow> string list \<times> string list" where
  "log_entry enabled hooked entry logs =
     (let (level, l) = entry; (out, file) = logs in
      if \<not> level \<le> enabled then (out, file)
      else (out @ [l], if hooked \<and> level \<in> set hook_levels then Fire (Some l) file else file))"

lemma hook_levels_iff: "level \<in> set hook_levels \<longleftrightarrow> level \<le> InfoLevel"
  by (cases level) (simp_all add: hook_levels_def less_eq_log_level_def)

lemma log_both:
  "fold (log_entry enabled hooked) entries (out, kept) =
     (out @ map snd (filter (\<lambda>e. fst e \<le> enabled) entries),
      kept @ (if hooked then map snd (filter (\<lambda>e. fst e \<le> enabled \<and> fst e \<le> InfoLevel) entries) else []))"
  by (induction entries arbitrary: out kept) (auto simp: log_entry_def Fire_def hook_levels_iff)

text \<open>With the level debug or trace the entries below info are on the standard output only.\<close>

lemma file_misses_debug:
  assumes "fold (log_entry enabled True) entries ([], []) = (out, kept)" "(level, l) \<in> set entries" "distinct (map snd entries)"
    and "InfoLevel < level" "level \<le> enabled"
  shows "l \<in> set out \<and> l \<notin> set kept"
proof -
  have "inj_on snd (set entries)" using assms(3) by (simp add: distinct_map)
  then have "a = level" if "(a, l) \<in> set entries" for a
    using inj_onD [of snd, OF _ _ that assms(2)] by simp
  moreover have logs: "out = map snd (filter (\<lambda>e. fst e \<le> enabled) entries)"
      "kept = map snd (filter (\<lambda>e. fst e \<le> enabled \<and> fst e \<le> InfoLevel) entries)"
    using assms(1) by (simp_all add: log_both)
  moreover have "l \<in> set out" unfolding logs using assms(2,5) by force
  moreover have "l \<notin> set kept"
  proof
    assume "l \<in> set kept"
    then obtain a where "(a, l) \<in> set entries" "a \<le> InfoLevel" by (auto simp: logs)
    with calculation(1) assms(4) show False by fastforce
  qed
  ultimately show ?thesis by simp
qed

subsection \<open>The gateway\<close>

datatype gateway_start = GatewayFatal string | GatewayServes log_level "string option" string gateway

text \<open>\<^verbatim>\<open>log.Fatal\<close> where the directory of the log cannot be made,
  \<^verbatim>\<open>logger.Fatal\<close> where the store cannot; otherwise the server with its store's directory.\<close>

definition start_gateway ::
    "(string \<Rightarrow> log_level option) \<Rightarrow> (string \<Rightarrow> string option)
     \<Rightarrow> (PairingRequest list \<Rightarrow> string) \<Rightarrow> (worker_index \<Rightarrow> string) \<Rightarrow> gateway_flags \<Rightarrow> int \<Rightarrow> int \<Rightarrow> fs \<Rightarrow> gateway_start \<times> fs" where
  "start_gateway parseLevel mkdirAll renderP renderI fl now1 now2 f =
     (case gateway_main parseLevel InfoLevel mkdirAll fl of
        Inl e \<Rightarrow> (GatewayFatal e, f)
      | Inr (level, logFile, g) \<Rightarrow>
          (case NewWorkerConfigStore renderP renderI (gf_configStoreDir fl) now1 now2 f of
             (None, f) \<Rightarrow> (GatewayFatal ''failed to initialize worker config store'', f)
           | (Some dir, f) \<Rightarrow> (GatewayServes level logFile dir g, f)))"

subsection \<open>The proxy\<close>

datatype proxy_start = ProxyExits nat | ProxyServes allowlist

text \<open>The rules are loaded first: without them the program ends and no request is served.\<close>

definition proxy_main :: "allow_file \<Rightarrow> proxy_start" where
  "proxy_main file = (case loadAllowlist file of Inl e \<Rightarrow> ProxyExits 2 | Inr al \<Rightarrow> ProxyServes al)"

text \<open>The end of the server: an error other than its having been closed.\<close>

definition proxy_exit :: "bool \<Rightarrow> bool \<Rightarrow> nat" where
  "proxy_exit failed closed = (if failed \<and> \<not> closed then 1 else 0)"

lemma proxy_needs_rules: "proxy_main file = ProxyServes al \<longleftrightarrow> loadAllowlist file = Inr al"
  by (simp add: proxy_main_def split: sum.split)

subsection \<open>The worker's command\<close>

text \<open>The verbose flag may also stand after the subcommand, where the flag package does not look.\<close>

definition verbose_mode :: "bool \<Rightarrow> string list \<Rightarrow> bool" where
  "verbose_mode flag args = (flag \<or> list_ex (\<lambda>a. a = ''--verbose'' \<or> a = ''-verbose'') args)"

definition load_worker_config :: "(string \<Rightarrow> Config option) \<Rightarrow> string \<Rightarrow> fs \<Rightarrow> string + Config option" where
  "load_worker_config parse configPath f =
     (if configPath = '''' then Inr None
      else (case LoadConfig parse configPath f of None \<Rightarrow> Inl ''failed to load config'' | Some c \<Rightarrow> Inr (Some c)))"

text \<open>\<^verbatim>\<open>CheckDockerInfo\<close>: what is said of \<^verbatim>\<open>docker info\<close>, by lines and without the pictures.\<close>

definition CheckDockerInfo :: "bool \<Rightarrow> string list" where
  "CheckDockerInfo ok =
     ['''', ''--- Pre-flight Check ---'']
     @ (if \<not> ok then
          [''Checking Docker connection... FAILED'',
           ''Warning: Docker daemon is not running or not accessible.'',
           ''         Worker may fail to run containers.'',
           ''         Please start Docker Desktop or check socket permissions.'']
        else [''Checking Docker connection... OK''])
     @ [''------------------------'']"

text \<open>What a worker does with what \<^verbatim>\<open>SaveConfig\<close> has left on its path.\<close>

lemma saved_config_starts:
  assumes "SaveConfig render path cfg f = (True, f')" "\<And>b. render cfg = Some b \<Longrightarrow> parse b = Some cfg" "path \<noteq> ''''"
  shows "load_worker_config parse path f' = Inr (Some cfg)"
  using config_saved [OF assms(1,2)] assms(3) by (simp add: load_worker_config_def)

text \<open>A gateway that serves has its two lists, and every file it found.\<close>

lemma started_gateway_store:
  assumes "start_gateway parseLevel mkdirAll renderP renderI fl now1 now2 f = (GatewayServes level logFile dir g, f')"
  obtains "NewWorkerConfigStore renderP renderI (gf_configStoreDir fl) now1 now2 f = (Some dir, f')" "g = NewGatewayServer (gf_token fl)"
  using assms by (auto simp: start_gateway_def gateway_main_def Let_def split: sum.splits option.splits prod.splits if_splits)

end
