(* ===== verification/Spec2Isabelle.thy ===== *)
theory Spec2Isabelle
  imports Pairing GatewayProps Connections WorkerProps RunConfined Bootstrap RunEvents RunLogs AgentEnv WorkerCommand Server
    WorkerLink Tokens EventStream FileStore Startup
begin

text \<open>
  Nano-cloud hands runs of coding agents to machines. A gateway (\<^verbatim>\<open>cmd/gateway\<close>,
  \<^verbatim>\<open>pkg/server\<close>) takes runs over HTTP, keeps a store of paired workers, queues control
  messages for them and passes their events on. A worker (\<^verbatim>\<open>cmd/worker\<close>,
  \<^verbatim>\<open>pkg/worker\<close>) pairs with the gateway, keeps a web socket to it and executes each run, as
  a process or in a container, behind a filtering proxy (\<^verbatim>\<open>cmd/net-policy-proxy\<close>)
  where the run's policy asks for it. In the container one of three wrappers
  (\<^verbatim>\<open>cmd/runtime-*\<close>) starts the agent. This library models these programs and their
  interplay. Names are the source's; a suffix, a prefix like \<open>cfg_\<close> for record fields, or an
  explicit name for a loop body is all that is added.

  \<^bold>\<open>Foundations.\<close> \<open>Prelude\<close> has lemmas on lists and association lists, the
  locale \<open>bounded_log\<close> of a list cut to its last entries, and the locale \<open>settings\<close> of a
  store of settings under paths. \<open>GoStrings\<close> is the part of Go's string functions that is used,
  over byte strings; \<open>GoPath\<close> is \<^verbatim>\<open>filepath.Clean\<close> and
  \<^verbatim>\<open>Join\<close>; \<open>NetAddr\<close> parses and prints addresses and prefixes.
  \<open>Protocol\<close> has the messages of \<^verbatim>\<open>runtime.pb.go\<close> with their widths.

  \<^bold>\<open>The proxy.\<close> \<open>Allowlist\<close> models \<^verbatim>\<open>net_allowlist.go\<close>
  and the proxy's loader, decision and handlers; a handler is the list of destinations it contacts.
  Resolution and dialling are parameters.

  \<^bold>\<open>The store.\<close> \<open>ConfigStore\<close> (\<^verbatim>\<open>worker_config_store.go\<close>)
  and \<open>Pairing\<close> (\<^verbatim>\<open>pairing_store.go\<close>): files that may be missing or
  corrupt, writes that may fail (a list of faults to come), with the hash, random values and the clock
  as arguments. The abstract view is \<open>live\<close>, the worker a token authenticates;
  rotation and deletion refine changes of it, and a dead token stays dead in every sequence of
  operations. \<open>FileStore\<close> goes down to the files: every call of the file system may fail and a
  failing write may leave a part of its content, and the store's operations over such files, written
  beside and renamed, are shown to refine those of \<open>ConfigStore\<close>, where a write takes place or does
  not. The worker's state and configuration files are there too. \<open>Tokens\<close> makes the texts of
  secrets from random bytes (base64 and hexadecimal) and follows a token from the gateway that draws it to
  the request of the worker that presents it.

  \<^bold>\<open>The gateway.\<close> \<open>GatewayAuth\<close> has the token checks and the sessions,
  \<open>Gateway\<close> the state under the mutex with one definition per handler or critical section,
  \<open>GatewayProps\<close> its reachable states (a step relation over all operations) and their
  properties, \<open>Connections\<close> the goroutines of the workers' connections, of which a worker that reconnects has
  two for a while, \<open>AdminApi\<close> the handlers of \<^verbatim>\<open>pairing_handlers.go\<close> and
  \<^verbatim>\<open>admin_handlers.go\<close>, \<open>Console\<close> the pages, and \<open>Server\<close> the
  route table, the middlewares and the command: there one function serves every call on gateway and
  store together, so that what a request without credentials can do is one theorem over all
  routes. A step holds the lock from its beginning to its end. Where the code lets go in
  between, the parts are operations of their own, and three theorems show orders of them that lose
  something: a session removed by the end of an older connection (in \<open>Connections\<close>), a run recorded
  after its completion, a message queued after a later one was acknowledged. Writes to connections
  fail by a list of faults to come, which the reachable states start with an arbitrary one of. \<open>EventStream\<close> is the text a
  subscriber of a run is sent and what the rules for server-sent events make of it: the client reads
  exactly the events written. \<open>Startup\<close> has the commands' first steps: log levels
  and hooks, opening the store, the proxy's start and the worker's.

  \<^bold>\<open>The worker.\<close> \<open>WorkerConfig\<close> and \<open>ConfigCommand\<close> are
  \<^verbatim>\<open>config.go\<close>, \<^verbatim>\<open>config_edit.go\<close> and the
  configuration commands and the wizard of \<^verbatim>\<open>cmd/worker\<close>, whose files are written in place and
  may be cut off where a write fails; \<open>WorkerConn\<close>
  the addresses, hello and back-off of the connection; \<open>Bootstrap\<close> enrolling and pairing, with the
  address of every request;
  \<open>WorkerCommand\<close> the subcommands and how flags, file and bootstrap make a
  configuration; \<open>Diagnose\<close> the reports. \<open>RuntimeSpec\<close> and \<open>DockerRunner\<close>
  build what a container is started with. \<open>Effects\<close> and \<open>WorkerRun\<close> model a run
  as a program tree: a goroutine either ends or does one atomic operation and goes on
  with its result; replies of docker and the operating system are arbitrary. \<open>WorkerSystem\<close>
  interleaves any number of runs and cancellations with the output of agents and losses of the
  connection. \<open>WorkerLink\<close> looks closer at the connection: frames by type and bytes, and the
  goroutines that share socket and counter, where an envelope takes its number in one step and is
  written in another. It shows what the gateway makes of what they write: a greeting that
  comes first registers the worker, each goroutine's envelopes keep their order, and a run that writes to
  a new connection before its greeting has the worker turned away. \<open>RunMonitors\<close>, \<open>WorkerProps\<close>, \<open>RunConfined\<close> and
  \<open>RunEvents\<close> prove what holds of every run or every interleaving: one
  completion, no silent end, exit codes, termination, confinement behind the proxy (stated over whole
  command lines and the paths of the written and the mounted rules), typed events.
  \<open>RunLogs\<close> has the log files. \<open>Wrappers\<close> are the programs in the
  containers, and \<open>AgentEnv\<close> follows a run from the API call to the call of the agent.

  \<^bold>\<open>Interfaces.\<close> A locale states what one part relies on, an interpretation discharges it
  for the code's definitions: \<open>permit_list\<close> for the proxy's two scans of its rules;
  \<open>credential_store\<close> for the store; \<open>bounded_log\<close> for the control queues and
  the streams; \<open>monitored\<close>, with \<open>blind_monitor\<close> and
  \<open>run_monitor\<close> over the pieces of a run and the state after the agent's end, for the completion, the answer, the exit code, the
  type of events and the number of steps; \<open>run_system\<close> for the interleaving of the handlers;
  \<open>link_invariant\<close> for what every step of the goroutines on a connection keeps;
  \<open>settings\<close> for association lists and, by the sublocale of \<open>yaml_keys\<close>, for the
  nested keys of the agent's file.

  \<^bold>\<open>Bounds.\<close> Queues hold 1000 messages, streams 2000 events, subscribers 64; the numbers are
  the code's. A run takes at most 33 operations and one for each variable that is passed through;
  this is proved and not assumed, there is no fuel in the handlers. The polling of an approval is a
  loop over the replies of the gateway, without a result while none decides; the wizard's question for an address
  is a loop over the lines typed, without a result at their end, where the program asks for ever.
  Sequence numbers and limits are words of their width; durations are integers with their
  wrap-around written out.

  \<^bold>\<open>Not modelled.\<close> The web socket below its messages, its pings and deadlines; the parsers of YAML, JSON and
  URLs, the router and the flag package, which are parameters; the style sheets, the script and the forms
  without data of the console, which are pieces without content; the rotation of the gateway's log
  file; the generated reflection and marshalling code of the messages. In
  \<open>WorkerSystem\<close> a sent event takes its number and is written in one step; the two steps apart are in
  \<open>WorkerLink\<close>, where the runs are abstract. A map that is ranged over has one order, kept in its association list.
\<close>

section \<open>Pairing and connecting together\<close>

lemma hello_of_worker: "GetWorkerHello (hello_envelope cfg seq) \<noteq> None \<and> env_WorkerId (hello_envelope cfg seq) = cfg_WorkerID cfg"
  by (simp add: hello_envelope_def GetWorkerHello_def)

lemma start_defaults_id:
  "cfg_WorkerID (start_defaults now tmp cfg)
    = (if cfg_WorkerID cfg = '''' then ''worker-'' @ dec_of_nat now else cfg_WorkerID cfg)"
  by (simp add: start_defaults_def Let_def)

lemma connect_with_worker_token:
  assumes "\<not> checkToken e (gw_token g) r" "parseBearerToken r = tok" "tok \<noteq> ''''"
    and "ValidateWorkerToken h tok cs = Inr wid" "wid \<noteq> ''''"
  shows "fst (handleWorkerConnect e h r conn (Some (hello_envelope cfg seq)) now cs g)
    = (if cfg_WorkerID cfg = wid then ConnRegistered wid else ConnDropped)"
    and "cfg_WorkerID cfg \<noteq> wid \<Longrightarrow> snd (handleWorkerConnect e h r conn (Some (hello_envelope cfg seq)) now cs g) = g"
  using assms hello_of_worker [of cfg seq]
  by (auto simp: handleWorkerConnect_def connect_auth_def hello_worker_id_def Let_def)

text \<open>C37: A freshly paired worker cannot register. The gateway binds the token it hands out to the
  identifier it made up on approval and never tells the worker; the worker introduces itself as the one
  it was configured with, or as worker-<time>, and is turned away with the gateway unchanged,
  although its token is valid and a hello with the token's own identifier would be accepted.\<close>

theorem paired_worker_cannot_register:
  assumes "BootstrapFromRemote parse show w boot = (Some (Inr cfg), calls)"
    and "bw_state w = None" "bc_EnrollToken boot = ''''" "cfg_Token cfg \<noteq> ''''"
    and "ValidateWorkerToken h (cfg_Token cfg) cs = Inr wid" "wid \<noteq> ''''"
    and "wid \<noteq> bc_WorkerID boot" "\<not> prefix ''worker-'' wid"
    and "parseBearerToken r = cfg_Token cfg" "\<not> checkToken e (gw_token g) r"
    and "started = start_defaults now tmp cfg"
  shows "handleWorkerConnect e h r conn (Some (hello_envelope started seq)) now' cs g = (ConnDropped, g)
    \<and> fst (handleWorkerConnect e h r conn (Some (hello_envelope (started\<lparr>cfg_WorkerID := wid\<rparr>) seq)) now' cs g)
        = ConnRegistered wid"
proof -
  define boot' where "boot' = boot\<lparr>bc_StateDir := state_dir w boot\<rparr>"
  obtain u st more where o: "obtain_token (trim_right_chars {CHR ''/''} (show u)) w boot' (initial_state w boot')
      = (Some (Inr st), more)"
    and c: "cfg = buildConfigFromBootstrap st boot'"
    using bootstrap_ok [OF assms(1)] unfolding boot'_def by metis
  have i: "initial_state w boot' = \<lparr>bs_WorkerID = bc_WorkerID boot, bs_WorkerToken = ''''\<rparr>"
    by (simp add: initial_state_def assms(2) boot'_def Let_def)
  have "bs_WorkerID st = bc_WorkerID boot"
    using obtain_token_ok [OF o] assms(3) unfolding i by (auto simp: boot'_def)
  then have "cfg_WorkerID cfg = bc_WorkerID boot" by (simp add: c buildConfigFromBootstrap_def)
  then have "cfg_WorkerID started \<noteq> wid"
    using assms(7,8) by (auto simp: assms(11) start_defaults_id prefix_def)
  with connect_with_worker_token [OF assms(10,9,4,5,6)] show ?thesis
    by (auto intro: prod_eqI)
qed

lemma paired_worker_cannot_register_witness:
  "handleWorkerConnect demo_genv demo_hash (demo_http ''Bearer t1'') 3
     (Some (hello_envelope (start_defaults 17 ''/tmp'' demo_paired) 1)) 20 (demo_store []) (NewGatewayServer ''tok'')
   = (ConnDropped, NewGatewayServer ''tok'')"
proof -
  have w: "bw_state demo_boot_world = None" "bc_EnrollToken demo_boot = ''''" "cfg_Token demo_paired = ''t1''"
    "bc_WorkerID demo_boot = ''''"
    by (simp_all add: demo_boot_world_def demo_boot_def demo_paired_def)
  have v: "ValidateWorkerToken demo_hash ''t1'' (demo_store []) = Inr ''w1''"
    "parseBearerToken (demo_http ''Bearer t1'') = ''t1''"
    "\<not> checkToken demo_genv (gw_token (NewGatewayServer ''tok'')) (demo_http ''Bearer t1'')"
    by code_simp+
  from paired_worker_cannot_register [OF demo_bootstrap w(1,2) _ _ _ _ _ _ v(3) refl,
      where h = demo_hash and cs = "demo_store []" and wid = "''w1''" and now = 17 and tmp = "''/tmp''"
        and conn = 3 and seq = 1 and now' = 20] v w(3,4)
  show ?thesis by simp
qed

end
